(* ===== verification/Prelude.thy ===== *)
theory Prelude
  imports Main "HOL-Library.Word"
begin

text \<open>
  Shared vocabulary of the development: bytes and byte strings, the exceptions of
  \<^verbatim>\<open>src/ocw.py\<close> as values of a datatype, the result type \<open>error + 'a\<close> with its
  sequencing operator, computations in a world (\<open>bind_io\<close>), and the generic facts on lists, results and integer bit
  operations that the component theories rely on. Nothing here models a line of the
  program; the Python built-ins the program calls are in \<open>Py_Builtins\<close>.
\<close>

unbundle bit_operations_syntax

section \<open>Fact collections\<close>

named_theorems enc_defs \<open>unfolding equations of the encoders and of the built-ins they call\<close>
named_theorems enc_length \<open>length of the byte strings the encoders produce\<close>
named_theorems res_simps \<open>characterisations of when a result is a value or an error\<close>

section \<open>Bytes\<close>

type_synonym byte = "8 word"
type_synonym bytes = "byte list"

section \<open>Exceptions as values\<close>

text \<open>
  One constructor per exception class that can leave a function of the program.
  \<open>Exception\<close> carries the message of a bare \<^verbatim>\<open>raise Exception("...")\<close>;
  \<open>BinasciiError\<close> is \<^verbatim>\<open>binascii.Error\<close> with its message; \<open>KeyError\<close> names the
  missing key.
\<close>

datatype error =
    KeyError string
  | TypeError
  | AttributeError
  | ValueError
  | OverflowError
  | BinasciiError string
  | Exception string
  | SubstrateRequestException

type_synonym 'a result = "error + 'a"

abbreviation Ok :: "'a \<Rightarrow> 'a result" where
  "Ok \<equiv> Inr"

abbreviation Raise :: "error \<Rightarrow> 'a result" where
  "Raise \<equiv> Inl"

text \<open>Sequencing: an exception of the first computation skips the rest.\<close>

definition bind_res :: "'a result \<Rightarrow> ('a \<Rightarrow> 'b result) \<Rightarrow> 'b result" where
  "bind_res m f = (case m of Inl e \<Rightarrow> Inl e | Inr x \<Rightarrow> f x)"

definition is_ok :: "'a result \<Rightarrow> bool" where
  "is_ok m = (case m of Inl _ \<Rightarrow> False | Inr _ \<Rightarrow> True)"

text \<open>Running a fallible function over a list, left to right, stopping at the first error.\<close>

fun map_res :: "('a \<Rightarrow> 'b result) \<Rightarrow> 'a list \<Rightarrow> 'b list result" where
  "map_res f [] = Ok []"
| "map_res f (x # xs) =
     bind_res (f x) (\<lambda>y. bind_res (map_res f xs) (\<lambda>ys. Ok (y # ys)))"

section \<open>Results\<close>

lemma bind_res_Ok [simp]: "bind_res (Ok x) f = f x"
  by (simp add: bind_res_def)

lemma bind_res_Raise [simp]: "bind_res (Raise e) f = Raise e"
  by (simp add: bind_res_def)

lemma bind_res_Ok_right [simp]: "bind_res m Ok = m"
  by (cases m) simp_all

lemma bind_res_assoc: "bind_res (bind_res m f) g = bind_res m (\<lambda>x. bind_res (f x) g)"
  by (cases m) simp_all

lemma bind_res_eq_Ok [res_simps]:
  "bind_res m f = Ok y \<longleftrightarrow> (\<exists>x. m = Ok x \<and> f x = Ok y)"
  by (cases m) simp_all

lemma bind_res_eq_Raise [res_simps]:
  "bind_res m f = Raise e \<longleftrightarrow> m = Raise e \<or> (\<exists>x. m = Ok x \<and> f x = Raise e)"
  by (cases m) simp_all

lemma is_ok_simps [simp]: "is_ok (Ok x)" "\<not> is_ok (Raise e)"
  by (simp_all add: is_ok_def)

lemma is_ok_iff [res_simps]: "is_ok m \<longleftrightarrow> (\<exists>x. m = Ok x)"
  by (cases m) simp_all

lemma not_is_ok_iff [res_simps]: "\<not> is_ok m \<longleftrightarrow> (\<exists>e. m = Raise e)"
  by (cases m) simp_all

lemma is_ok_bind_res [res_simps]:
  "is_ok (bind_res m f) \<longleftrightarrow> (\<exists>x. m = Ok x \<and> is_ok (f x))"
  by (cases m) simp_all

lemma map_res_total:
  "(\<And>x. x \<in> set xs \<Longrightarrow> f x = Ok (g x)) \<Longrightarrow> map_res f xs = Ok (map g xs)"
  by (induction xs) simp_all

lemma map_res_Ok_length: "map_res f xs = Ok ys \<Longrightarrow> length ys = length xs"
  by (induction xs arbitrary: ys) (auto simp: res_simps)

lemma map_res_Ok_nth:
  "map_res f xs = Ok ys \<Longrightarrow> i < length xs \<Longrightarrow> f (xs ! i) = Ok (ys ! i)"
proof (induction xs arbitrary: ys i)
  case Nil
  then show ?case by simp
next
  case (Cons x xs)
  then show ?case by (cases i) (auto simp: res_simps)
qed

lemma map_res_Raise:
  "map_res f xs = Raise e \<Longrightarrow> \<exists>x \<in> set xs. f x = Raise e"
  by (induction xs) (auto simp: res_simps)

lemma map_res_append:
  "map_res f (xs @ ys) =
     bind_res (map_res f xs) (\<lambda>us. bind_res (map_res f ys) (\<lambda>vs. Ok (us @ vs)))"
  by (induction xs) (simp_all add: bind_res_assoc)

section \<open>Computations in a world\<close>

text \<open>
  A function of the program that reads the clock, talks to the network or the chain, or
  prints, takes the world and returns its result, a value or an exception, with the
  world as it has become. \<open>bind_io\<close> runs two such computations in sequence; an
  exception of the first skips the second and keeps the world it was raised in.
\<close>

type_synonym ('a, 'w) io = "'w \<Rightarrow> 'a result \<times> 'w"

definition return_io :: "'a \<Rightarrow> ('a, 'w) io" where
  "return_io x w = (Ok x, w)"

definition lift_res :: "'a result \<Rightarrow> ('a, 'w) io" where
  "lift_res r w = (r, w)"

definition bind_io :: "('a, 'w) io \<Rightarrow> ('a \<Rightarrow> ('b, 'w) io) \<Rightarrow> ('b, 'w) io" where
  "bind_io m f w = (case m w of (Inl e, w') \<Rightarrow> (Inl e, w') | (Inr x, w') \<Rightarrow> f x w')"

lemma bind_io_return [simp]: "bind_io (return_io x) f = f x"
  by (simp add: bind_io_def return_io_def fun_eq_iff)

lemma bind_io_lift_Ok [simp]: "bind_io (lift_res (Ok x)) f = f x"
  by (simp add: bind_io_def lift_res_def fun_eq_iff)

lemma bind_io_lift_Raise [simp]: "bind_io (lift_res (Raise e)) f w = (Raise e, w)"
  by (simp add: bind_io_def lift_res_def)

lemma bind_io_Ok: "m w = (Ok x, w') \<Longrightarrow> bind_io m f w = f x w'"
  by (simp add: bind_io_def)

lemma bind_io_Raise: "m w = (Raise e, w') \<Longrightarrow> bind_io m f w = (Raise e, w')"
  by (simp add: bind_io_def)

lemma bind_io_cases:
  obtains (Raise) e w' where "m w = (Raise e, w')" "bind_io m f w = (Raise e, w')"
  | (Ok) x w' where "m w = (Ok x, w')" "bind_io m f w = f x w'"
  by (cases "m w"; cases "fst (m w)") (auto simp: bind_io_def)

lemma bind_io_eq_Ok_iff:
  "bind_io m f w = (Ok y, w'') \<longleftrightarrow> (\<exists>x w'. m w = (Ok x, w') \<and> f x w' = (Ok y, w''))"
  by (cases "m w"; cases "fst (m w)") (auto simp: bind_io_def)

lemma bind_io_assoc: "bind_io (bind_io m f) g = bind_io m (\<lambda>x. bind_io (f x) g)"
  by (auto simp: bind_io_def fun_eq_iff split: prod.splits sum.splits)

section \<open>Lists\<close>

lemma take_length_append [simp]: "length xs = n \<Longrightarrow> take n (xs @ ys) = xs"
  by simp

lemma drop_length_append [simp]: "length xs = n \<Longrightarrow> drop n (xs @ ys) = ys"
  by simp

lemma append_eq_same_length:
  "length xs = length us \<Longrightarrow> xs @ ys = us @ vs \<longleftrightarrow> xs = us \<and> ys = vs"
  by simp

section \<open>Integer bit operations as arithmetic\<close>

text \<open>
  Python's \<^verbatim>\<open><<\<close>, \<^verbatim>\<open>|\<close> and \<^verbatim>\<open>&\<close> on its unbounded integers are \<open>push_bit\<close>,
  \<open>OR\<close> and \<open>AND\<close> on \<open>int\<close> (both read a negative number in two's complement with
  infinitely many leading ones). The encoders use them with a two-bit tag and an
  eight-bit mask, where they are plain arithmetic.
\<close>

lemma int_and_255: "(x::int) AND 255 = x mod 256"
proof -
  have "take_bit 8 x = x AND mask 8"
    by (rule take_bit_eq_mask)
  then show ?thesis
    by (simp add: take_bit_eq_mod mask_eq_exp_minus_1)
qed

lemma shift2_or_tag:
  fixes v t :: int
  assumes "0 \<le> t" and "t < 4"
  shows "push_bit 2 v OR t = 4 * v + t"
proof -
  from assms have t: "take_bit 2 t = t"
    by (simp add: take_bit_eq_mod)
  have "push_bit 2 v + take_bit 2 t = push_bit 2 v OR take_bit 2 t"
    by (rule disjunctive_add_eq_or) (simp add: bit_eq_iff bit_simps)
  then show ?thesis
    by (simp add: t push_bit_eq_mult)
qed

lemma shift2_and_255: "push_bit 2 (v::int) AND 255 = (4 * v) mod 256"
  by (simp add: int_and_255 push_bit_eq_mult mult.commute)

lemmas shift2_simps = shift2_and_255 shift2_or_tag

end
