(* ===== verification/Py_Builtins.thy ===== *)
theory Py_Builtins
  imports Prelude
begin

text \<open>
  The Python built-ins and standard-library functions that \<^verbatim>\<open>src/ocw.py\<close> calls on
  integers and byte strings, as executable HOL functions with the exceptions they
  raise: \<^verbatim>\<open>int.to_bytes(n, 'little')\<close>, \<^verbatim>\<open>bytes.hex()\<close>, \<^verbatim>\<open>binascii.unhexlify\<close>
  \<^verbatim>\<open>range\<close> and \<^verbatim>\<open>str\<close> of an integer. Each is followed by the facts the components
  need of it: lengths, the conditions under which it raises, and its inverse.
\<close>

section \<open>\<^verbatim>\<open>int.to_bytes(n, 'little')\<close>\<close>

text \<open>The \<open>n\<close> low-order base-256 digits of \<open>v\<close>, least significant first.\<close>

fun to_le :: "nat \<Rightarrow> int \<Rightarrow> bytes" where
  "to_le 0 v = []"
| "to_le (Suc n) v = word_of_int v # to_le n (v div 256)"

text \<open>
  \<^verbatim>\<open>v.to_bytes(n, 'little')\<close> with the default \<^verbatim>\<open>signed=False\<close>: a negative \<open>v\<close> and a
  \<open>v\<close> that does not fit \<open>n\<close> bytes both raise \<^verbatim>\<open>OverflowError\<close>.
\<close>

definition to_bytes :: "int \<Rightarrow> nat \<Rightarrow> bytes result" where
  "to_bytes v n =
     (if v < 0 then Raise OverflowError
      else if 256 ^ n \<le> v then Raise OverflowError
      else Ok (to_le n v))"

text \<open>\<^verbatim>\<open>int.from_bytes(bs, 'little')\<close>: not called by the program; the inverse of \<open>to_le\<close>.\<close>

fun from_le :: "bytes \<Rightarrow> int" where
  "from_le [] = 0"
| "from_le (b # bs) = uint b + 256 * from_le bs"

section \<open>\<^verbatim>\<open>bytes.hex()\<close> and \<^verbatim>\<open>binascii.unhexlify\<close>\<close>

definition hex_digit :: "nat \<Rightarrow> char" where
  "hex_digit d = ''0123456789abcdef'' ! d"

definition hex_byte :: "byte \<Rightarrow> string" where
  "hex_byte b = [hex_digit (unat b div 16), hex_digit (unat b mod 16)]"

definition bytes_hex :: "bytes \<Rightarrow> string" where
  "bytes_hex bs = concat (map hex_byte bs)"

text \<open>The value of a hexadecimal digit; \<^verbatim>\<open>unhexlify\<close> accepts both cases.\<close>

definition digit_val :: "char \<Rightarrow> nat option" where
  "digit_val c =
     (let n = of_char c :: nat in
      if 48 \<le> n \<and> n \<le> 57 then Some (n - 48)
      else if 97 \<le> n \<and> n \<le> 102 then Some (n - 87)
      else if 65 \<le> n \<and> n \<le> 70 then Some (n - 55)
      else None)"

fun unhex_pairs :: "string \<Rightarrow> bytes result" where
  "unhex_pairs (c # d # cs) =
     (case digit_val c of
        None \<Rightarrow> Raise (BinasciiError ''Non-hexadecimal digit found'')
      | Some h \<Rightarrow>
          (case digit_val d of
             None \<Rightarrow> Raise (BinasciiError ''Non-hexadecimal digit found'')
           | Some l \<Rightarrow> bind_res (unhex_pairs cs) (\<lambda>bs. Ok (of_nat (16 * h + l) # bs))))"
| "unhex_pairs cs = Ok []"

text \<open>
  \<^verbatim>\<open>binascii.unhexlify(s)\<close> on a \<^verbatim>\<open>str\<close>: a character outside ASCII is a
  \<^verbatim>\<open>ValueError\<close>, then an odd length and then a character that is no hexadecimal
  digit are a \<^verbatim>\<open>binascii.Error\<close>.
\<close>

definition unhexlify :: "string \<Rightarrow> bytes result" where
  "unhexlify s =
     (if \<exists>c \<in> set s. 128 \<le> (of_char c :: nat) then Raise ValueError
      else if odd (length s) then Raise (BinasciiError ''Odd-length string'')
      else unhex_pairs s)"

section \<open>\<^verbatim>\<open>range(a, b)\<close>\<close>

definition py_range :: "int \<Rightarrow> int \<Rightarrow> int list" where
  "py_range a b = [a..b - 1]"

section \<open>\<^verbatim>\<open>str(i)\<close> of an integer, as in an f-string\<close>

fun str_nat :: "nat \<Rightarrow> string" where
  "str_nat n =
     (if n < 10 then [''0123456789'' ! n]
      else str_nat (n div 10) @ [''0123456789'' ! (n mod 10)])"

declare str_nat.simps [simp del]

definition str_int :: "int \<Rightarrow> string" where
  "str_int i = (if i < 0 then CHR ''-'' # str_nat (nat (- i)) else str_nat (nat i))"

text \<open>
  A reader of decimal text, the inverse of \<^verbatim>\<open>str\<close>: an optional minus sign and then one
  digit or more, read from the left. It is a specification and models no line of the
  program.
\<close>

definition dec_val :: "char \<Rightarrow> nat option" where
  "dec_val c =
     (let n = (of_char c :: nat) in if 48 \<le> n \<and> n < 58 then Some (n - 48) else None)"

fun nat_of_digits :: "nat \<Rightarrow> string \<Rightarrow> nat option" where
  "nat_of_digits acc [] = Some acc"
| "nat_of_digits acc (c # cs) =
     (case dec_val c of None \<Rightarrow> None | Some d \<Rightarrow> nat_of_digits (10 * acc + d) cs)"

definition int_of_str :: "string \<Rightarrow> int option" where
  "int_of_str s =
     (if s = [] then None
      else if hd s = CHR ''-''
      then (if tl s = [] then None else map_option (\<lambda>n. - int n) (nat_of_digits 0 (tl s)))
      else map_option int (nat_of_digits 0 s))"

section \<open>Facts about \<open>to_bytes\<close>\<close>

lemma to_le_numeral:
  "to_le (numeral k) v = word_of_int v # to_le (pred_numeral k) (v div 256)"
  by (simp add: numeral_eq_Suc)

lemma length_to_le [simp, enc_length]: "length (to_le n v) = n"
  by (induction n arbitrary: v) simp_all

lemma from_le_nonneg [simp]: "0 \<le> from_le bs"
  by (induction bs) simp_all

lemma from_le_bound: "from_le bs < 256 ^ length bs"
proof (induction bs)
  case Nil
  show ?case by simp
next
  case (Cons b bs)
  have "uint b < 256"
    using uint_bounded [of b] by simp
  with Cons show ?case by simp
qed

lemma from_le_to_le:
  assumes "0 \<le> v" and "v < 256 ^ n"
  shows "from_le (to_le n v) = v"
  using assms
proof (induction n arbitrary: v)
  case 0
  then show ?case by simp
next
  case (Suc n)
  from Suc.prems have "0 \<le> v div 256" and "v div 256 < 256 ^ n"
    by (simp_all add: div_less_iff_less_mult)
  then have "from_le (to_le n (v div 256)) = v div 256"
    by (rule Suc.IH)
  then show ?case
    by (simp add: uint_word_of_int)
qed

lemma byte_of_digits: "(word_of_int (uint b + 256 * k) :: byte) = b"
proof -
  have "(word_of_int (uint b + 256 * k) :: byte) = word_of_int (uint b)"
    unfolding word_of_int_eq_iff by (simp add: take_bit_eq_mod)
  then show ?thesis
    by (simp only: word_of_int_uint)
qed

lemma to_le_from_le: "to_le (length bs) (from_le bs) = bs"
proof (induction bs)
  case Nil
  show ?case by simp
next
  case (Cons b bs)
  have "(uint b + 256 * from_le bs) div 256 = from_le bs"
    using uint_bounded [of b] by simp
  with Cons show ?case
    by (simp only: length_Cons from_le.simps to_le.simps byte_of_digits)
qed

lemma to_le_inj:
  assumes "0 \<le> v" "v < 256 ^ n" "0 \<le> w" "w < 256 ^ n" "to_le n v = to_le n w"
  shows "v = w"
proof -
  from assms(5) have "from_le (to_le n v) = from_le (to_le n w)"
    by simp
  with assms(1-4) show ?thesis
    by (simp add: from_le_to_le)
qed

lemma to_le_append: "to_le (m + n) v = to_le m v @ to_le n (v div 256 ^ m)"
proof (induction m arbitrary: v)
  case 0
  show ?case by simp
next
  case (Suc m)
  have "v div 256 div 256 ^ m = v div (256 * 256 ^ m)"
    by (simp add: zdiv_zmult2_eq)
  with Suc show ?case by simp
qed

lemma from_le_append: "from_le (as @ bs) = from_le as + 256 ^ length as * from_le bs"
  by (induction as) (simp_all add: algebra_simps)

lemma to_bytes_Ok_iff [res_simps]:
  "to_bytes v n = Ok bs \<longleftrightarrow> 0 \<le> v \<and> v < 256 ^ n \<and> bs = to_le n v"
  by (auto simp: to_bytes_def)

lemma to_bytes_Raise_iff [res_simps]:
  "to_bytes v n = Raise e \<longleftrightarrow> e = OverflowError \<and> (v < 0 \<or> 256 ^ n \<le> v)"
  by (auto simp: to_bytes_def)

lemma to_bytes_in_range: "0 \<le> v \<Longrightarrow> v < 256 ^ n \<Longrightarrow> to_bytes v n = Ok (to_le n v)"
  by (simp add: to_bytes_def)

lemma to_bytes_length: "to_bytes v n = Ok bs \<Longrightarrow> length bs = n"
  by (auto simp: res_simps)

section \<open>Facts about \<open>bytes_hex\<close> and \<open>unhexlify\<close>\<close>

lemma nibble_cases:
  assumes "d < (16::nat)"
  obtains "d = 0" | "d = 1" | "d = 2" | "d = 3" | "d = 4" | "d = 5" | "d = 6" | "d = 7"
    | "d = 8" | "d = 9" | "d = 10" | "d = 11" | "d = 12" | "d = 13" | "d = 14" | "d = 15"
  using assms by atomize_elim arith

lemma digit_val_hex_digit: "d < 16 \<Longrightarrow> digit_val (hex_digit d) = Some d"
  by (erule nibble_cases) (simp_all add: digit_val_def hex_digit_def)

lemma hex_digit_ascii: "d < 16 \<Longrightarrow> (of_char (hex_digit d) :: nat) < 128"
  by (erule nibble_cases) (simp_all add: hex_digit_def)

lemma digit_val_less: "digit_val c = Some d \<Longrightarrow> d < 16"
  by (auto simp: digit_val_def Let_def split: if_splits)

lemma length_hex_byte [simp]: "length (hex_byte b) = 2"
  by (simp add: hex_byte_def)

lemma length_bytes_hex [simp, enc_length]: "length (bytes_hex bs) = 2 * length bs"
  by (induction bs) (simp_all add: bytes_hex_def)

lemma bytes_hex_simps [simp]:
  "bytes_hex [] = []" "bytes_hex (b # bs) = hex_byte b @ bytes_hex bs"
  by (simp_all add: bytes_hex_def)

lemma bytes_hex_append: "bytes_hex (as @ bs) = bytes_hex as @ bytes_hex bs"
  by (simp add: bytes_hex_def)

lemma byte_of_nibbles: "(of_nat (16 * (unat b div 16) + unat b mod 16) :: byte) = b"
  by simp

lemma bytes_hex_ascii: "c \<in> set (bytes_hex bs) \<Longrightarrow> (of_char c :: nat) < 128"
proof (induction bs)
  case Nil
  then show ?case by simp
next
  case (Cons b bs)
  have "unat b div 16 < 16" "unat b mod 16 < 16"
    using unsigned_less [of b, where 'a = nat] by simp_all
  with Cons show ?case
    by (auto simp: hex_byte_def hex_digit_ascii)
qed

lemma unhex_pairs_bytes_hex: "unhex_pairs (bytes_hex bs) = Ok bs"
proof (induction bs)
  case Nil
  show ?case by simp
next
  case (Cons b bs)
  have "unat b div 16 < 16" "unat b mod 16 < 16"
    using unsigned_less [of b, where 'a = nat] by simp_all
  with Cons show ?case
    by (simp add: hex_byte_def digit_val_hex_digit)
qed

lemma unhexlify_bytes_hex: "unhexlify (bytes_hex bs) = Ok bs"
proof -
  have "\<not> (\<exists>c \<in> set (bytes_hex bs). 128 \<le> (of_char c :: nat))"
    using bytes_hex_ascii [of _ bs] by (auto simp: not_le)
  then show ?thesis
    by (simp add: unhexlify_def unhex_pairs_bytes_hex)
qed

lemma unhex_pairs_length: "unhex_pairs s = Ok bs \<Longrightarrow> length bs = length s div 2"
  by (induction s arbitrary: bs rule: unhex_pairs.induct)
    (auto simp: res_simps split: option.splits)

lemma unhexlify_length: "unhexlify s = Ok bs \<Longrightarrow> length s = 2 * length bs"
  by (auto simp: unhexlify_def dest!: unhex_pairs_length split: if_splits)

lemma unhex_pairs_Raise: "unhex_pairs s = Raise e \<Longrightarrow> \<exists>m. e = BinasciiError m"
  by (induction s rule: unhex_pairs.induct) (auto simp: res_simps split: option.splits)

lemma unhexlify_Raise:
  "unhexlify s = Raise e \<Longrightarrow> e = ValueError \<or> (\<exists>m. e = BinasciiError m)"
  by (auto simp: unhexlify_def dest: unhex_pairs_Raise split: if_splits)

lemma unhexlify_odd: "odd (length s) \<Longrightarrow> \<not> is_ok (unhexlify s)"
  by (simp add: unhexlify_def)

section \<open>Facts about \<open>str_int\<close>\<close>

lemma dec_val_digit: "d < 10 \<Longrightarrow> dec_val (''0123456789'' ! d) = Some d"
proof -
  assume "d < 10"
  then have "d \<in> {0, 1, 2, 3, 4, 5, 6, 7, 8, 9}"
    by auto
  then show ?thesis
    by (auto simp: dec_val_def)
qed

lemma dec_val_minus [simp]: "dec_val CHR ''-'' = None"
  by (simp add: dec_val_def)

lemma nat_of_digits_snoc:
  "nat_of_digits acc (cs @ [c]) =
     (case nat_of_digits acc cs of
        None \<Rightarrow> None
      | Some m \<Rightarrow> (case dec_val c of None \<Rightarrow> None | Some d \<Rightarrow> Some (10 * m + d)))"
  by (induction cs arbitrary: acc) (simp_all split: option.splits)

lemma nat_of_digits_str_nat [simp]: "nat_of_digits 0 (str_nat n) = Some n"
proof (induction n rule: str_nat.induct)
  case (1 n)
  show ?case
  proof (cases "n < 10")
    case True
    then show ?thesis
      by (subst str_nat.simps) (simp add: dec_val_digit)
  next
    case False
    with 1 show ?thesis
      by (subst str_nat.simps) (simp add: nat_of_digits_snoc dec_val_digit)
  qed
qed

lemma str_nat_not_Nil [simp]: "str_nat n \<noteq> []"
  by (subst str_nat.simps) simp

lemma str_nat_no_minus [simp]: "hd (str_nat n) \<noteq> CHR ''-''"
proof
  assume "hd (str_nat n) = CHR ''-''"
  then have "str_nat n = CHR ''-'' # tl (str_nat n)"
    by (metis str_nat_not_Nil list.collapse)
  then have "nat_of_digits 0 (str_nat n) = None"
    by (metis nat_of_digits.simps(2) dec_val_minus option.simps(4))
  then show False
    by simp
qed

text \<open>The text of an integer reads back as that integer, so \<^verbatim>\<open>str\<close> is injective.\<close>

lemma int_of_str_int [simp]: "int_of_str (str_int i) = Some i"
  by (simp add: int_of_str_def str_int_def)

lemma str_int_eq_iff [simp]: "str_int i = str_int j \<longleftrightarrow> i = j"
  by (metis int_of_str_int option.inject)

section \<open>Facts about \<open>py_range\<close>\<close>

lemma length_py_range [simp]: "length (py_range a b) = nat (b - a)"
  by (simp add: py_range_def)

lemma set_py_range [simp]: "set (py_range a b) = {a..<b}"
  by (auto simp: py_range_def)

lemma py_range_nth: "i < nat (b - a) \<Longrightarrow> py_range a b ! i = a + int i"
  by (simp add: py_range_def)

lemma py_range_empty [simp]: "b \<le> a \<Longrightarrow> py_range a b = []"
  by (simp add: py_range_def)

lemma py_range_rec: "a < b \<Longrightarrow> py_range a b = a # py_range (a + 1) b"
  by (simp add: py_range_def upto_rec1)

lemma sorted_py_range [simp]: "sorted (py_range a b)" "distinct (py_range a b)"
  by (simp_all add: py_range_def)

section \<open>The properties of the built-ins\<close>

text \<open>
  \<^verbatim>\<open>to_bytes\<close> writes a number that fits in \<open>n\<close> bytes as \<open>n\<close> bytes whose
  little-endian value is the number, and raises \<^verbatim>\<open>OverflowError\<close> on every other
  number.
\<close>

theorem to_bytes_correct:
  "(0 \<le> v \<and> v < 256 ^ n \<longrightarrow> (\<exists>bs. to_bytes v n = Ok bs \<and> length bs = n \<and> from_le bs = v))
   \<and> (v < 0 \<or> 256 ^ n \<le> v \<longrightarrow> to_bytes v n = Raise OverflowError)"
  by (auto simp: to_bytes_def from_le_to_le)

theorem to_bytes_correct_witness:
  "to_bytes 258 2 = Ok [2, 1] \<and> from_le [2, 1] = 258 \<and> to_bytes 65536 2 = Raise OverflowError"
  using to_bytes_correct [of 258 2] to_bytes_correct [of 65536 2]
  by (simp add: to_bytes_def to_le_numeral)

end
