(* ===== verification/Pulse_Validator.thy ===== *)
theory Pulse_Validator
  imports Py_Builtins
begin

text \<open>
  The pulse validator \<^verbatim>\<open>try_into_pulse\<close> of \<^verbatim>\<open>src/ocw.py\<close> (lines 40-51): the parsed
  beacon response as a JSON value, the pulse it is turned into, the exceptions of every
  failing step in the order the code takes them, and the properties of a pulse that has
  passed.
\<close>

section \<open>Beacon responses and pulses\<close>

text \<open>
  A response is what the JSON parser returns: any JSON value, an object when the beacon
  answers as it should. Which kind of value a field has is not fixed, since the code
  does not fix it either. The values are those of Python: an integer, a string, \<^verbatim>\<open>None\<close>,
  a list, a dictionary. A JSON boolean is the integer 1 or 0, as it is for every
  operation the program applies to a field; numbers with a fraction or an exponent are
  left out.
\<close>

datatype jval =
    JInt int
  | JStr string
  | JNull
  | JArray "jval list"
  | JObject "string \<rightharpoonup> jval"

type_synonym drand_resp = jval

text \<open>The member \<open>k\<close> of a response, if the response is an object that has one.\<close>

definition field_of :: "drand_resp \<Rightarrow> string \<Rightarrow> jval option" where
  "field_of d k = (case d of JObject m \<Rightarrow> m k | _ \<Rightarrow> None)"

text \<open>
  The dictionary \<^verbatim>\<open>try_into_pulse\<close> returns. The round is the JSON value as it came;
  the two byte strings are decoded.
\<close>

record pulse =
  round_num :: jval
  randomness :: bytes
  signature :: bytes

section \<open>Dictionary access and type dispatch\<close>

text \<open>
  \<^verbatim>\<open>d[k]\<close> for a string \<open>k\<close>: on a dictionary a missing key is a \<^verbatim>\<open>KeyError\<close>; a list
  and a string take no string as index, and an integer and \<^verbatim>\<open>None\<close> take no index at
  all, which is a \<^verbatim>\<open>TypeError\<close> in each case.
\<close>

definition getitem :: "drand_resp \<Rightarrow> string \<Rightarrow> jval result" where
  "getitem d k =
     (case d of
        JObject m \<Rightarrow> (case m k of None \<Rightarrow> Raise (KeyError k) | Some v \<Rightarrow> Ok v)
      | _ \<Rightarrow> Raise TypeError)"

text \<open>Whether a JSON value is an integer.\<close>

fun is_integer :: "jval \<Rightarrow> bool" where
  "is_integer (JInt v) = True"
| "is_integer _ = False"

text \<open>\<^verbatim>\<open>binascii.unhexlify(x)\<close> on a JSON value: anything but a string is a \<^verbatim>\<open>TypeError\<close>.\<close>

definition unhexlify_jval :: "jval \<Rightarrow> bytes result" where
  "unhexlify_jval x = (case x of JStr s \<Rightarrow> unhexlify s | _ \<Rightarrow> Raise TypeError)"

section \<open>The validator\<close>

definition try_into_pulse :: "drand_resp \<Rightarrow> pulse result" where
  "try_into_pulse drand_resp =
     bind_res (getitem drand_resp ''round'') (\<lambda>round_num.
     bind_res (bind_res (getitem drand_resp ''randomness'') unhexlify_jval) (\<lambda>randomness.
     bind_res (bind_res (getitem drand_resp ''signature'') unhexlify_jval) (\<lambda>signature.
       if length randomness \<noteq> 32 then Raise (Exception ''Randomness is not 32 bytes'')
       else Ok \<lparr>round_num = round_num, randomness = randomness, signature = signature\<rparr>)))"

section \<open>The response a pulse comes from\<close>

text \<open>
  The beacon's representation of a pulse: the round as it is, the byte strings in
  lower-case hexadecimal. A specification, used to state the round trip.
\<close>

definition resp_of_pulse :: "pulse \<Rightarrow> drand_resp" where
  "resp_of_pulse p =
     JObject [''round'' \<mapsto> round_num p,
              ''randomness'' \<mapsto> JStr (bytes_hex (randomness p)),
              ''signature'' \<mapsto> JStr (bytes_hex (signature p))]"

text \<open>A response for the witnesses: round 10, the given randomness, an empty signature.\<close>

definition ex_resp :: "string \<Rightarrow> drand_resp" where
  "ex_resp r =
     JObject [''round'' \<mapsto> JInt 10, ''randomness'' \<mapsto> JStr r, ''signature'' \<mapsto> JStr []]"

section \<open>Facts about the helpers\<close>

lemma field_of_simps [simp]:
  "field_of (JObject m) k = m k" "field_of (JInt i) k = None" "field_of (JStr s) k = None"
  "field_of JNull k = None" "field_of (JArray xs) k = None"
  by (simp_all add: field_of_def)

lemma field_of_SomeD: "field_of d k = Some v \<Longrightarrow> \<exists>m. d = JObject m \<and> m k = Some v"
  by (cases d) simp_all

lemma is_integer_iff: "is_integer x \<longleftrightarrow> (\<exists>v. x = JInt v)"
  by (cases x) simp_all

lemma getitem_object [simp]:
  "getitem (JObject m) k = (case m k of None \<Rightarrow> Raise (KeyError k) | Some v \<Rightarrow> Ok v)"
  by (simp add: getitem_def)

lemma getitem_Ok_iff [res_simps]: "getitem d k = Ok v \<longleftrightarrow> field_of d k = Some v"
  by (cases d) (simp_all add: getitem_def split: option.splits)

lemma getitem_Raise_iff [res_simps]:
  "getitem d k = Raise e \<longleftrightarrow>
     (case d of JObject m \<Rightarrow> m k = None \<and> e = KeyError k | _ \<Rightarrow> e = TypeError)"
  by (cases d) (auto simp: getitem_def split: option.splits)

lemma getitem_no_object:
  "\<forall>m. d \<noteq> JObject m \<Longrightarrow> getitem d k = Raise TypeError"
  by (cases d) (simp_all add: getitem_def)

lemma unhexlify_jval_Ok_iff [res_simps]:
  "unhexlify_jval x = Ok bs \<longleftrightarrow> (\<exists>s. x = JStr s \<and> unhexlify s = Ok bs)"
  by (cases x) (simp_all add: unhexlify_jval_def)

lemma unhexlify_jval_simps [simp]:
  "unhexlify_jval (JStr s) = unhexlify s" "unhexlify_jval (JInt i) = Raise TypeError"
  "unhexlify_jval JNull = Raise TypeError" "unhexlify_jval (JArray xs) = Raise TypeError"
  "unhexlify_jval (JObject m) = Raise TypeError"
  by (simp_all add: unhexlify_jval_def)

lemma resp_of_pulse_simps [simp]:
  "field_of (resp_of_pulse p) ''round'' = Some (round_num p)"
  "field_of (resp_of_pulse p) ''randomness'' = Some (JStr (bytes_hex (randomness p)))"
  "field_of (resp_of_pulse p) ''signature'' = Some (JStr (bytes_hex (signature p)))"
  by (simp_all add: resp_of_pulse_def)

section \<open>When the validator succeeds\<close>

lemma try_into_pulse_Ok_iff:
  "try_into_pulse d = Ok p \<longleftrightarrow>
     (\<exists>r s. field_of d ''round'' = Some (round_num p)
        \<and> field_of d ''randomness'' = Some (JStr r) \<and> unhexlify r = Ok (randomness p)
        \<and> field_of d ''signature'' = Some (JStr s) \<and> unhexlify s = Ok (signature p)
        \<and> length (randomness p) = 32)"
  by (cases p) (auto simp: try_into_pulse_def res_simps)

lemma try_into_pulse_length: "try_into_pulse d = Ok p \<Longrightarrow> length (randomness p) = 32"
  by (auto simp: try_into_pulse_Ok_iff)

lemma try_into_pulse_round: "try_into_pulse d = Ok p \<Longrightarrow> field_of d ''round'' = Some (round_num p)"
  by (auto simp: try_into_pulse_Ok_iff)

lemma try_into_pulse_resp_of_pulse:
  "try_into_pulse (resp_of_pulse p) =
     (if length (randomness p) = 32 then Ok p
      else Raise (Exception ''Randomness is not 32 bytes''))"
  by (simp add: try_into_pulse_def resp_of_pulse_def unhexlify_bytes_hex)

section \<open>When the validator raises\<close>

text \<open>A body that is JSON but no object fails at the first lookup, line 41.\<close>

lemma try_into_pulse_no_object:
  "\<forall>m. d \<noteq> JObject m \<Longrightarrow> try_into_pulse d = Raise TypeError"
  by (simp add: try_into_pulse_def getitem_no_object)

lemma try_into_pulse_no_round:
  "m ''round'' = None \<Longrightarrow> try_into_pulse (JObject m) = Raise (KeyError ''round'')"
  by (simp add: try_into_pulse_def)

lemma try_into_pulse_missing:
  assumes "k \<in> {''round'', ''randomness'', ''signature''}" and "field_of d k = None"
  shows "\<not> is_ok (try_into_pulse d)"
  using assms by (auto simp: res_simps try_into_pulse_Ok_iff)

lemma try_into_pulse_wrong_length:
  assumes "field_of d ''round'' = Some n"
    and "field_of d ''randomness'' = Some (JStr r)" and "unhexlify r = Ok rb"
    and "field_of d ''signature'' = Some (JStr s)" and "unhexlify s = Ok sb"
    and "length rb \<noteq> 32"
  shows "try_into_pulse d = Raise (Exception ''Randomness is not 32 bytes'')"
proof -
  from field_of_SomeD [OF assms(1)] obtain m where "d = JObject m"
    by blast
  with assms show ?thesis
    by (simp add: try_into_pulse_def)
qed

lemma unhexlify_jval_Raise_iff:
  "unhexlify_jval x = Raise e \<longleftrightarrow>
     (\<forall>s. x \<noteq> JStr s) \<and> e = TypeError \<or> (\<exists>s. x = JStr s \<and> unhexlify s = Raise e)"
  by (cases x) auto

text \<open>What a hexadecimal field that does not decode leads to.\<close>

lemma hex_field_Raise:
  assumes "unhexlify_jval v = Raise e" and "field_of d k = Some v"
    and "k \<in> {''randomness'', ''signature''}"
  shows "e = TypeError \<and> (\<exists>k v. k \<in> {''randomness'', ''signature''} \<and> field_of d k = Some v
            \<and> (\<forall>s. v \<noteq> JStr s))
       \<or> (e = ValueError \<or> (\<exists>m. e = BinasciiError m))
           \<and> (\<exists>k s. k \<in> {''randomness'', ''signature''} \<and> field_of d k = Some (JStr s)
                \<and> unhexlify s = Raise e)"
  using assms unhexlify_Raise [of _ e] by (auto simp: unhexlify_jval_Raise_iff)

text \<open>The validator on an object, step by step in the order of the code.\<close>

lemma try_into_pulse_object:
  "try_into_pulse (JObject m) =
     (case m ''round'' of
        None \<Rightarrow> Raise (KeyError ''round'')
      | Some n \<Rightarrow>
          (case m ''randomness'' of
             None \<Rightarrow> Raise (KeyError ''randomness'')
           | Some v \<Rightarrow>
               (case unhexlify_jval v of
                  Inl e \<Rightarrow> Raise e
                | Inr rb \<Rightarrow>
                    (case m ''signature'' of
                       None \<Rightarrow> Raise (KeyError ''signature'')
                     | Some u \<Rightarrow>
                         (case unhexlify_jval u of
                            Inl e \<Rightarrow> Raise e
                          | Inr sb \<Rightarrow>
                              if length rb \<noteq> 32
                              then Raise (Exception ''Randomness is not 32 bytes'')
                              else Ok \<lparr>round_num = n, randomness = rb, signature = sb\<rparr>)))))"
  by (simp add: try_into_pulse_def split: option.splits sum.splits)

lemma missing_field:
  assumes "d = JObject m" and "m k = None" and "k \<in> {''round'', ''randomness'', ''signature''}"
  shows "\<exists>k' m'. KeyError k = KeyError k' \<and> d = JObject m' \<and> m' k' = None
            \<and> k' \<in> {''round'', ''randomness'', ''signature''}"
  using assms by blast

text \<open>The four ways in which the validator raises on an object.\<close>

lemma try_into_pulse_object_Raise [consumes 1, case_names key randomness signature length]:
  assumes "try_into_pulse (JObject m) = Raise e"
  obtains (key) k where "k \<in> {''round'', ''randomness'', ''signature''}" "m k = None"
      "e = KeyError k"
    | (randomness) v where "m ''randomness'' = Some v" "unhexlify_jval v = Raise e"
    | (signature) u where "m ''signature'' = Some u" "unhexlify_jval u = Raise e"
    | (length) v rb u sb where "m ''randomness'' = Some v" "unhexlify_jval v = Ok rb"
        "m ''signature'' = Some u" "unhexlify_jval u = Ok sb"
        "length rb \<noteq> 32" "e = Exception ''Randomness is not 32 bytes''"
  using assms unfolding try_into_pulse_object
  by (auto split: option.splits sum.splits if_splits)

lemma try_into_pulse_Raise_cases:
  assumes "try_into_pulse d = Raise e"
  shows "(\<exists>k m. e = KeyError k \<and> d = JObject m \<and> m k = None
            \<and> k \<in> {''round'', ''randomness'', ''signature''})
       \<or> e = TypeError \<and> ((\<forall>m. d \<noteq> JObject m)
            \<or> (\<exists>k v. k \<in> {''randomness'', ''signature''} \<and> field_of d k = Some v
                  \<and> (\<forall>s. v \<noteq> JStr s)))
       \<or> (e = ValueError \<or> (\<exists>m. e = BinasciiError m))
           \<and> (\<exists>k s. k \<in> {''randomness'', ''signature''} \<and> field_of d k = Some (JStr s)
                \<and> unhexlify s = Raise e)
       \<or> e = Exception ''Randomness is not 32 bytes''
           \<and> (\<exists>r rb s sb. field_of d ''randomness'' = Some (JStr r) \<and> unhexlify r = Ok rb
                \<and> field_of d ''signature'' = Some (JStr s) \<and> unhexlify s = Ok sb
                \<and> length rb \<noteq> 32)"
  (is "?K \<or> ?T \<or> ?V \<or> ?L")
proof (cases "\<forall>m. d \<noteq> JObject m")
  case True
  with assms have ?T
    by (simp add: try_into_pulse_no_object)
  then show ?thesis
    by (intro disjI2 disjI1)
next
  case False
  then obtain m where d: "d = JObject m"
    by blast
  note hex = hex_field_Raise [of _ e d]
  from assms [unfolded d] show ?thesis
  proof (cases rule: try_into_pulse_object_Raise)
    case (key k)
    with d missing_field [of d m k] have ?K
      by simp
    then show ?thesis ..
  next
    case (randomness v)
    with d have "unhexlify_jval v = Raise e" "field_of d ''randomness'' = Some v"
      by simp_all
    from hex [OF this] show ?thesis
      by blast
  next
    case (signature u)
    with d have "unhexlify_jval u = Raise e" "field_of d ''signature'' = Some u"
      by simp_all
    from hex [OF this] show ?thesis
      by blast
  next
    case length
    with d have ?L
      by (auto simp: res_simps)
    then show ?thesis
      by (intro disjI2)
  qed
qed

section \<open>The properties of the validator\<close>

text \<open>
  C16. A pulse that \<^verbatim>\<open>try_into_pulse\<close> returns has exactly 32 bytes of randomness; its
  round is the response's round, and its byte strings are the decoded hexadecimal
  fields of the response.
\<close>

theorem try_into_pulse_valid:
  assumes "try_into_pulse d = Ok p"
  shows "length (randomness p) = 32 \<and> field_of d ''round'' = Some (round_num p)
       \<and> (\<exists>r. field_of d ''randomness'' = Some (JStr r) \<and> unhexlify r = Ok (randomness p))
       \<and> (\<exists>s. field_of d ''signature'' = Some (JStr s) \<and> unhexlify s = Ok (signature p))"
  using assms by (auto simp: try_into_pulse_Ok_iff)

theorem try_into_pulse_valid_witness:
  "try_into_pulse (resp_of_pulse \<lparr>round_num = JInt 10, randomness = replicate 32 7, signature = [1]\<rparr>)
     = Ok \<lparr>round_num = JInt 10, randomness = replicate 32 7, signature = [1]\<rparr>
   \<and> length (randomness \<lparr>round_num = JInt 10, randomness = replicate 32 7, signature = [1]\<rparr>) = 32"
proof -
  let ?p = "\<lparr>round_num = JInt 10, randomness = replicate 32 7, signature = [1]\<rparr>"
  have ok: "try_into_pulse (resp_of_pulse ?p) = Ok ?p"
    by (simp add: try_into_pulse_resp_of_pulse)
  with try_into_pulse_valid [OF ok] show ?thesis
    by blast
qed

text \<open>
  C30. A pulse with 32 bytes of randomness survives the trip through the beacon's
  representation: validating the response that carries it in hexadecimal returns the
  pulse unchanged.
\<close>

theorem try_into_pulse_roundtrip:
  assumes "length (randomness p) = 32"
  shows "try_into_pulse (resp_of_pulse p) = Ok p"
  using assms by (simp add: try_into_pulse_resp_of_pulse)

theorem try_into_pulse_roundtrip_witness:
  "try_into_pulse (resp_of_pulse \<lparr>round_num = JInt 3, randomness = replicate 32 0xFF, signature = [0, 1]\<rparr>)
     = Ok \<lparr>round_num = JInt 3, randomness = replicate 32 0xFF, signature = [0, 1]\<rparr>"
  using try_into_pulse_roundtrip
    [of "\<lparr>round_num = JInt 3, randomness = replicate 32 0xFF, signature = [0, 1]\<rparr>"]
  by simp

text \<open>
  Randomness that decodes to any number of bytes other than 32 is refused with
  the exception \<^verbatim>\<open>Randomness is not 32 bytes\<close>, provided the other fields are present
  and decode.
\<close>

theorem try_into_pulse_not_32:
  assumes "field_of d ''round'' = Some n"
    and "field_of d ''randomness'' = Some (JStr r)" and "unhexlify r = Ok rb"
    and "field_of d ''signature'' = Some (JStr s)" and "unhexlify s = Ok sb"
    and "length rb \<noteq> 32"
  shows "try_into_pulse d = Raise (Exception ''Randomness is not 32 bytes'')"
  using assms by (rule try_into_pulse_wrong_length)

theorem try_into_pulse_not_32_witness:
  "try_into_pulse (ex_resp ''abcd'') = Raise (Exception ''Randomness is not 32 bytes'')"
proof -
  have "unhexlify ''abcd'' = Ok [0xAB, 0xCD]" "unhexlify [] = Ok []"
    by (simp_all add: unhexlify_def digit_val_def)
  then show ?thesis
    using try_into_pulse_not_32 [of "ex_resp ''abcd''" "JInt 10" "''abcd''" "[0xAB, 0xCD]" "[]" "[]"]
    by (simp add: ex_resp_def)
qed

text \<open>
  C31. The exceptions of \<^verbatim>\<open>try_into_pulse\<close>, each with its cause: a \<^verbatim>\<open>KeyError\<close> only
  for a field that is missing from an object; a \<^verbatim>\<open>TypeError\<close> only for a response that
  is no object or a hexadecimal field that is no string; a \<^verbatim>\<open>ValueError\<close> or a
  \<^verbatim>\<open>binascii.Error\<close> only as the exception of \<^verbatim>\<open>unhexlify\<close> on the text of one of
  the two hexadecimal fields; the exception of line 45 only when both fields decode and
  the randomness has not 32 bytes; nothing else.
\<close>

theorem try_into_pulse_raises:
  assumes "try_into_pulse d = Raise e"
  shows "(\<exists>k m. e = KeyError k \<and> d = JObject m \<and> m k = None
            \<and> k \<in> {''round'', ''randomness'', ''signature''})
       \<or> e = TypeError \<and> ((\<forall>m. d \<noteq> JObject m)
            \<or> (\<exists>k v. k \<in> {''randomness'', ''signature''} \<and> field_of d k = Some v
                  \<and> (\<forall>s. v \<noteq> JStr s)))
       \<or> (e = ValueError \<or> (\<exists>m. e = BinasciiError m))
           \<and> (\<exists>k s. k \<in> {''randomness'', ''signature''} \<and> field_of d k = Some (JStr s)
                \<and> unhexlify s = Raise e)
       \<or> e = Exception ''Randomness is not 32 bytes''
           \<and> (\<exists>r rb s sb. field_of d ''randomness'' = Some (JStr r) \<and> unhexlify r = Ok rb
                \<and> field_of d ''signature'' = Some (JStr s) \<and> unhexlify s = Ok sb
                \<and> length rb \<noteq> 32)"
  using assms by (rule try_into_pulse_Raise_cases)

theorem try_into_pulse_raises_witness:
  "try_into_pulse (ex_resp ''xyz'') = Raise (BinasciiError ''Odd-length string'')"
proof -
  have r: "try_into_pulse (ex_resp ''xyz'') = Raise (BinasciiError ''Odd-length string'')"
    by (simp add: try_into_pulse_def ex_resp_def unhexlify_def)
  with try_into_pulse_raises [OF r] show ?thesis
    by simp
qed

end
