(* ===== verification/Submission_Gate.thy ===== *)
theory Submission_Gate
  imports Py_Builtins Pulse_Validator
begin

text \<open>
  The submission gate of \<^verbatim>\<open>src/ocw.py\<close>: the decision inside \<^verbatim>\<open>submit_new_pulses\<close>
  (lines 96-122) whether to fetch and which rounds, as the pure functions of the block
  number, the two values read from the chain and the latest round that the code
  computes: the default of a query, the bootstrap rule, the cap and the range of the
  loop. The queries themselves and the order of the tests are in the cycle. Beside
  them is the decision as section 4.5 of the specification states it (\<open>gate_decision\<close>),
  with the lemma that the functions of the code compute it (\<open>gate_decision_code\<close>) and
  the examples of the specification (\<open>gate_decision_vectors\<close>).
\<close>

section \<open>The decision\<close>

definition MAX_PULSES_TO_FETCH :: int where
  "MAX_PULSES_TO_FETCH = 50"

text \<open>\<^verbatim>\<open>x or 0\<close> for \<^verbatim>\<open>x\<close> an integer or \<^verbatim>\<open>None\<close>: \<^verbatim>\<open>None\<close> and 0 give 0.\<close>

definition or_0 :: "int option \<Rightarrow> int" where
  "or_0 x = (case x of None \<Rightarrow> 0 | Some v \<Rightarrow> if v = 0 then 0 else v)"

text \<open>Arithmetic and comparison on the round of the latest pulse: anything but an integer is a
  \<^verbatim>\<open>TypeError\<close>.\<close>

definition int_of_jval :: "jval \<Rightarrow> int result" where
  "int_of_jval x = (case x of JInt v \<Rightarrow> Ok v | _ \<Rightarrow> Raise TypeError)"

text \<open>Lines 113-114: nothing stored yet is taken for one round behind the latest.\<close>

definition bootstrap :: "int \<Rightarrow> int \<Rightarrow> int" where
  "bootstrap last_stored_round current_round =
     (if last_stored_round = 0 then current_round - 1 else last_stored_round)"

text \<open>Line 120.\<close>

definition rounds_to_fetch_of :: "int \<Rightarrow> int \<Rightarrow> int" where
  "rounds_to_fetch_of current_round last_stored_round =
     min (current_round - last_stored_round) MAX_PULSES_TO_FETCH"

text \<open>The rounds of the loop of line 122.\<close>

definition target_rounds :: "int \<Rightarrow> int \<Rightarrow> int list" where
  "target_rounds last_stored_round rounds_to_fetch =
     py_range (last_stored_round + 1) (last_stored_round + 1 + rounds_to_fetch)"

section \<open>The decision of the specification\<close>

text \<open>
  Section 4.5 of the specification states the gate as a decision over the block number,
  the two values of the chain and the latest round: below the threshold, no gap, or
  eligible with the range of target rounds, the stored round 0 being taken for the round
  before the latest. It is a specification and models no line of the program.
\<close>

datatype decision = Below_threshold | No_gap | Eligible "int list"

definition gate_decision :: "int \<Rightarrow> int \<Rightarrow> int \<Rightarrow> int \<Rightarrow> decision" where
  "gate_decision current_block next_unsigned_at last_stored_round latest_round =
     (if current_block < next_unsigned_at then Below_threshold
      else
        let last = (if last_stored_round = 0 then latest_round - 1 else last_stored_round) in
        if latest_round \<le> last then No_gap
        else Eligible [last + 1..last + min (latest_round - last) 50])"

section \<open>Facts about the decision\<close>

lemma or_0_simps [simp]: "or_0 None = 0" "or_0 (Some v) = v"
  by (simp_all add: or_0_def)

lemma bootstrap_simps [simp]:
  "bootstrap 0 current_round = current_round - 1"
  "last_stored_round \<noteq> 0 \<Longrightarrow> bootstrap last_stored_round current_round = last_stored_round"
  by (simp_all add: bootstrap_def)

lemma rounds_to_fetch_of_bounds:
  assumes "last_stored_round < current_round"
  shows "1 \<le> rounds_to_fetch_of current_round last_stored_round"
    and "rounds_to_fetch_of current_round last_stored_round \<le> MAX_PULSES_TO_FETCH"
    and "last_stored_round + rounds_to_fetch_of current_round last_stored_round \<le> current_round"
  using assms by (simp_all add: rounds_to_fetch_of_def MAX_PULSES_TO_FETCH_def)

lemma target_rounds_upto: "target_rounds l n = [l + 1..l + n]"
  by (simp add: target_rounds_def py_range_def)

lemma length_target_rounds [simp]: "length (target_rounds l n) = nat n"
  by (simp add: target_rounds_upto)

lemma target_rounds_nth: "i < nat n \<Longrightarrow> target_rounds l n ! i = l + 1 + int i"
  by (simp add: target_rounds_upto)

lemma target_rounds_bootstrap:
  "target_rounds (bootstrap 0 c) (rounds_to_fetch_of c (bootstrap 0 c)) = [c]"
  by (simp add: target_rounds_upto rounds_to_fetch_of_def MAX_PULSES_TO_FETCH_def)

text \<open>The functions of the code compute the decision of the specification.\<close>

lemma gate_decision_code:
  "gate_decision b nua lsr c =
     (if b < nua then Below_threshold
      else if c \<le> bootstrap lsr c then No_gap
      else Eligible (target_rounds (bootstrap lsr c) (rounds_to_fetch_of c (bootstrap lsr c))))"
  by (simp add: gate_decision_def bootstrap_def rounds_to_fetch_of_def MAX_PULSES_TO_FETCH_def
      target_rounds_upto Let_def)

lemma target_rounds_hd:
  assumes "l < c"
  shows "hd (target_rounds l (rounds_to_fetch_of c l)) - 1 = l"
    and "int (length (target_rounds l (rounds_to_fetch_of c l))) = rounds_to_fetch_of c l"
    and "target_rounds l (rounds_to_fetch_of c l) \<noteq> []"
  using rounds_to_fetch_of_bounds [OF assms]
  by (simp_all add: target_rounds_upto upto_rec1)

text \<open>The examples of section 8 of the specification.\<close>

lemma gate_decision_vectors:
  "gate_decision 5 10 lsr c = Below_threshold"
  "gate_decision 5 0 100 100 = No_gap"
  "gate_decision 5 0 100 200 = Eligible [101..150]"
  "gate_decision 5 0 0 42 = Eligible [42]"
  by (simp_all add: gate_decision_def)

text \<open>The decision of the end-to-end example: round 9 stored, round 12 the latest.\<close>

lemma ex_cycle_gate:
  "bootstrap (or_0 (Some 9)) 12 = 9" "rounds_to_fetch_of 12 9 = 3" "target_rounds 9 3 = [10, 11, 12]"
  by (simp_all add: rounds_to_fetch_of_def MAX_PULSES_TO_FETCH_def target_rounds_upto)

section \<open>The properties of the gate\<close>

text \<open>
  C11. The target rounds. When the last stored round \<open>l\<close> is below the latest round \<open>c\<close>,
  the loop asks for the rounds from \<open>l + 1\<close> up to \<open>l + 50\<close> or up to \<open>c\<close>, whichever is
  less: consecutive, ascending, at least one and at most 50 of them, and none beyond the
  latest.
\<close>

theorem target_rounds_range:
  assumes "l < c"
  shows "target_rounds l (rounds_to_fetch_of c l) = [l + 1..min c (l + MAX_PULSES_TO_FETCH)]
    \<and> 1 \<le> length (target_rounds l (rounds_to_fetch_of c l))
    \<and> length (target_rounds l (rounds_to_fetch_of c l)) \<le> 50"
proof (intro conjI)
  have "l + rounds_to_fetch_of c l = min c (l + MAX_PULSES_TO_FETCH)"
    by (simp add: rounds_to_fetch_of_def)
  then show "target_rounds l (rounds_to_fetch_of c l) = [l + 1..min c (l + MAX_PULSES_TO_FETCH)]"
    by (simp add: target_rounds_upto)
  from assms show "1 \<le> length (target_rounds l (rounds_to_fetch_of c l))"
    by (simp add: rounds_to_fetch_of_def MAX_PULSES_TO_FETCH_def)
  show "length (target_rounds l (rounds_to_fetch_of c l)) \<le> 50"
    by (simp add: rounds_to_fetch_of_def MAX_PULSES_TO_FETCH_def)
qed

theorem target_rounds_range_witness:
  "rounds_to_fetch_of 200 100 = 50 \<and> target_rounds 100 (rounds_to_fetch_of 200 100) = [101..150]"
  using target_rounds_range [of 100 200]
  by (simp add: rounds_to_fetch_of_def MAX_PULSES_TO_FETCH_def)

text \<open>
  The first run. When no round is stored (\<open>last_stored_round = 0\<close>), the gate always
  finds a gap, of exactly one round, and the loop asks for the latest round only,
  whatever the latest round is.
\<close>

theorem bootstrap_targets_latest:
  "\<not> c \<le> bootstrap 0 c
   \<and> target_rounds (bootstrap 0 c) (rounds_to_fetch_of c (bootstrap 0 c)) = [c]"
  using target_rounds_bootstrap [of c] by simp

end
