(* ===== verification/Endpoint_Fetcher.thy ===== *)
theory Endpoint_Fetcher
  imports Pulse_Validator
begin

text \<open>
  The endpoint fetcher of \<^verbatim>\<open>src/ocw.py\<close>: the constants of lines 7-16,
  \<^verbatim>\<open>fetch_drand_by_round\<close>, \<^verbatim>\<open>fetch_drand_latest\<close> (lines 18-24) and
  \<^verbatim>\<open>fetch_from_any_endpoint\<close> (lines 26-38). The network and the clock are the
  world the functions run in: a record that is passed through and returned changed.
  The lemmas show which requests a fetch makes and in which order, whose answer it
  returns, when it raises, and how long it can take; \<open>net_cost\<close> states the cost of a
  computation in fetches so that the costs of a sequence add up.
\<close>

section \<open>Configuration\<close>

definition CHAIN_HASH :: string where
  "CHAIN_HASH = ''52db9ba70e0cc0f6eaf7803dd07447a1f5477735fd3f661792ba94600c84e971''"

definition DRAND_ENDPOINTS :: "string list" where
  "DRAND_ENDPOINTS =
     [''https://api.drand.sh'',
      ''https://api2.drand.sh'',
      ''https://api3.drand.sh'',
      ''https://drand.cloudflare.com'',
      ''https://api.drand.secureweb3.com:6875'']"

text \<open>Milliseconds, as in the source; the clock of the model counts milliseconds too.\<close>

definition HTTP_FETCH_TIMEOUT :: int where
  "HTTP_FETCH_TIMEOUT = 10000"

section \<open>The network and the clock\<close>

text \<open>
  What \<^verbatim>\<open>requests.get\<close> followed by \<^verbatim>\<open>response.json()\<close> can come to: an exception of
  the transport, or a response with a status code and a body that is a JSON value or
  is not JSON at all (\<open>None\<close>).
\<close>

datatype http_outcome = RequestException | Response int "drand_resp option"

text \<open>
  The world as far as the fetcher touches it. \<open>now\<close> is the clock. \<open>http n uri\<close> is
  what the network answers to the request for \<open>uri\<close> when \<open>n\<close> requests have been made
  before, with the time the request takes; it is a parameter of the model, nothing is
  assumed of it. \<open>requests\<close> records the requests made, oldest first; the program does
  not keep such a record, the model does so that theorems can speak of it.
\<close>

record net_world =
  now :: int
  http :: "nat \<Rightarrow> string \<Rightarrow> http_outcome \<times> int"
  requests :: "string list"

text \<open>\<^verbatim>\<open>requests.get(uri, timeout=...)\<close>: the answer, the clock advanced, the request recorded.\<close>

definition requests_get :: "string \<Rightarrow> 'a net_world_scheme \<Rightarrow> http_outcome \<times> 'a net_world_scheme" where
  "requests_get uri w =
     (let (outcome, duration) = http w (length (requests w)) uri
      in (outcome, w\<lparr>now := now w + duration, requests := requests w @ [uri]\<rparr>))"

section \<open>The fetcher\<close>

text \<open>
  The body of the \<^verbatim>\<open>for\<close> loop (lines 28-37) and what follows it (line 38). A status
  200 with a JSON body returns at once. An exception of the transport, another status
  and a body that is not JSON (in which case \<^verbatim>\<open>response.json()\<close> raises inside the
  \<^verbatim>\<open>try\<close>, an exception of the class that is caught) go on to the check of the
  deadline; a passed deadline and an exhausted list both end in the \<^verbatim>\<open>raise\<close>.
\<close>

fun fetch_loop ::
  "int \<Rightarrow> string \<Rightarrow> string list \<Rightarrow> 'a net_world_scheme \<Rightarrow> drand_resp result \<times> 'a net_world_scheme"
where
  "fetch_loop deadline relative_path [] w =
     (Raise (Exception ''No valid response from any Drand endpoint''), w)"
| "fetch_loop deadline relative_path (endpoint # endpoints) w =
     (let uri = endpoint @ relative_path;
          (response, w') = requests_get uri w
      in case response of
           Response status_code (Some body) \<Rightarrow>
             if status_code = 200 then (Ok body, w')
             else if now w' > deadline
               then (Raise (Exception ''No valid response from any Drand endpoint''), w')
               else fetch_loop deadline relative_path endpoints w'
         | _ \<Rightarrow>
             if now w' > deadline
               then (Raise (Exception ''No valid response from any Drand endpoint''), w')
               else fetch_loop deadline relative_path endpoints w')"

definition fetch_from_any_endpoint ::
  "string \<Rightarrow> 'a net_world_scheme \<Rightarrow> drand_resp result \<times> 'a net_world_scheme" where
  "fetch_from_any_endpoint relative_path w =
     (let deadline = now w + HTTP_FETCH_TIMEOUT
      in fetch_loop deadline relative_path DRAND_ENDPOINTS w)"

definition fetch_drand_by_round ::
  "int \<Rightarrow> 'a net_world_scheme \<Rightarrow> drand_resp result \<times> 'a net_world_scheme" where
  "fetch_drand_by_round round_no w =
     (let relative_path = ''/'' @ CHAIN_HASH @ ''/public/'' @ str_int round_no
      in fetch_from_any_endpoint relative_path w)"

definition fetch_drand_latest :: "'a net_world_scheme \<Rightarrow> drand_resp result \<times> 'a net_world_scheme" where
  "fetch_drand_latest w =
     (let relative_path = ''/'' @ CHAIN_HASH @ ''/public/latest''
      in fetch_from_any_endpoint relative_path w)"

section \<open>Vocabulary of the specification\<close>

text \<open>An answer the fetcher returns: status 200 with a JSON body.\<close>

fun usable :: "http_outcome \<Rightarrow> bool" where
  "usable (Response status_code (Some body)) = (status_code = 200)"
| "usable _ = False"

fun body_of :: "http_outcome \<Rightarrow> drand_resp" where
  "body_of (Response status_code (Some body)) = body"
| "body_of _ = JNull"

text \<open>Every request takes between 0 and \<open>T\<close> milliseconds.\<close>

definition durations_within :: "int \<Rightarrow> 'a net_world_scheme \<Rightarrow> bool" where
  "durations_within T w \<longleftrightarrow> (\<forall>n uri. 0 \<le> snd (http w n uri) \<and> snd (http w n uri) \<le> T)"

abbreviation no_endpoint :: "'b result" where
  "no_endpoint \<equiv> Raise (Exception ''No valid response from any Drand endpoint'')"

section \<open>One request\<close>

lemma requests_get_simps [simp]:
  "http (snd (requests_get uri w)) = http w"
  "requests (snd (requests_get uri w)) = requests w @ [uri]"
  "now (snd (requests_get uri w)) = now w + snd (http w (length (requests w)) uri)"
  "fst (requests_get uri w) = fst (http w (length (requests w)) uri)"
  "net_world.more (snd (requests_get uri w)) = net_world.more w"
  by (simp_all add: requests_get_def split: prod.splits)

lemma usable_iff: "usable r \<longleftrightarrow> (\<exists>body. r = Response 200 (Some body))"
  by (cases r rule: usable.cases) auto

lemma usable_body: "usable r \<Longrightarrow> r = Response 200 (Some (body_of r))"
  by (cases r rule: usable.cases) auto

text \<open>The loop, one step at a time, in terms of \<open>usable\<close>.\<close>

lemma fetch_loop_Cons:
  "fetch_loop d p (e # es) w =
     (let r = fst (requests_get (e @ p) w); w' = snd (requests_get (e @ p) w)
      in if usable r then (Ok (body_of r), w')
         else if now w' > d then (no_endpoint, w')
         else fetch_loop d p es w')"
  by (cases "requests_get (e @ p) w"; cases "fst (requests_get (e @ p) w)" rule: usable.cases)
    (auto simp: Let_def)

lemmas fetch_loop_simps = fetch_loop.simps(1) fetch_loop_Cons

declare fetch_loop.simps(2) [simp del]

section \<open>What a fetch leaves unchanged\<close>

lemma fetch_loop_http [simp]: "http (snd (fetch_loop d p es w)) = http w"
  by (induction es arbitrary: w) (simp_all add: fetch_loop_Cons Let_def)

lemma fetch_loop_more [simp]: "net_world.more (snd (fetch_loop d p es w)) = net_world.more w"
  by (induction es arbitrary: w) (simp_all add: fetch_loop_Cons Let_def)

section \<open>The requests of a fetch\<close>

text \<open>
  The requests made are those of the first \<open>k\<close> endpoints, in the order of the list,
  one each; \<open>attempts\<close> is that \<open>k\<close>.
\<close>

definition attempts :: "int \<Rightarrow> string \<Rightarrow> string list \<Rightarrow> 'a net_world_scheme \<Rightarrow> nat" where
  "attempts d p es w = length (requests (snd (fetch_loop d p es w))) - length (requests w)"

lemma fetch_loop_requests_take:
  "\<exists>k \<le> length es. (es \<noteq> [] \<longrightarrow> 0 < k)
     \<and> requests (snd (fetch_loop d p es w)) = requests w @ map (\<lambda>e. e @ p) (take k es)"
proof (induction es arbitrary: w)
  case Nil
  show ?case by simp
next
  case (Cons e es)
  let ?w = "snd (requests_get (e @ p) w)"
  from Cons [of ?w] obtain k where k: "k \<le> length es"
    "requests (snd (fetch_loop d p es ?w)) = requests ?w @ map (\<lambda>e. e @ p) (take k es)"
    by blast
  show ?case
  proof (cases "usable (fst (requests_get (e @ p) w)) \<or> now ?w > d")
    case True
    then have "requests (snd (fetch_loop d p (e # es) w)) = requests w @ map (\<lambda>e. e @ p) (take 1 (e # es))"
      by (auto simp: fetch_loop_Cons Let_def)
    then show ?thesis
      by (intro exI [of _ 1]) simp
  next
    case False
    then have "requests (snd (fetch_loop d p (e # es) w)) = requests w @ map (\<lambda>e. e @ p) (take (Suc k) (e # es))"
      using k(2) by (simp add: fetch_loop_Cons Let_def)
    with k(1) show ?thesis
      by (intro exI [of _ "Suc k"]) simp
  qed
qed

lemma fetch_loop_requests:
  "requests (snd (fetch_loop d p es w)) = requests w @ map (\<lambda>e. e @ p) (take (attempts d p es w) es)"
  and attempts_le: "attempts d p es w \<le> length es"
  and attempts_pos: "es \<noteq> [] \<Longrightarrow> 0 < attempts d p es w"
proof -
  from fetch_loop_requests_take [of es d p w] obtain k where k: "k \<le> length es"
    "es \<noteq> [] \<longrightarrow> 0 < k"
    "requests (snd (fetch_loop d p es w)) = requests w @ map (\<lambda>e. e @ p) (take k es)"
    by blast
  then have "attempts d p es w = k"
    by (simp add: attempts_def)
  with k show
    "requests (snd (fetch_loop d p es w)) = requests w @ map (\<lambda>e. e @ p) (take (attempts d p es w) es)"
    "attempts d p es w \<le> length es" "es \<noteq> [] \<Longrightarrow> 0 < attempts d p es w"
    by simp_all
qed

lemma fetch_loop_requests_prefix:
  "i < length (requests w) \<Longrightarrow> requests (snd (fetch_loop d p es w)) ! i = requests w ! i"
  by (simp add: fetch_loop_requests nth_append)

section \<open>Whose answer a fetch returns\<close>

text \<open>
  In the lemmas below \<open>n\<close> is the number of requests made before the fetch, so that the
  \<open>i\<close>-th request of the fetch is answered by \<open>http w (n + i)\<close>.
\<close>

lemma fetch_loop_Ok:
  assumes "fst (fetch_loop d p es w) = Ok body"
  shows "\<exists>k < length es.
           requests (snd (fetch_loop d p es w)) = requests w @ map (\<lambda>e. e @ p) (take (Suc k) es)
           \<and> (\<forall>i < k. \<not> usable (fst (http w (length (requests w) + i) (es ! i @ p))))
           \<and> fst (http w (length (requests w) + k) (es ! k @ p)) = Response 200 (Some body)"
  using assms
proof (induction es arbitrary: w)
  case Nil
  then show ?case by simp
next
  case (Cons e es)
  let ?r = "fst (http w (length (requests w)) (e @ p))"
  let ?w = "snd (requests_get (e @ p) w)"
  show ?case
  proof (cases "usable ?r")
    case True
    with Cons.prems have "?r = Response 200 (Some body)"
      by (auto simp: fetch_loop_Cons Let_def dest: usable_body)
    with True show ?thesis
      by (intro exI [of _ 0]) (simp add: fetch_loop_Cons Let_def)
  next
    case False
    with Cons.prems have step: "fetch_loop d p (e # es) w = fetch_loop d p es ?w"
      by (auto simp: fetch_loop_Cons Let_def split: if_splits)
    with Cons.prems have "fst (fetch_loop d p es ?w) = Ok body"
      by simp
    from Cons.IH [OF this] obtain k where k: "k < length es"
      "requests (snd (fetch_loop d p es ?w)) = requests ?w @ map (\<lambda>e. e @ p) (take (Suc k) es)"
      "\<forall>i < k. \<not> usable (fst (http w (Suc (length (requests w)) + i) (es ! i @ p)))"
      "fst (http w (Suc (length (requests w)) + k) (es ! k @ p)) = Response 200 (Some body)"
      by auto
    with False show ?thesis
      unfolding step by (intro exI [of _ "Suc k"]) (simp add: All_less_Suc2)
  qed
qed

lemma fetch_loop_Raise:
  assumes "fst (fetch_loop d p es w) = Raise err"
  shows "err = Exception ''No valid response from any Drand endpoint''
       \<and> (\<exists>k \<le> length es.
            requests (snd (fetch_loop d p es w)) = requests w @ map (\<lambda>e. e @ p) (take k es)
            \<and> (\<forall>i < k. \<not> usable (fst (http w (length (requests w) + i) (es ! i @ p))))
            \<and> (k = length es \<or> d < now (snd (fetch_loop d p es w))))"
  using assms
proof (induction es arbitrary: w)
  case Nil
  then show ?case by simp
next
  case (Cons e es)
  let ?r = "fst (http w (length (requests w)) (e @ p))"
  let ?w = "snd (requests_get (e @ p) w)"
  from Cons.prems have nu: "\<not> usable ?r"
    by (auto simp: fetch_loop_Cons Let_def)
  show ?case
  proof (cases "d < now ?w")
    case True
    with nu Cons.prems show ?thesis
      by (intro conjI exI [of _ 1]) (auto simp: fetch_loop_Cons Let_def)
  next
    case False
    with nu have step: "fetch_loop d p (e # es) w = fetch_loop d p es ?w"
      by (simp add: fetch_loop_Cons Let_def)
    with Cons.prems have "fst (fetch_loop d p es ?w) = Raise err"
      by simp
    from Cons.IH [OF this] obtain k where err: "err = Exception ''No valid response from any Drand endpoint''"
      and k: "k \<le> length es"
      "requests (snd (fetch_loop d p es ?w)) = requests ?w @ map (\<lambda>e. e @ p) (take k es)"
      "\<forall>i < k. \<not> usable (fst (http w (Suc (length (requests w)) + i) (es ! i @ p)))"
      "k = length es \<or> d < now (snd (fetch_loop d p es ?w))"
      by auto
    from nu k have "Suc k \<le> length (e # es)
        \<and> requests (snd (fetch_loop d p es ?w)) = requests w @ map (\<lambda>e. e @ p) (take (Suc k) (e # es))
        \<and> (\<forall>i < Suc k. \<not> usable (fst (http w (length (requests w) + i) ((e # es) ! i @ p))))
        \<and> (Suc k = length (e # es) \<or> d < now (snd (fetch_loop d p es ?w)))"
      by (simp add: All_less_Suc2)
    with err show ?thesis
      unfolding step by blast
  qed
qed

section \<open>How long a fetch takes\<close>

lemma fetch_loop_now:
  assumes "durations_within T w" and "now w \<le> d"
  shows "now w \<le> now (snd (fetch_loop d p es w)) \<and> now (snd (fetch_loop d p es w)) \<le> d + T"
  using assms
proof (induction es arbitrary: w)
  case Nil
  then have "0 \<le> T"
    by (auto simp: durations_within_def intro: order_trans)
  with Nil show ?case by simp
next
  case (Cons e es)
  let ?dt = "snd (http w (length (requests w)) (e @ p))"
  let ?w = "snd (requests_get (e @ p) w)"
  from Cons.prems have dt: "0 \<le> ?dt" "?dt \<le> T"
    by (simp_all add: durations_within_def)
  from Cons.prems have dw: "durations_within T ?w"
    by (simp add: durations_within_def)
  show ?case
  proof (cases "usable (fst (requests_get (e @ p) w)) \<or> d < now ?w")
    case True
    with dt Cons.prems(2) show ?thesis
      by (auto simp: fetch_loop_Cons Let_def)
  next
    case False
    then have step: "fetch_loop d p (e # es) w = fetch_loop d p es ?w" and "now ?w \<le> d"
      by (simp_all add: fetch_loop_Cons Let_def)
    with Cons.IH [OF dw] dt show ?thesis
      by simp
  qed
qed

section \<open>Failover\<close>

lemma durations_within_nonneg: "durations_within T w \<Longrightarrow> 0 \<le> T"
  by (auto simp: durations_within_def intro: order_trans)

lemma durations_within_requests_get [simp]:
  "durations_within T (snd (requests_get uri w)) = durations_within T w"
  by (simp add: durations_within_def)

lemma fetch_loop_failover:
  assumes "k < length es"
    and "\<forall>i < k. \<forall>n. \<not> usable (fst (http w n (es ! i @ p)))"
    and "\<forall>n. fst (http w n (es ! k @ p)) = Response 200 (Some body)"
    and "durations_within T w" and "now w + int k * T \<le> d"
  shows "fst (fetch_loop d p es w) = Ok body
       \<and> requests (snd (fetch_loop d p es w)) = requests w @ map (\<lambda>e. e @ p) (take (Suc k) es)"
  using assms
proof (induction es arbitrary: w k)
  case Nil
  then show ?case by simp
next
  case (Cons e es)
  let ?w = "snd (requests_get (e @ p) w)"
  show ?case
  proof (cases k)
    case 0
    with Cons.prems(3) show ?thesis
      by (simp add: fetch_loop_Cons Let_def)
  next
    case (Suc j)
    from Cons.prems(4) have T: "0 \<le> T"
      by (rule durations_within_nonneg)
    from Cons.prems(4) have "snd (http w (length (requests w)) (e @ p)) \<le> T"
      by (simp add: durations_within_def)
    with Cons.prems(5) Suc have now: "now ?w + int j * T \<le> d"
      by (simp add: algebra_simps)
    with T have "\<not> d < now ?w"
      by (smt (verit) mult_nonneg_nonneg of_nat_0_le_iff)
    moreover from Cons.prems(2) Suc have "\<not> usable (fst (requests_get (e @ p) w))"
      by auto
    ultimately have step: "fetch_loop d p (e # es) w = fetch_loop d p es ?w"
      by (simp add: fetch_loop_Cons Let_def)
    from Cons.prems Suc have "j < length es"
      "\<forall>i < j. \<forall>n. \<not> usable (fst (http ?w n (es ! i @ p)))"
      "\<forall>n. fst (http ?w n (es ! j @ p)) = Response 200 (Some body)"
      "durations_within T ?w"
      by auto
    from Cons.IH [OF this now] Suc show ?thesis
      unfolding step by simp
  qed
qed

section \<open>An example world\<close>

text \<open>
  A network in which the first two endpoints fail after three seconds and every other
  one answers the path \<^verbatim>\<open>/x\<close> with \<open>ex_resp r\<close> after \<open>t\<close> milliseconds.
\<close>

definition ex_http :: "string \<Rightarrow> int \<Rightarrow> nat \<Rightarrow> string \<Rightarrow> http_outcome \<times> int" where
  "ex_http r t n uri =
     (if uri = ''https://api.drand.sh/x'' \<or> uri = ''https://api2.drand.sh/x''
      then (RequestException, 3000) else (Response 200 (Some (ex_resp r)), t))"

definition ex_world :: "string \<Rightarrow> int \<Rightarrow> net_world" where
  "ex_world r t = \<lparr>now = 0, http = ex_http r t, requests = []\<rparr>"

lemma ex_world_fetch:
  "fetch_from_any_endpoint ''/x'' (ex_world r t) =
     (Ok (ex_resp r),
      \<lparr>now = 6000 + t, http = ex_http r t,
       requests = [''https://api.drand.sh/x'', ''https://api2.drand.sh/x'', ''https://api3.drand.sh/x'']\<rparr>)"
  by (simp add: fetch_from_any_endpoint_def DRAND_ENDPOINTS_def HTTP_FETCH_TIMEOUT_def
      fetch_loop_Cons requests_get_def ex_world_def ex_http_def Let_def)

section \<open>What fetches cost\<close>

text \<open>
  \<open>net_cost k w w'\<close>: from \<open>w\<close> to \<open>w'\<close> the network is the same, at most \<open>k\<close> times the
  number of endpoints requests have been made, and, if every request takes between 0 and
  \<open>T\<close> milliseconds, the clock has not gone back and has advanced by at most \<open>k\<close> times
  the timeout plus \<open>T\<close>. A fetch costs 1.
\<close>

definition net_cost :: "nat \<Rightarrow> 'a net_world_scheme \<Rightarrow> 'a net_world_scheme \<Rightarrow> bool" where
  "net_cost k w w' \<longleftrightarrow>
     http w' = http w
     \<and> length (requests w') \<le> length (requests w) + length DRAND_ENDPOINTS * k
     \<and> (\<forall>T. durations_within T w \<longrightarrow>
           now w \<le> now w' \<and> now w' \<le> now w + int k * (HTTP_FETCH_TIMEOUT + T))"

lemma durations_within_cong: "http w' = http w \<Longrightarrow> durations_within T w' = durations_within T w"
  by (simp add: durations_within_def)

lemma net_costI:
  assumes "http w' = http w"
    and "length (requests w') \<le> length (requests w) + length DRAND_ENDPOINTS * k"
    and "\<And>T. durations_within T w \<Longrightarrow> now w \<le> now w'"
    and "\<And>T. durations_within T w \<Longrightarrow> now w' \<le> now w + int k * (HTTP_FETCH_TIMEOUT + T)"
  shows "net_cost k w w'"
  using assms unfolding net_cost_def by blast

lemma net_costD:
  assumes "net_cost k w w'"
  shows "http w' = http w"
    and "length (requests w') \<le> length (requests w) + length DRAND_ENDPOINTS * k"
    and "durations_within T w \<Longrightarrow> now w \<le> now w'"
    and "durations_within T w \<Longrightarrow> now w' \<le> now w + int k * (HTTP_FETCH_TIMEOUT + T)"
  using assms unfolding net_cost_def by blast+

lemma timeout_nonneg: "durations_within T w \<Longrightarrow> 0 \<le> HTTP_FETCH_TIMEOUT + T"
  by (drule durations_within_nonneg) (simp add: HTTP_FETCH_TIMEOUT_def)

lemma net_cost_same:
  assumes "http w' = http w" and "requests w' = requests w" and "now w' = now w"
  shows "net_cost k w w'"
proof (rule net_costI)
  fix T assume "durations_within T w"
  from timeout_nonneg [OF this] have "0 \<le> int k * (HTTP_FETCH_TIMEOUT + T)"
    by simp
  with assms show "now w' \<le> now w + int k * (HTTP_FETCH_TIMEOUT + T)"
    by simp
qed (use assms in simp_all)

lemma net_cost_trans:
  assumes "net_cost j w w'" and "net_cost k w' w''"
  shows "net_cost (j + k) w w''"
proof (rule net_costI)
  note a = net_costD [OF assms(1)] and b = net_costD [OF assms(2)]
  from b(1) a(1) show "http w'' = http w"
    by (rule trans)
  have "length DRAND_ENDPOINTS * (j + k) = length DRAND_ENDPOINTS * j + length DRAND_ENDPOINTS * k"
    by (rule distrib_left)
  with a(2) b(2) show "length (requests w'') \<le> length (requests w) + length DRAND_ENDPOINTS * (j + k)"
    by linarith
  fix T assume T: "durations_within T w"
  with durations_within_cong [OF a(1)] have T': "durations_within T w'"
    by simp
  from a(3) [OF T] b(3) [OF T'] show "now w \<le> now w''"
    by (rule order_trans)
  have "int (j + k) * (HTTP_FETCH_TIMEOUT + T)
      = int j * (HTTP_FETCH_TIMEOUT + T) + int k * (HTTP_FETCH_TIMEOUT + T)"
    by (simp only: of_nat_add distrib_right)
  with a(4) [OF T] b(4) [OF T'] show "now w'' \<le> now w + int (j + k) * (HTTP_FETCH_TIMEOUT + T)"
    by linarith
qed

lemma net_cost_mono:
  assumes "net_cost j w w'" and "j \<le> k"
  shows "net_cost k w w'"
proof -
  from assms(2) obtain i where k: "k = j + i"
    by (auto simp: le_iff_add)
  have "net_cost i w' w'"
    by (rule net_cost_same) simp_all
  from net_cost_trans [OF assms(1) this] k show ?thesis
    by simp
qed

lemma fetch_cost: "net_cost (Suc 0) w (snd (fetch_from_any_endpoint p w))"
proof (rule net_costI)
  let ?d = "now w + HTTP_FETCH_TIMEOUT"
  show "http (snd (fetch_from_any_endpoint p w)) = http w"
    by (simp add: fetch_from_any_endpoint_def)
  show "length (requests (snd (fetch_from_any_endpoint p w)))
      \<le> length (requests w) + length DRAND_ENDPOINTS * Suc 0"
    using attempts_le [of ?d p DRAND_ENDPOINTS w]
    by (simp add: fetch_from_any_endpoint_def fetch_loop_requests)
  fix T assume T: "durations_within T w"
  have "now w \<le> ?d"
    by (simp add: HTTP_FETCH_TIMEOUT_def)
  note n = fetch_loop_now [OF T this, of p DRAND_ENDPOINTS]
  from n show "now w \<le> now (snd (fetch_from_any_endpoint p w))"
    by (simp add: fetch_from_any_endpoint_def)
  from n show "now (snd (fetch_from_any_endpoint p w)) \<le> now w + int (Suc 0) * (HTTP_FETCH_TIMEOUT + T)"
    by (simp add: fetch_from_any_endpoint_def)
qed

lemma fetch_drand_latest_cost: "net_cost (Suc 0) w (snd (fetch_drand_latest w))"
  unfolding fetch_drand_latest_def Let_def by (rule fetch_cost)

lemma fetch_drand_by_round_cost: "net_cost (Suc 0) w (snd (fetch_drand_by_round r w))"
  unfolding fetch_drand_by_round_def Let_def by (rule fetch_cost)

text \<open>Costs add up along a sequence of operations; an operation that raises ends it.\<close>

lemma net_cost_bind_io:
  assumes "net_cost j w (snd (m w))" and "\<And>x w'. net_cost k w' (snd (f x w'))"
    and "j + k \<le> n"
  shows "net_cost n w (snd (bind_io m f w))"
proof (cases m f w rule: bind_io_cases)
  case (Raise e w')
  with assms(1,3) show ?thesis
    by (auto intro: net_cost_mono)
next
  case (Ok x w')
  with assms(1) net_cost_trans [of j w w' k "snd (f x w')"] assms(2) [of w' x] assms(3)
  show ?thesis
    by (auto intro: net_cost_mono)
qed

lemma net_cost_lift_bind:
  assumes "\<And>x. net_cost k w (snd (f x w))"
  shows "net_cost k w (snd (bind_io (lift_res r) f w))"
  using assms by (cases r) (simp_all add: net_cost_same)

section \<open>An endpoint that answers\<close>

text \<open>
  The paths the program asks for, and \<open>serves w p body\<close>: the first endpoint of the list
  answers every request for the path \<open>p\<close> with status 200 and the JSON value \<open>body\<close>.
\<close>

definition latest_path :: string where
  "latest_path = ''/'' @ CHAIN_HASH @ ''/public/latest''"

definition round_path :: "int \<Rightarrow> string" where
  "round_path r = ''/'' @ CHAIN_HASH @ ''/public/'' @ str_int r"

text \<open>Distinct rounds are requested at distinct paths, none of them the path of the latest pulse.\<close>

lemma round_path_eq_iff [simp]: "round_path r = round_path r' \<longleftrightarrow> r = r'"
  by (simp add: round_path_def)

lemma round_path_not_latest [simp]:
  "round_path r \<noteq> latest_path" "latest_path \<noteq> round_path r"
proof -
  have "int_of_str ''latest'' = None"
    by (simp add: int_of_str_def dec_val_def)
  then have "str_int r \<noteq> ''latest''"
    by (metis int_of_str_int option.distinct(1))
  then show "round_path r \<noteq> latest_path" "latest_path \<noteq> round_path r"
    by (auto simp: round_path_def latest_path_def)
qed

lemma distinct_paths:
  "distinct (map (\<lambda>p. e @ p) (latest_path # map round_path rs)) \<longleftrightarrow> distinct rs"
  by (auto simp: distinct_map inj_on_def)

definition serves :: "'a net_world_scheme \<Rightarrow> string \<Rightarrow> drand_resp \<Rightarrow> bool" where
  "serves w p body \<longleftrightarrow>
     (\<forall>n. fst (http w n (hd DRAND_ENDPOINTS @ p)) = Response 200 (Some body))"

lemma fetch_served:
  assumes "serves w p body"
  shows "fetch_from_any_endpoint p w =
           (Ok body, w\<lparr>now := now w + snd (http w (length (requests w)) (hd DRAND_ENDPOINTS @ p)),
                       requests := requests w @ [hd DRAND_ENDPOINTS @ p]\<rparr>)"
  using assms [unfolded serves_def, rule_format, of "length (requests w)"]
  by (simp add: fetch_from_any_endpoint_def DRAND_ENDPOINTS_def fetch_loop_Cons requests_get_def
      Let_def split_beta)

lemma fetch_drand_latest_served:
  assumes "serves w latest_path body"
  shows "fetch_drand_latest w =
           (Ok body, w\<lparr>now := now w + snd (http w (length (requests w)) (hd DRAND_ENDPOINTS @ latest_path)),
                       requests := requests w @ [hd DRAND_ENDPOINTS @ latest_path]\<rparr>)"
  using fetch_served [OF assms] by (simp add: fetch_drand_latest_def latest_path_def)

lemma fetch_drand_by_round_served:
  assumes "serves w (round_path r) body"
  shows "fetch_drand_by_round r w =
           (Ok body, w\<lparr>now := now w + snd (http w (length (requests w)) (hd DRAND_ENDPOINTS @ round_path r)),
                       requests := requests w @ [hd DRAND_ENDPOINTS @ round_path r]\<rparr>)"
  using fetch_served [OF assms] by (simp add: fetch_drand_by_round_def round_path_def)

lemma serves_update [simp]:
  "serves (w\<lparr>now := t\<rparr>) p body = serves w p body"
  "serves (w\<lparr>requests := rs\<rparr>) p body = serves w p body"
  by (simp_all add: serves_def)

section \<open>The properties of the fetcher\<close>

text \<open>
  C32. First success wins: when a fetch returns a body, it is the body of the answer
  of one endpoint of the list; every endpoint before that one was asked once, in the
  order of the list, and gave no usable answer (an exception of the transport, a
  status other than 200 or a body that is not JSON); no endpoint after it was asked.
\<close>

theorem fetch_returns_first_usable:
  assumes "fst (fetch_from_any_endpoint p w) = Ok body"
  shows "\<exists>k < length DRAND_ENDPOINTS.
           requests (snd (fetch_from_any_endpoint p w))
             = requests w @ map (\<lambda>e. e @ p) (take (Suc k) DRAND_ENDPOINTS)
           \<and> (\<forall>i < k. \<not> usable (fst (http w (length (requests w) + i) (DRAND_ENDPOINTS ! i @ p))))
           \<and> fst (http w (length (requests w) + k) (DRAND_ENDPOINTS ! k @ p)) = Response 200 (Some body)"
  using assms unfolding fetch_from_any_endpoint_def Let_def by (rule fetch_loop_Ok)

theorem fetch_returns_first_usable_witness:
  "fst (fetch_from_any_endpoint ''/x'' (ex_world ''ab'' 10)) = Ok (ex_resp ''ab'')
   \<and> requests (snd (fetch_from_any_endpoint ''/x'' (ex_world ''ab'' 10)))
       = [''https://api.drand.sh/x'', ''https://api2.drand.sh/x'', ''https://api3.drand.sh/x'']"
proof -
  have ok: "fst (fetch_from_any_endpoint ''/x'' (ex_world ''ab'' 10)) = Ok (ex_resp ''ab'')"
    by (simp add: ex_world_fetch)
  from fetch_returns_first_usable [OF ok] show ?thesis
    by (simp add: ex_world_fetch)
qed

text \<open>
  C33. When a fetch raises, it raises \<^verbatim>\<open>No valid response from any Drand endpoint\<close>;
  the endpoints it asked are a prefix of the list, each asked once, none gave a usable
  answer, and either the whole list was asked or the deadline had passed after the
  last request.
\<close>

theorem fetch_raises_no_endpoint:
  assumes "fst (fetch_from_any_endpoint p w) = Raise err"
  shows "err = Exception ''No valid response from any Drand endpoint''
       \<and> (\<exists>k \<le> length DRAND_ENDPOINTS.
            requests (snd (fetch_from_any_endpoint p w))
              = requests w @ map (\<lambda>e. e @ p) (take k DRAND_ENDPOINTS)
            \<and> (\<forall>i < k. \<not> usable (fst (http w (length (requests w) + i) (DRAND_ENDPOINTS ! i @ p))))
            \<and> (k = length DRAND_ENDPOINTS
                \<or> now w + HTTP_FETCH_TIMEOUT < now (snd (fetch_from_any_endpoint p w))))"
  using assms unfolding fetch_from_any_endpoint_def Let_def by (rule fetch_loop_Raise)

theorem fetch_raises_no_endpoint_witness:
  "fst (fetch_from_any_endpoint ''/x'' \<lparr>now = 0, http = (\<lambda>n uri. (Response 503 None, 6000)), requests = []\<rparr>)
     = Raise (Exception ''No valid response from any Drand endpoint'')
   \<and> requests (snd (fetch_from_any_endpoint ''/x''
        \<lparr>now = 0, http = (\<lambda>n uri. (Response 503 None, 6000)), requests = []\<rparr>))
     = [''https://api.drand.sh/x'', ''https://api2.drand.sh/x'']"
proof -
  let ?w = "\<lparr>now = 0, http = (\<lambda>n uri. (Response 503 None, 6000)), requests = []\<rparr>"
  have r: "fetch_from_any_endpoint ''/x'' ?w =
      (Raise (Exception ''No valid response from any Drand endpoint''),
       \<lparr>now = 12000, http = (\<lambda>n uri. (Response 503 None, 6000)),
        requests = [''https://api.drand.sh/x'', ''https://api2.drand.sh/x'']\<rparr>)"
    by (simp add: fetch_from_any_endpoint_def DRAND_ENDPOINTS_def HTTP_FETCH_TIMEOUT_def
        fetch_loop_Cons requests_get_def Let_def)
  then have "fst (fetch_from_any_endpoint ''/x'' ?w) = Raise (Exception ''No valid response from any Drand endpoint'')"
    by simp
  from fetch_raises_no_endpoint [OF this] r show ?thesis
    by simp
qed

text \<open>
  C34. Failover: if the endpoints before the \<open>k\<close>-th never give a usable answer, the
  \<open>k\<close>-th answers with status 200 and a body, and \<open>k\<close> requests of at most \<open>T\<close>
  milliseconds each fit into the timeout, then the fetch returns that body after
  asking exactly the first \<open>k + 1\<close> endpoints, once each.
\<close>

theorem fetch_failover:
  assumes "k < length DRAND_ENDPOINTS"
    and "\<forall>i < k. \<forall>n. \<not> usable (fst (http w n (DRAND_ENDPOINTS ! i @ p)))"
    and "\<forall>n. fst (http w n (DRAND_ENDPOINTS ! k @ p)) = Response 200 (Some body)"
    and "durations_within T w" and "int k * T \<le> HTTP_FETCH_TIMEOUT"
  shows "fst (fetch_from_any_endpoint p w) = Ok body
       \<and> requests (snd (fetch_from_any_endpoint p w))
           = requests w @ map (\<lambda>e. e @ p) (take (Suc k) DRAND_ENDPOINTS)"
  using assms unfolding fetch_from_any_endpoint_def Let_def
  by (intro fetch_loop_failover) simp_all

theorem fetch_failover_witness:
  "durations_within 3000 (ex_world ''ab'' 10)
   \<and> fst (fetch_from_any_endpoint ''/x'' (ex_world ''ab'' 10)) = Ok (ex_resp ''ab'')
   \<and> requests (snd (fetch_from_any_endpoint ''/x'' (ex_world ''ab'' 10)))
       = [''https://api.drand.sh/x'', ''https://api2.drand.sh/x'', ''https://api3.drand.sh/x'']"
proof -
  have d: "durations_within 3000 (ex_world ''ab'' 10)"
    by (simp add: durations_within_def ex_world_def ex_http_def)
  have "\<forall>i < 2. \<forall>n. \<not> usable (fst (http (ex_world ''ab'' 10) n (DRAND_ENDPOINTS ! i @ ''/x'')))"
    by (simp add: ex_world_def ex_http_def DRAND_ENDPOINTS_def less_2_cases_iff)
  moreover have "\<forall>n. fst (http (ex_world ''ab'' 10) n (DRAND_ENDPOINTS ! 2 @ ''/x''))
      = Response 200 (Some (ex_resp ''ab''))"
    by (simp add: ex_world_def ex_http_def DRAND_ENDPOINTS_def)
  ultimately show ?thesis
    using fetch_failover [of 2 "ex_world ''ab'' 10" "''/x''" "ex_resp ''ab''" 3000] d
    by (simp add: DRAND_ENDPOINTS_def HTTP_FETCH_TIMEOUT_def ex_world_def)
qed

text \<open>
  A fetch makes at least one and at most five requests, to the endpoints in the
  order of the list, and no endpoint is asked twice.
\<close>

theorem fetch_asks_each_endpoint_once:
  "\<exists>k. 1 \<le> k \<and> k \<le> 5
     \<and> requests (snd (fetch_from_any_endpoint p w)) = requests w @ map (\<lambda>e. e @ p) (take k DRAND_ENDPOINTS)
     \<and> distinct (take k DRAND_ENDPOINTS)"
proof -
  from fetch_loop_requests_take [of DRAND_ENDPOINTS "now w + HTTP_FETCH_TIMEOUT" p w]
  obtain k where "k \<le> length DRAND_ENDPOINTS" "0 < k"
    "requests (snd (fetch_from_any_endpoint p w)) = requests w @ map (\<lambda>e. e @ p) (take k DRAND_ENDPOINTS)"
    by (auto simp: fetch_from_any_endpoint_def DRAND_ENDPOINTS_def)
  moreover have "distinct DRAND_ENDPOINTS" "length DRAND_ENDPOINTS = 5"
    by (simp_all add: DRAND_ENDPOINTS_def)
  ultimately show ?thesis
    by (intro exI [of _ k]) simp
qed

text \<open>
  C35. If every request takes between 0 and \<open>T\<close> milliseconds, a fetch ends at most
  \<open>T\<close> milliseconds after its deadline: the clock never goes back, and the last request
  starts before the deadline has passed.
\<close>

theorem fetch_time_bound:
  assumes "durations_within T w"
  shows "now w \<le> now (snd (fetch_from_any_endpoint p w))
       \<and> now (snd (fetch_from_any_endpoint p w)) \<le> now w + HTTP_FETCH_TIMEOUT + T"
  using fetch_loop_now [OF assms, of "now w + HTTP_FETCH_TIMEOUT" p DRAND_ENDPOINTS]
  by (simp add: fetch_from_any_endpoint_def HTTP_FETCH_TIMEOUT_def)

theorem fetch_time_bound_witness:
  "durations_within 3000 (ex_world ''ab'' 10)
   \<and> now (snd (fetch_from_any_endpoint ''/x'' (ex_world ''ab'' 10))) = 6010
   \<and> now (snd (fetch_from_any_endpoint ''/x'' (ex_world ''ab'' 10)))
       \<le> now (ex_world ''ab'' 10) + HTTP_FETCH_TIMEOUT + 3000"
proof -
  have d: "durations_within 3000 (ex_world ''ab'' 10)"
    by (simp add: durations_within_def ex_world_def ex_http_def)
  from fetch_time_bound [OF d, of "''/x''"] d show ?thesis
    by (simp add: ex_world_fetch)
qed

text \<open>
  C36. The deadline is looked at only after a request has failed: a usable answer of
  the first endpoint is returned however long it took to arrive.
\<close>

theorem fetch_accepts_late_answer:
  assumes "fst (http w (length (requests w)) (hd DRAND_ENDPOINTS @ p)) = Response 200 (Some body)"
  shows "fst (fetch_from_any_endpoint p w) = Ok body"
  using assms
  by (simp add: fetch_from_any_endpoint_def DRAND_ENDPOINTS_def fetch_loop_Cons Let_def)

theorem fetch_accepts_late_answer_witness:
  "fetch_from_any_endpoint ''/x''
     \<lparr>now = 0, http = (\<lambda>n uri. (Response 200 (Some (ex_resp ''ab'')), 3600000)), requests = []\<rparr>
   = (Ok (ex_resp ''ab''),
      \<lparr>now = 3600000, http = (\<lambda>n uri. (Response 200 (Some (ex_resp ''ab'')), 3600000)),
       requests = [''https://api.drand.sh/x'']\<rparr>)"
proof -
  let ?w = "\<lparr>now = 0, http = (\<lambda>n uri. (Response 200 (Some (ex_resp ''ab'')), 3600000)), requests = []\<rparr>"
  have "fst (fetch_from_any_endpoint ''/x'' ?w) = Ok (ex_resp ''ab'')"
    by (rule fetch_accepts_late_answer) simp
  moreover have "snd (fetch_from_any_endpoint ''/x'' ?w) =
      \<lparr>now = 3600000, http = (\<lambda>n uri. (Response 200 (Some (ex_resp ''ab'')), 3600000)),
       requests = [''https://api.drand.sh/x'']\<rparr>"
    by (simp add: fetch_from_any_endpoint_def DRAND_ENDPOINTS_def fetch_loop_Cons
        requests_get_def Let_def)
  ultimately show ?thesis
    by (simp add: prod_eq_iff)
qed

end
