(* ===== verification/Compact_Encoder.thy ===== *)
theory Compact_Encoder
  imports Py_Builtins
begin

text \<open>
  The compact integer encoder \<^verbatim>\<open>encode_compact_u32\<close> of \<^verbatim>\<open>src/ocw.py\<close> (lines 53-64),
  the table of tiers it implements, a decoder that inverts it, and the reference
  SCALE compact encoding of 32-bit values it is meant to agree with. The lemmas give
  the bytes of every branch, the inputs on which the function raises, the round trip
  through the decoder, and where the function agrees with the reference and where it
  does not.
\<close>

section \<open>The encoder\<close>

text \<open>
  The argument is a Python integer, hence an \<open>int\<close>: the function is called on
  lengths only, but nothing in it rejects a negative number.
\<close>

definition encode_compact_u32 :: "int \<Rightarrow> bytes result" where
  "encode_compact_u32 v =
     (if v < 64 then to_bytes (push_bit 2 v AND 0xFF) 1
      else if v < 16384 then to_bytes (push_bit 2 v OR 0x01) 2
      else if v < 1073741824 then to_bytes (push_bit 2 v OR 0x02) 4
      else to_bytes (push_bit 2 v OR 0x03) 5)"

section \<open>The table of tiers\<close>

text \<open>Tag and width of the tier a value falls in, as tabulated for the encoder.\<close>

definition compact_tag :: "int \<Rightarrow> int" where
  "compact_tag v =
     (if v < 64 then 0 else if v < 16384 then 1 else if v < 1073741824 then 2 else 3)"

definition compact_width :: "int \<Rightarrow> nat" where
  "compact_width v =
     (if v < 64 then 1 else if v < 16384 then 2 else if v < 1073741824 then 4 else 5)"

text \<open>The largest value plus one that the widest tier can hold: \<open>2 ^ 38\<close>.\<close>

abbreviation compact_limit :: int where
  "compact_limit \<equiv> 274877906944"

text \<open>The bytes the table prescribes: the shifted value plus the tag, in the tier's width.\<close>

definition compact_bytes :: "int \<Rightarrow> bytes" where
  "compact_bytes v = to_le (compact_width v) (4 * v + compact_tag v)"

section \<open>A decoder\<close>

text \<open>
  The program has no decoder. This one reads the width off the tag in the two low bits
  of the first byte, takes that many bytes as a little-endian number and drops the
  tag; it returns the value and the bytes that follow.
\<close>

definition width_of_tag :: "byte \<Rightarrow> nat" where
  "width_of_tag b =
     (let t = uint b mod 4 in if t = 0 then 1 else if t = 1 then 2 else if t = 2 then 4 else 5)"

definition decode_compact :: "bytes \<Rightarrow> (int \<times> bytes) option" where
  "decode_compact bs =
     (case bs of
        [] \<Rightarrow> None
      | b # _ \<Rightarrow>
          if length bs < width_of_tag b then None
          else Some (from_le (take (width_of_tag b) bs) div 4, drop (width_of_tag b) bs))"

section \<open>The reference: SCALE compact encoding of a 32-bit value\<close>

text \<open>
  In the SCALE codec the first three modes are those of the table; a value from
  \<open>2 ^ 30\<close> on is written in big-integer mode, a header byte \<open>(n - 4) * 4 + 3\<close>
  followed by the value itself in \<open>n\<close> bytes, with \<open>n = 4\<close> for a 32-bit value.
\<close>

definition scale_compact_u32 :: "int \<Rightarrow> bytes" where
  "scale_compact_u32 v =
     (if v < 64 then to_le 1 (4 * v)
      else if v < 16384 then to_le 2 (4 * v + 1)
      else if v < 1073741824 then to_le 4 (4 * v + 2)
      else 3 # to_le 4 v)"

section \<open>Every branch of the encoder\<close>

lemma compact_tag_range: "0 \<le> compact_tag v" "compact_tag v < 4"
  by (simp_all add: compact_tag_def)

lemma compact_width_pos: "0 < compact_width v"
  by (simp add: compact_width_def)

lemma compact_width_cases: "compact_width v \<in> {1, 2, 4, 5}"
  by (simp add: compact_width_def)

lemma compact_fits:
  "0 \<le> v \<Longrightarrow> v < compact_limit \<Longrightarrow> 4 * v + compact_tag v < 256 ^ compact_width v"
  by (simp add: compact_tag_def compact_width_def)

lemma encode_compact_u32_tier0:
  "0 \<le> v \<Longrightarrow> v < 64 \<Longrightarrow> encode_compact_u32 v = Ok [word_of_int (4 * v)]"
  by (simp add: encode_compact_u32_def shift2_simps to_bytes_def)

lemma encode_compact_u32_tier1:
  "64 \<le> v \<Longrightarrow> v < 16384 \<Longrightarrow> encode_compact_u32 v = Ok (to_le 2 (4 * v + 1))"
  by (simp add: encode_compact_u32_def shift2_simps to_bytes_def)

lemma encode_compact_u32_tier2:
  "16384 \<le> v \<Longrightarrow> v < 1073741824 \<Longrightarrow> encode_compact_u32 v = Ok (to_le 4 (4 * v + 2))"
  by (simp add: encode_compact_u32_def shift2_simps to_bytes_def)

lemma encode_compact_u32_tier3:
  "1073741824 \<le> v \<Longrightarrow> v < compact_limit \<Longrightarrow>
     encode_compact_u32 v = Ok (to_le 5 (4 * v + 3))"
  by (simp add: encode_compact_u32_def shift2_simps to_bytes_def)

lemmas encode_compact_u32_tiers =
  encode_compact_u32_tier0 encode_compact_u32_tier1
  encode_compact_u32_tier2 encode_compact_u32_tier3

lemma length_compact_bytes [simp, enc_length]: "length (compact_bytes v) = compact_width v"
  by (simp add: compact_bytes_def)

lemma encode_compact_u32_table:
  assumes "0 \<le> v" and "v < compact_limit"
  shows "encode_compact_u32 v = Ok (to_le (compact_width v) (4 * v + compact_tag v))"
proof -
  consider "v < 64" | "64 \<le> v" "v < 16384" | "16384 \<le> v" "v < 1073741824"
    | "1073741824 \<le> v"
    by linarith
  then show ?thesis
    using assms
    by cases (simp_all add: encode_compact_u32_tiers compact_width_def compact_tag_def)
qed

lemma encode_compact_u32_length [enc_length]:
  "encode_compact_u32 v = Ok bs \<Longrightarrow> length bs = compact_width v"
  by (auto simp: encode_compact_u32_def compact_width_def dest: to_bytes_length
      split: if_splits)

section \<open>The tag in the first byte\<close>

lemma uint_byte_mod4: "uint (word_of_int x :: byte) mod 4 = x mod 4"
proof -
  have "x mod 256 mod 4 = x mod 4"
    by (rule mod_mod_cancel) simp
  then show ?thesis
    by (simp add: uint_word_of_int)
qed

lemma to_le_hd_tag:
  assumes "0 < n" "0 \<le> t" "t < 4"
  shows "uint (hd (to_le n (4 * v + t))) mod 4 = t"
proof -
  from assms(1) obtain m where "n = Suc m"
    by (cases n) simp_all
  then have "hd (to_le n (4 * v + t)) = word_of_int (4 * v + t)"
    by (simp only: to_le.simps list.sel)
  moreover from assms(2,3) have "(4 * v + t) mod 4 = t"
    by simp
  ultimately show ?thesis
    by (simp only: uint_byte_mod4)
qed

lemma width_of_tag_eq: "uint b mod 4 = compact_tag v \<Longrightarrow> width_of_tag b = compact_width v"
  by (simp add: width_of_tag_def compact_tag_def compact_width_def)

lemma width_of_tag_compact:
  "width_of_tag (hd (to_le (compact_width v) (4 * v + compact_tag v))) = compact_width v"
  by (intro width_of_tag_eq to_le_hd_tag compact_width_pos compact_tag_range)

section \<open>Round trip\<close>

lemma decode_compact_to_le:
  assumes "0 \<le> v" and "v < compact_limit"
  shows "decode_compact (to_le (compact_width v) (4 * v + compact_tag v) @ rest) = Some (v, rest)"
proof -
  let ?e = "to_le (compact_width v) (4 * v + compact_tag v)"
  from compact_width_pos [of v] obtain b bs where e: "?e = b # bs"
    by (cases ?e) (simp_all flip: length_0_conv)
  then have w: "width_of_tag b = compact_width v"
    using width_of_tag_compact [of v] by simp
  have len: "length ?e = compact_width v"
    by simp
  have "from_le ?e = 4 * v + compact_tag v"
    using assms compact_tag_range [of v] by (intro from_le_to_le compact_fits) simp_all
  moreover have "(4 * v + compact_tag v) div 4 = v"
    using compact_tag_range [of v] by simp
  ultimately have "from_le (take (compact_width v) (?e @ rest)) div 4 = v"
    by (simp only: take_length_append [OF len])
  moreover have "drop (compact_width v) (?e @ rest) = rest"
    by (rule drop_length_append [OF len])
  moreover have "\<not> length (?e @ rest) < compact_width v"
    by simp
  ultimately show ?thesis
    unfolding decode_compact_def e [symmetric]
    using e w by (simp del: to_le.simps)
qed

lemma encode_compact_u32_bytes:
  "0 \<le> v \<Longrightarrow> v < compact_limit \<Longrightarrow> encode_compact_u32 v = Ok (compact_bytes v)"
  by (simp add: encode_compact_u32_table compact_bytes_def)

lemma decode_compact_bytes:
  "0 \<le> v \<Longrightarrow> v < compact_limit \<Longrightarrow> decode_compact (compact_bytes v @ rest) = Some (v, rest)"
  by (simp add: decode_compact_to_le compact_bytes_def)

lemma encode_compact_u32_decode:
  assumes "0 \<le> v" and "v < compact_limit"
  shows "\<exists>e. encode_compact_u32 v = Ok e \<and> decode_compact (e @ rest) = Some (v, rest)"
  using assms by (simp add: encode_compact_u32_table decode_compact_to_le)

lemma encode_compact_u32_nonneg_Ok:
  assumes "0 \<le> v" and "encode_compact_u32 v = Ok e"
  shows "v < compact_limit" and "e = to_le (compact_width v) (4 * v + compact_tag v)"
proof -
  show "v < compact_limit"
    using assms by (auto simp: encode_compact_u32_def shift2_simps res_simps split: if_splits)
  with assms show "e = to_le (compact_width v) (4 * v + compact_tag v)"
    by (simp add: encode_compact_u32_table)
qed

lemma encode_compact_u32_Ok_iff:
  assumes "0 \<le> v"
  shows "encode_compact_u32 v = Ok e \<longleftrightarrow> v < compact_limit \<and> e = compact_bytes v"
proof
  assume "encode_compact_u32 v = Ok e"
  with assms show "v < compact_limit \<and> e = compact_bytes v"
    unfolding compact_bytes_def by (intro conjI encode_compact_u32_nonneg_Ok)
next
  assume "v < compact_limit \<and> e = compact_bytes v"
  with assms show "encode_compact_u32 v = Ok e"
    by (simp add: encode_compact_u32_bytes)
qed

lemma encode_compact_u32_prefix_free:
  assumes "0 \<le> v" "0 \<le> w"
    and "encode_compact_u32 v = Ok e" "encode_compact_u32 w = Ok f"
    and "e @ r = f @ s"
  shows "v = w \<and> r = s"
proof -
  from assms(1,3) have "decode_compact (e @ r) = Some (v, r)"
    using encode_compact_u32_nonneg_Ok [of v e] by (simp add: decode_compact_to_le)
  moreover from assms(2,4) have "decode_compact (f @ s) = Some (w, s)"
    using encode_compact_u32_nonneg_Ok [of w f] by (simp add: decode_compact_to_le)
  ultimately show ?thesis
    using assms(5) by simp
qed

section \<open>Exceptions\<close>

lemma encode_compact_u32_Raise_iff:
  "encode_compact_u32 v = Raise e \<longleftrightarrow> compact_limit \<le> v \<and> e = OverflowError"
  by (auto simp: encode_compact_u32_def shift2_simps res_simps)

lemma byte_of_int_mod: "(word_of_int (x mod 256) :: byte) = word_of_int x"
  unfolding word_of_int_eq_iff by (simp add: take_bit_eq_mod)

lemma encode_compact_u32_below_64:
  "v < 64 \<Longrightarrow> encode_compact_u32 v = Ok [word_of_int (4 * v)]"
proof -
  assume "v < 64"
  moreover have "to_bytes ((4 * v) mod 256) 1 = Ok (to_le 1 ((4 * v) mod 256))"
    by (rule to_bytes_in_range) simp_all
  ultimately have "encode_compact_u32 v = Ok (to_le 1 ((4 * v) mod 256))"
    by (simp add: encode_compact_u32_def shift2_simps)
  then show ?thesis
    by (simp only: One_nat_def to_le.simps byte_of_int_mod)
qed

section \<open>Agreement with the SCALE reference\<close>

lemma encode_compact_u32_eq_scale:
  assumes "0 \<le> v" and "v < 1073741824"
  shows "encode_compact_u32 v = Ok (scale_compact_u32 v)"
proof -
  from assms have "encode_compact_u32 v = Ok (to_le (compact_width v) (4 * v + compact_tag v))"
    by (simp add: encode_compact_u32_table)
  with assms show ?thesis
    by (simp add: scale_compact_u32_def compact_width_def compact_tag_def)
qed

lemma encode_compact_u32_neq_scale:
  assumes "1073741824 \<le> v" and "v < 4294967296"
  shows "encode_compact_u32 v \<noteq> Ok (scale_compact_u32 v)"
proof
  assume "encode_compact_u32 v = Ok (scale_compact_u32 v)"
  with assms have "to_le 5 (4 * v + 3) = 3 # to_le 4 v"
    by (simp add: encode_compact_u32_tier3 scale_compact_u32_def)
  then have "to_le 4 ((4 * v + 3) div 256) = to_le 4 v"
    by (simp only: to_le_numeral list.inject pred_numeral_simps BitM.simps)
  moreover have "(4 * v + 3) div 256 = v div 64"
    by linarith
  ultimately have "to_le 4 (v div 64) = to_le 4 v"
    by simp
  with assms have "v div 64 = v"
    by (intro to_le_inj [of _ 4]) simp_all
  with assms show False
    by linarith
qed

section \<open>The properties of the encoder\<close>

text \<open>
  C37. On every value from 0 up to, and without, \<open>2 ^ 38\<close> the encoder returns a byte
  string whose width and whose tag (the two low bits of the first byte) are those of
  the value's tier in the table, and which, read as a little-endian number, is the
  value shifted left by two bits plus the tag.
\<close>

theorem encode_compact_u32_tier_table:
  assumes "0 \<le> v" and "v < compact_limit"
  shows "\<exists>bs. encode_compact_u32 v = Ok bs \<and> length bs = compact_width v
           \<and> uint (hd bs) mod 4 = compact_tag v \<and> from_le bs = 4 * v + compact_tag v"
proof -
  let ?bs = "to_le (compact_width v) (4 * v + compact_tag v)"
  have "uint (hd ?bs) mod 4 = compact_tag v"
    by (intro to_le_hd_tag compact_width_pos compact_tag_range)
  moreover have "from_le ?bs = 4 * v + compact_tag v"
    using assms compact_tag_range [of v] by (intro from_le_to_le compact_fits) simp_all
  ultimately show ?thesis
    using assms by (simp add: encode_compact_u32_table)
qed

theorem encode_compact_u32_tier_table_witness:
  "\<exists>bs. encode_compact_u32 16384 = Ok bs \<and> length bs = 4
         \<and> uint (hd bs) mod 4 = 2 \<and> from_le bs = 65538"
  using encode_compact_u32_tier_table [of 16384]
  by (simp add: compact_width_def compact_tag_def)

text \<open>
  The encodings at the boundaries of the tiers: 0, 63, 64, 16383, 16384,
  \<open>2 ^ 30 - 1\<close> and \<open>2 ^ 30\<close>, byte for byte.
\<close>

theorem encode_compact_u32_vectors:
  "encode_compact_u32 0 = Ok [0x00]
   \<and> encode_compact_u32 63 = Ok [0xFC]
   \<and> encode_compact_u32 64 = Ok [0x01, 0x01]
   \<and> encode_compact_u32 16383 = Ok [0xFD, 0xFF]
   \<and> encode_compact_u32 16384 = Ok [0x02, 0x00, 0x01, 0x00]
   \<and> encode_compact_u32 1073741823 = Ok [0xFE, 0xFF, 0xFF, 0xFF]
   \<and> encode_compact_u32 1073741824 = Ok [0x03, 0x00, 0x00, 0x00, 0x01]"
  by (simp add: encode_compact_u32_tiers to_le_numeral)

text \<open>
  Decoding inverts encoding, whatever bytes follow: for a value from 0 up to
  \<open>2 ^ 38\<close> the decoder applied to the encoding followed by \<open>rest\<close> returns the value
  and \<open>rest\<close>. Hence no encoding is a prefix of another one.
\<close>

theorem decode_compact_encode:
  assumes "0 \<le> v" and "v < compact_limit" and "encode_compact_u32 v = Ok e"
  shows "decode_compact (e @ rest) = Some (v, rest)"
  using assms encode_compact_u32_decode [of v rest] by auto

theorem decode_compact_encode_witness:
  "encode_compact_u32 300 = Ok [0xB1, 0x04] \<and> decode_compact ([0xB1, 0x04] @ [7, 7]) = Some (300, [7, 7])"
proof -
  have e: "encode_compact_u32 300 = Ok [0xB1, 0x04]"
    by (simp add: encode_compact_u32_tiers to_le_numeral)
  with decode_compact_encode [of 300 "[0xB1, 0x04]" "[7, 7]"] show ?thesis
    by simp
qed

text \<open>
  C38. The encoder raises exactly on the values from \<open>2 ^ 38\<close> on, and what it raises
  is \<^verbatim>\<open>OverflowError\<close> of \<^verbatim>\<open>to_bytes\<close>: it is not total on the non-negative integers.
\<close>

theorem encode_compact_u32_raises:
  "encode_compact_u32 v = Raise e \<longleftrightarrow> compact_limit \<le> v \<and> e = OverflowError"
  by (rule encode_compact_u32_Raise_iff)

theorem encode_compact_u32_raises_witness:
  "encode_compact_u32 compact_limit = Raise OverflowError"
  using encode_compact_u32_raises [of compact_limit OverflowError] by simp

text \<open>
  C39. A negative argument is not rejected: the first branch masks the shifted value
  to one byte and returns it, so the encoder returns the low byte of \<open>4 * v\<close> for every
  \<open>v < 64\<close>, negative ones included, and \<open>-1\<close> is encoded like 63.
\<close>

theorem encode_compact_u32_negative:
  assumes "v < 0"
  shows "encode_compact_u32 v = Ok [word_of_int (4 * v)]"
  using assms by (simp add: encode_compact_u32_below_64)

theorem encode_compact_u32_negative_witness:
  "encode_compact_u32 (- 1) = Ok [0xFC] \<and> encode_compact_u32 (- 1) = encode_compact_u32 63"
  using encode_compact_u32_negative [of "- 1"] by (simp add: encode_compact_u32_tiers)

text \<open>
  C40. On the 32-bit values the encoder produces the SCALE compact encoding exactly below
  \<open>2 ^ 30\<close>. From \<open>2 ^ 30\<close> on it writes the shifted value in five bytes where SCALE
  writes the header byte 3 and the value itself in four.
\<close>

theorem encode_compact_u32_scale_iff:
  assumes "0 \<le> v" and "v < 4294967296"
  shows "encode_compact_u32 v = Ok (scale_compact_u32 v) \<longleftrightarrow> v < 1073741824"
  using assms encode_compact_u32_eq_scale [of v] encode_compact_u32_neq_scale [of v]
  by (cases "v < 1073741824") simp_all

theorem encode_compact_u32_scale_iff_witness:
  "encode_compact_u32 50 = Ok (scale_compact_u32 50) \<and> scale_compact_u32 50 = [0xC8]
   \<and> encode_compact_u32 1073741824 \<noteq> Ok (scale_compact_u32 1073741824)
   \<and> scale_compact_u32 1073741824 = [0x03, 0x00, 0x00, 0x00, 0x40]"
  using encode_compact_u32_scale_iff [of 50] encode_compact_u32_scale_iff [of 1073741824]
  by (simp add: scale_compact_u32_def to_le_numeral)

end
