(* ===== verification/Payload_Encoder.thy ===== *)
theory Payload_Encoder
  imports Compact_Encoder Pulse_Validator
begin

text \<open>
  The payload encoder of \<^verbatim>\<open>src/ocw.py\<close>: \<^verbatim>\<open>encode_pulse\<close> (lines 66-72) and
  \<^verbatim>\<open>encode_pulses_payload\<close> (lines 74-90), whose output is the byte string that is
  signed. Beside them the layout the encoding is meant to have, the payloads that can
  be encoded, and a decoder. The lemmas show that the loop of
  \<^verbatim>\<open>encode_pulses_payload\<close> writes what \<^verbatim>\<open>encode_pulse\<close> writes, that the encoder
  succeeds exactly on the encodable payloads and then produces the layout, that the
  decoder inverts it, and hence that two payloads with the same encoding are equal.
  The types the specification gives the fields are the predicates \<open>typed_pulse\<close> and
  \<open>typed_payload\<close>; an encoded payload with 1 to 50 pulses of 32 bytes of randomness is
  typed.
\<close>

section \<open>The payload\<close>

text \<open>
  The dictionary \<^verbatim>\<open>submit_new_pulses\<close> builds (lines 131-135). The block number
  comes from the chain client and is an integer.
\<close>

record pulses_payload =
  block_number :: int
  pulses :: "pulse list"
  public :: bytes

section \<open>The encoders\<close>

text \<open>\<^verbatim>\<open>x.to_bytes(n, 'little')\<close> on a JSON value: only an integer has the method.\<close>

definition jval_to_bytes :: "jval \<Rightarrow> nat \<Rightarrow> bytes result" where
  "jval_to_bytes x n = (case x of JInt v \<Rightarrow> to_bytes v n | _ \<Rightarrow> Raise AttributeError)"

definition encode_pulse :: "pulse \<Rightarrow> bytes result" where
  "encode_pulse pulse =
     bind_res (jval_to_bytes (round_num pulse) 8) (\<lambda>encoded.
     bind_res (encode_compact_u32 (int (length (randomness pulse)))) (\<lambda>c.
     let encoded = encoded @ c;
         encoded = encoded @ randomness pulse in
     bind_res (encode_compact_u32 (int (length (signature pulse)))) (\<lambda>c.
     let encoded = encoded @ c;
         encoded = encoded @ signature pulse in
     Ok encoded)))"

text \<open>
  The \<^verbatim>\<open>for\<close> loop of \<^verbatim>\<open>encode_pulses_payload\<close> (lines 79-84), with the bytes written
  so far as its state. It repeats the body of \<^verbatim>\<open>encode_pulse\<close> and does not call it.
\<close>

fun encode_pulses_loop :: "bytes \<Rightarrow> pulse list \<Rightarrow> bytes result" where
  "encode_pulses_loop encoded [] = Ok encoded"
| "encode_pulses_loop encoded (p # ps) =
     bind_res (jval_to_bytes (round_num p) 8) (\<lambda>r.
     let encoded = encoded @ r in
     bind_res (encode_compact_u32 (int (length (randomness p)))) (\<lambda>c.
     let encoded = encoded @ c;
         encoded = encoded @ randomness p in
     bind_res (encode_compact_u32 (int (length (signature p)))) (\<lambda>c.
     let encoded = encoded @ c;
         encoded = encoded @ signature p in
     encode_pulses_loop encoded ps)))"

definition encode_pulses_payload :: "pulses_payload \<Rightarrow> bytes result" where
  "encode_pulses_payload pulses_payload =
     bind_res (to_bytes (block_number pulses_payload) 4) (\<lambda>encoded.
     let pulses_list = pulses pulses_payload in
     bind_res (encode_compact_u32 (int (length pulses_list))) (\<lambda>c.
     let encoded = encoded @ c in
     bind_res (encode_pulses_loop encoded pulses_list) (\<lambda>encoded.
     let encoded = encoded @ [0x01];
         encoded = encoded @ public pulses_payload in
     Ok encoded)))"

section \<open>The layout\<close>

text \<open>
  What the encoding is meant to be: the round in 8 bytes, each byte string behind its
  compact length; the block number in 4 bytes, the compact count, the pulses in
  order, the byte 1 for the Sr25519 variant, the key.
\<close>

definition round_int :: "pulse \<Rightarrow> int" where
  "round_int p = (case round_num p of JInt r \<Rightarrow> r | _ \<Rightarrow> 0)"

definition field_bytes :: "bytes \<Rightarrow> bytes" where
  "field_bytes xs = compact_bytes (int (length xs)) @ xs"

definition pulse_bytes :: "pulse \<Rightarrow> bytes" where
  "pulse_bytes p = to_le 8 (round_int p) @ field_bytes (randomness p) @ field_bytes (signature p)"

definition payload_bytes :: "pulses_payload \<Rightarrow> bytes" where
  "payload_bytes pp =
     to_le 4 (block_number pp) @ compact_bytes (int (length (pulses pp)))
       @ concat (map pulse_bytes (pulses pp)) @ 0x01 # public pp"

section \<open>The payloads that can be encoded\<close>

definition encodable_pulse :: "pulse \<Rightarrow> bool" where
  "encodable_pulse p \<longleftrightarrow>
     (case round_num p of JInt r \<Rightarrow> 0 \<le> r \<and> r < 2 ^ 64 | _ \<Rightarrow> False)
     \<and> int (length (randomness p)) < compact_limit
     \<and> int (length (signature p)) < compact_limit"

definition encodable_payload :: "pulses_payload \<Rightarrow> bool" where
  "encodable_payload pp \<longleftrightarrow>
     0 \<le> block_number pp \<and> block_number pp < 2 ^ 32
     \<and> int (length (pulses pp)) < compact_limit
     \<and> list_all encodable_pulse (pulses pp)"

section \<open>The data model\<close>

text \<open>
  The types the specification gives the fields (section 3): a round is an unsigned
  64-bit number, randomness is exactly 32 bytes, a block number is an unsigned 32-bit
  number, and a payload carries between 1 and 50 pulses. Python has no such types; the
  predicates say when a value of the model has them. The length of the public key is left
  open, as the program takes the key as the key pair gives it. Specifications; they model
  no line of the program.
\<close>

definition typed_pulse :: "pulse \<Rightarrow> bool" where
  "typed_pulse p \<longleftrightarrow>
     (case round_num p of JInt r \<Rightarrow> 0 \<le> r \<and> r < 2 ^ 64 | _ \<Rightarrow> False)
     \<and> length (randomness p) = 32"

definition typed_payload :: "pulses_payload \<Rightarrow> bool" where
  "typed_payload pp \<longleftrightarrow>
     0 \<le> block_number pp \<and> block_number pp < 2 ^ 32
     \<and> pulses pp \<noteq> [] \<and> length (pulses pp) \<le> 50
     \<and> list_all typed_pulse (pulses pp)"

section \<open>A decoder\<close>

definition decode_field :: "bytes \<Rightarrow> (bytes \<times> bytes) option" where
  "decode_field bs =
     (case decode_compact bs of
        None \<Rightarrow> None
      | Some (n, rest) \<Rightarrow>
          if int (length rest) < n then None else Some (take (nat n) rest, drop (nat n) rest))"

definition decode_pulse :: "bytes \<Rightarrow> (pulse \<times> bytes) option" where
  "decode_pulse bs =
     (if length bs < 8 then None
      else case decode_field (drop 8 bs) of
        None \<Rightarrow> None
      | Some (r, rest) \<Rightarrow>
          (case decode_field rest of
             None \<Rightarrow> None
           | Some (s, rest') \<Rightarrow>
               Some (\<lparr>round_num = JInt (from_le (take 8 bs)), randomness = r, signature = s\<rparr>,
                     rest')))"

fun decode_pulses :: "nat \<Rightarrow> bytes \<Rightarrow> (pulse list \<times> bytes) option" where
  "decode_pulses 0 bs = Some ([], bs)"
| "decode_pulses (Suc n) bs =
     (case decode_pulse bs of
        None \<Rightarrow> None
      | Some (p, rest) \<Rightarrow>
          (case decode_pulses n rest of
             None \<Rightarrow> None
           | Some (ps, rest') \<Rightarrow> Some (p # ps, rest')))"

definition decode_pulses_payload :: "bytes \<Rightarrow> pulses_payload option" where
  "decode_pulses_payload bs =
     (if length bs < 4 then None
      else case decode_compact (drop 4 bs) of
        None \<Rightarrow> None
      | Some (n, rest) \<Rightarrow>
          (case decode_pulses (nat n) rest of
             None \<Rightarrow> None
           | Some (ps, rest') \<Rightarrow>
               (case rest' of
                  [] \<Rightarrow> None
                | tag # key \<Rightarrow>
                    if tag = 0x01
                    then Some \<lparr>block_number = from_le (take 4 bs), pulses = ps, public = key\<rparr>
                    else None)))"

section \<open>Example payloads\<close>

text \<open>Concrete payloads for the witnesses: one pulse of round \<open>r\<close> at block 7.\<close>

definition ex_pulse :: "int \<Rightarrow> pulse" where
  "ex_pulse r = \<lparr>round_num = JInt r, randomness = replicate 32 0xAB, signature = [1, 2, 3]\<rparr>"

definition ex_payload :: "int \<Rightarrow> pulses_payload" where
  "ex_payload r = \<lparr>block_number = 7, pulses = [ex_pulse r], public = [9, 9]\<rparr>"

definition ex_bytes :: "byte \<Rightarrow> bytes" where
  "ex_bytes r =
     [7, 0, 0, 0, 4, r, 0, 0, 0, 0, 0, 0, 0, 128] @ replicate 32 0xAB @ [12, 1, 2, 3, 1, 9, 9]"

text \<open>The size of a pulse in the layout.\<close>

definition pulse_size :: "pulse \<Rightarrow> nat" where
  "pulse_size p =
     8 + compact_width (int (length (randomness p))) + length (randomness p)
       + compact_width (int (length (signature p))) + length (signature p)"

section \<open>One pulse\<close>

lemma jval_to_bytes_Ok_iff [res_simps]:
  "jval_to_bytes x n = Ok bs \<longleftrightarrow> (\<exists>v. x = JInt v \<and> 0 \<le> v \<and> v < 256 ^ n \<and> bs = to_le n v)"
  by (cases x) (auto simp: jval_to_bytes_def res_simps)

lemma jval_to_bytes_simps [simp]:
  "jval_to_bytes (JInt v) n = to_bytes v n"
  "\<not> is_integer x \<Longrightarrow> jval_to_bytes x n = Raise AttributeError"
  by (cases x; simp add: jval_to_bytes_def)+

lemma encodable_pulse_round:
  "encodable_pulse p \<Longrightarrow> round_num p = JInt (round_int p) \<and> 0 \<le> round_int p \<and> round_int p < 2 ^ 64"
  by (auto simp: encodable_pulse_def round_int_def split: jval.splits)

lemma encode_length_field:
  "int (length xs) < compact_limit \<Longrightarrow>
     encode_compact_u32 (int (length xs)) = Ok (compact_bytes (int (length xs)))"
  by (simp add: encode_compact_u32_bytes)

lemma encode_pulse_encodable: "encodable_pulse p \<Longrightarrow> encode_pulse p = Ok (pulse_bytes p)"
proof -
  assume p: "encodable_pulse p"
  then have "jval_to_bytes (round_num p) 8 = Ok (to_le 8 (round_int p))"
    using encodable_pulse_round [of p] by (simp add: to_bytes_in_range)
  with p show ?thesis
    by (simp add: encode_pulse_def encodable_pulse_def encode_length_field pulse_bytes_def
        field_bytes_def)
qed

lemma encode_pulse_Ok_encodable: "encode_pulse p = Ok bs \<Longrightarrow> encodable_pulse p"
  by (auto simp: encode_pulse_def encodable_pulse_def res_simps encode_compact_u32_Ok_iff Let_def)

lemma encode_pulse_Ok_iff [res_simps]:
  "encode_pulse p = Ok bs \<longleftrightarrow> encodable_pulse p \<and> bs = pulse_bytes p"
  using encode_pulse_encodable [of p] encode_pulse_Ok_encodable [of p bs] by auto

section \<open>The loop\<close>

lemma encode_pulses_loop_step:
  "encode_pulses_loop encoded (p # ps) =
     bind_res (encode_pulse p) (\<lambda>e. encode_pulses_loop (encoded @ e) ps)"
  by (simp add: encode_pulse_def bind_res_assoc Let_def)

lemma encode_pulses_loop_map:
  "encode_pulses_loop encoded ps =
     bind_res (map_res encode_pulse ps) (\<lambda>es. Ok (encoded @ concat es))"
proof (induction ps arbitrary: encoded)
  case Nil
  show ?case by simp
next
  case (Cons p ps)
  show ?case
    by (simp only: encode_pulses_loop_step Cons.IH map_res.simps bind_res_assoc)
      (simp add: bind_res_assoc cong: sum.case_cong)
qed

lemma map_res_encode_pulse_Ok_iff:
  "map_res encode_pulse ps = Ok es \<longleftrightarrow> list_all encodable_pulse ps \<and> es = map pulse_bytes ps"
  by (induction ps arbitrary: es) (auto simp: res_simps)

lemma encode_pulses_loop_Ok_iff [res_simps]:
  "encode_pulses_loop encoded ps = Ok bs \<longleftrightarrow>
     list_all encodable_pulse ps \<and> bs = encoded @ concat (map pulse_bytes ps)"
  by (auto simp: encode_pulses_loop_map res_simps map_res_encode_pulse_Ok_iff)

section \<open>The payload\<close>

lemma encode_pulses_payload_Ok_iff:
  "encode_pulses_payload pp = Ok bs \<longleftrightarrow> encodable_payload pp \<and> bs = payload_bytes pp"
  by (auto simp: encode_pulses_payload_def encodable_payload_def payload_bytes_def Let_def
      res_simps encode_compact_u32_Ok_iff)

lemma encode_pulses_payload_encodable:
  "encodable_payload pp \<Longrightarrow> encode_pulses_payload pp = Ok (payload_bytes pp)"
  by (simp add: encode_pulses_payload_Ok_iff)

section \<open>Typed payloads\<close>

lemma typed_pulse_iff:
  "typed_pulse p \<longleftrightarrow>
     (\<exists>r. round_num p = JInt r \<and> 0 \<le> r \<and> r < 2 ^ 64) \<and> length (randomness p) = 32"
  by (auto simp: typed_pulse_def split: jval.splits)

lemma encodable_typed_pulse:
  "encodable_pulse p \<Longrightarrow> length (randomness p) = 32 \<Longrightarrow> typed_pulse p"
  by (auto simp: encodable_pulse_def typed_pulse_def split: jval.splits)

lemma typed_encodable_pulse:
  "typed_pulse p \<Longrightarrow> int (length (signature p)) < compact_limit \<Longrightarrow> encodable_pulse p"
  by (auto simp: encodable_pulse_def typed_pulse_def split: jval.splits)

text \<open>What the encoder accepts from the validator and the gate is typed.\<close>

lemma encoded_typed_payload:
  assumes "encode_pulses_payload pp = Ok bs"
    and "pulses pp \<noteq> []" and "length (pulses pp) \<le> 50"
    and "\<forall>p \<in> set (pulses pp). length (randomness p) = 32"
  shows "typed_payload pp"
  using assms
  by (auto simp: encode_pulses_payload_Ok_iff encodable_payload_def typed_payload_def
      list_all_iff intro: encodable_typed_pulse)

text \<open>A typed payload whose signatures have a compact length is encoded.\<close>

lemma typed_payload_encodable:
  assumes "typed_payload pp"
    and "\<forall>p \<in> set (pulses pp). int (length (signature p)) < compact_limit"
  shows "encodable_payload pp"
  using assms
  by (auto simp: encodable_payload_def typed_payload_def list_all_iff
      intro: typed_encodable_pulse)

section \<open>Decoding the layout\<close>

lemma decode_field_bytes:
  "int (length xs) < compact_limit \<Longrightarrow> decode_field (field_bytes xs @ rest) = Some (xs, rest)"
  by (simp add: decode_field_def field_bytes_def decode_compact_bytes)

lemma decode_pulse_bytes:
  assumes "encodable_pulse p"
  shows "decode_pulse (pulse_bytes p @ rest) = Some (p, rest)"
proof -
  let ?r = "to_le 8 (round_int p)"
  let ?tail = "field_bytes (randomness p) @ field_bytes (signature p) @ rest"
  have bs: "pulse_bytes p @ rest = ?r @ ?tail"
    by (simp add: pulse_bytes_def)
  have len: "length ?r = 8"
    by simp
  from assms have "from_le ?r = round_int p"
    using encodable_pulse_round [of p] by (intro from_le_to_le) simp_all
  with assms have "JInt (from_le (take 8 (?r @ ?tail))) = round_num p"
    using encodable_pulse_round [of p] by (simp only: take_length_append [OF len])
  moreover have "drop 8 (?r @ ?tail) = ?tail"
    by (rule drop_length_append [OF len])
  moreover from assms have "decode_field ?tail = Some (randomness p, field_bytes (signature p) @ rest)"
    by (simp add: decode_field_bytes encodable_pulse_def)
  moreover from assms have "decode_field (field_bytes (signature p) @ rest) = Some (signature p, rest)"
    by (simp add: decode_field_bytes encodable_pulse_def)
  ultimately show ?thesis
    unfolding bs decode_pulse_def by (simp del: to_le.simps)
qed

lemma decode_pulses_bytes:
  "list_all encodable_pulse ps \<Longrightarrow>
     decode_pulses (length ps) (concat (map pulse_bytes ps) @ rest) = Some (ps, rest)"
  by (induction ps) (simp_all add: decode_pulse_bytes)

lemma decode_payload_bytes:
  assumes "encodable_payload pp"
  shows "decode_pulses_payload (payload_bytes pp) = Some pp"
proof -
  let ?b = "to_le 4 (block_number pp)"
  let ?n = "int (length (pulses pp))"
  let ?ps = "concat (map pulse_bytes (pulses pp)) @ 0x01 # public pp"
  have bs: "payload_bytes pp = ?b @ compact_bytes ?n @ ?ps"
    by (simp add: payload_bytes_def)
  have len: "length ?b = 4"
    by simp
  from assms have "from_le ?b = block_number pp"
    by (intro from_le_to_le) (simp_all add: encodable_payload_def)
  then have "from_le (take 4 (?b @ compact_bytes ?n @ ?ps)) = block_number pp"
    by (simp only: take_length_append [OF len])
  moreover have "drop 4 (?b @ compact_bytes ?n @ ?ps) = compact_bytes ?n @ ?ps"
    by (rule drop_length_append [OF len])
  moreover from assms have "decode_compact (compact_bytes ?n @ ?ps) = Some (?n, ?ps)"
    by (simp add: decode_compact_bytes encodable_payload_def)
  moreover from assms have "decode_pulses (nat ?n) ?ps = Some (pulses pp, 0x01 # public pp)"
    using decode_pulses_bytes [of "pulses pp" "0x01 # public pp"]
    by (simp add: encodable_payload_def)
  ultimately show ?thesis
    unfolding bs decode_pulses_payload_def by (simp del: to_le.simps)
qed

lemma payload_bytes_inj:
  assumes "encodable_payload pp" "encodable_payload pp'" "payload_bytes pp = payload_bytes pp'"
  shows "pp = pp'"
proof -
  from assms(1) have "Some pp = decode_pulses_payload (payload_bytes pp)"
    by (simp only: decode_payload_bytes)
  also have "\<dots> = decode_pulses_payload (payload_bytes pp')"
    by (simp only: assms(3))
  also from assms(2) have "\<dots> = Some pp'"
    by (rule decode_payload_bytes)
  finally show ?thesis
    by (simp only: option.inject)
qed

section \<open>Exceptions\<close>

lemma jval_to_bytes_Raise:
  "jval_to_bytes x n = Raise e \<Longrightarrow> e = OverflowError \<or> e = AttributeError"
  by (cases x) (auto simp: res_simps)

lemma encode_pulse_Raise: "encode_pulse p = Raise e \<Longrightarrow> e = OverflowError \<or> e = AttributeError"
  by (auto simp: encode_pulse_def Let_def res_simps encode_compact_u32_Raise_iff
      dest: jval_to_bytes_Raise)

lemma encode_pulses_loop_Raise:
  "encode_pulses_loop encoded ps = Raise e \<Longrightarrow> e = OverflowError \<or> e = AttributeError"
  by (auto simp: encode_pulses_loop_map res_simps dest!: map_res_Raise encode_pulse_Raise)

lemma encode_pulses_payload_Raise:
  "encode_pulses_payload pp = Raise e \<Longrightarrow> e = OverflowError \<or> e = AttributeError"
  by (auto simp: encode_pulses_payload_def Let_def res_simps encode_compact_u32_Raise_iff
      dest: encode_pulses_loop_Raise)

lemma encode_pulse_no_integer:
  "\<not> is_integer (round_num p) \<Longrightarrow> encode_pulse p = Raise AttributeError"
  by (simp add: encode_pulse_def)

section \<open>Sizes\<close>

lemma length_field_bytes [simp, enc_length]:
  "length (field_bytes xs) = compact_width (int (length xs)) + length xs"
  by (simp add: field_bytes_def)

lemma length_pulse_bytes [simp, enc_length]: "length (pulse_bytes p) = pulse_size p"
  by (simp add: pulse_bytes_def pulse_size_def)

lemma length_payload_bytes [enc_length]:
  "length (payload_bytes pp) =
     4 + compact_width (int (length (pulses pp))) + sum_list (map pulse_size (pulses pp))
       + 1 + length (public pp)"
  by (simp add: payload_bytes_def length_concat comp_def)

section \<open>The examples\<close>

lemma ex_payload_encodable: "encodable_payload (ex_payload 10)"
  by (simp add: encodable_payload_def encodable_pulse_def ex_payload_def ex_pulse_def)

lemma ex_payload_bytes: "payload_bytes (ex_payload 10) = ex_bytes 10"
  by (simp add: payload_bytes_def pulse_bytes_def field_bytes_def compact_bytes_def
      compact_width_def compact_tag_def round_int_def ex_payload_def ex_pulse_def ex_bytes_def
      to_le_numeral)

lemma ex_payload_encoded: "encode_pulses_payload (ex_payload 10) = Ok (ex_bytes 10)"
  using ex_payload_encodable ex_payload_bytes by (simp add: encode_pulses_payload_Ok_iff)

lemma ex_payload_encoded_11: "encode_pulses_payload (ex_payload 11) = Ok (ex_bytes 11)"
  by (simp add: encode_pulses_payload_def ex_payload_def ex_pulse_def ex_bytes_def
      encode_compact_u32_tiers to_bytes_def to_le_numeral)

section \<open>The properties of the payload encoder\<close>

text \<open>
  C9. The encoding determines the payload: two payloads that \<^verbatim>\<open>encode_pulses_payload\<close>
  turns into the same byte string are equal. So changing the block number, the round,
  randomness or signature of a pulse, the number or order of the pulses, or the public
  key changes the bytes that are signed.
\<close>

theorem encode_pulses_payload_injective:
  assumes "encode_pulses_payload pp = Ok bs" and "encode_pulses_payload pp' = Ok bs"
  shows "pp = pp'"
  using assms by (auto simp: encode_pulses_payload_Ok_iff intro: payload_bytes_inj)

theorem encode_pulses_payload_injective_witness:
  "encode_pulses_payload (ex_payload 10) = Ok (ex_bytes 10)
   \<and> encode_pulses_payload (ex_payload 11) \<noteq> Ok (ex_bytes 10)"
proof -
  have "ex_payload 10 \<noteq> ex_payload 11"
    by (simp add: ex_payload_def ex_pulse_def)
  with encode_pulses_payload_injective [OF ex_payload_encoded, of "ex_payload 11"]
  show ?thesis
    using ex_payload_encoded by blast
qed

text \<open>
  C10. Decoding inverts encoding: whenever \<^verbatim>\<open>encode_pulses_payload\<close> returns a byte
  string, the decoder reads the payload back from it, with every field as it was.
\<close>

theorem decode_encode_pulses_payload:
  assumes "encode_pulses_payload pp = Ok bs"
  shows "decode_pulses_payload bs = Some pp"
  using assms by (simp add: encode_pulses_payload_Ok_iff decode_payload_bytes)

theorem decode_encode_pulses_payload_witness:
  "encode_pulses_payload (ex_payload 10) = Ok (ex_bytes 10)
   \<and> decode_pulses_payload (ex_bytes 10) = Some (ex_payload 10)"
  using decode_encode_pulses_payload [OF ex_payload_encoded] ex_payload_encoded by simp

text \<open>
  C15. \<^verbatim>\<open>encode_pulses_payload\<close> returns a byte string exactly for the encodable
  payloads (block number in 32 bits, every round an integer in 64 bits, every length
  and the number of pulses below \<open>2 ^ 38\<close>), and the byte string is the layout: block
  number in 4 bytes, compact count, for each pulse in order the round in 8 bytes and
  the two byte strings behind their compact lengths, the byte 1, the public key.
\<close>

theorem encode_pulses_payload_layout:
  "encode_pulses_payload pp = Ok bs \<longleftrightarrow> encodable_payload pp \<and> bs = payload_bytes pp"
  by (rule encode_pulses_payload_Ok_iff)

theorem encode_pulses_payload_layout_witness:
  "encodable_payload (ex_payload 10) \<and> payload_bytes (ex_payload 10) = ex_bytes 10
   \<and> encode_pulses_payload (ex_payload 10) = Ok (ex_bytes 10)"
  using encode_pulses_payload_layout [of "ex_payload 10" "ex_bytes 10"]
    ex_payload_encodable ex_payload_bytes by simp

text \<open>
  C27. The loop of \<^verbatim>\<open>encode_pulses_payload\<close>, which repeats the body of
  \<^verbatim>\<open>encode_pulse\<close>, appends to the bytes written so far exactly what \<^verbatim>\<open>encode_pulse\<close>
  returns for each pulse, in order, and raises what the first failing
  \<^verbatim>\<open>encode_pulse\<close> raises.
\<close>

theorem encode_pulses_loop_encode_pulse:
  "encode_pulses_loop encoded ps =
     bind_res (map_res encode_pulse ps) (\<lambda>es. Ok (encoded @ concat es))"
  by (rule encode_pulses_loop_map)

text \<open>
  C28. If \<^verbatim>\<open>encode_pulses_payload\<close> raises, it raises \<^verbatim>\<open>OverflowError\<close> (a number or a
  length out of range) or \<^verbatim>\<open>AttributeError\<close> (a round that is a string), and it
  raises on every payload that is not encodable.
\<close>

theorem encode_pulses_payload_raises:
  assumes "\<not> encodable_payload pp"
  shows "\<exists>e. encode_pulses_payload pp = Raise e \<and> (e = OverflowError \<or> e = AttributeError)"
proof (cases "encode_pulses_payload pp")
  case (Inl e)
  then show ?thesis
    by (auto dest: encode_pulses_payload_Raise)
next
  case (Inr bs)
  with assms show ?thesis
    by (simp add: encode_pulses_payload_Ok_iff)
qed

theorem encode_pulses_payload_raises_witness:
  "\<not> encodable_payload (ex_payload (- 1))
   \<and> encode_pulses_payload (ex_payload (- 1)) = Raise OverflowError"
proof -
  have ne: "\<not> encodable_payload (ex_payload (- 1))"
    by (simp add: encodable_payload_def encodable_pulse_def ex_payload_def ex_pulse_def)
  have "encode_pulses_payload (ex_payload (- 1)) \<noteq> Raise AttributeError"
    by (simp add: encode_pulses_payload_def ex_payload_def ex_pulse_def
        encode_compact_u32_tiers to_bytes_def to_le_numeral)
  with encode_pulses_payload_raises [OF ne] ne show ?thesis
    by auto
qed

text \<open>
  The size of an encoding: 4 bytes of block number, the compact count, the pulses
  (each 8 bytes of round and two byte strings with their compact lengths), one byte of
  variant and the key.
\<close>

theorem encode_pulses_payload_length:
  assumes "encode_pulses_payload pp = Ok bs"
  shows "length bs =
     4 + compact_width (int (length (pulses pp))) + sum_list (map pulse_size (pulses pp))
       + 1 + length (public pp)"
  using assms by (simp add: encode_pulses_payload_Ok_iff length_payload_bytes)

theorem encode_pulses_payload_length_witness:
  "encode_pulses_payload (ex_payload 10) = Ok (ex_bytes 10) \<and> length (ex_bytes 10) = 53"
  using encode_pulses_payload_length [OF ex_payload_encoded] ex_payload_encoded
  by (simp add: ex_payload_def ex_pulse_def pulse_size_def compact_width_def)

text \<open>
  C29. A pulse whose round came as a JSON value that is no integer (a string, \<^verbatim>\<open>null\<close>,
  an array, an object) passes \<^verbatim>\<open>try_into_pulse\<close>, which does not look at the round,
  and fails only in the encoder, with \<^verbatim>\<open>AttributeError\<close>.
\<close>

theorem string_round_passes_validation:
  assumes "try_into_pulse d = Ok p" and "field_of d ''round'' = Some v" and "\<not> is_integer v"
  shows "encode_pulse p = Raise AttributeError"
proof -
  from assms have "\<not> is_integer (round_num p)"
    by (auto dest: try_into_pulse_round)
  then show ?thesis
    by (rule encode_pulse_no_integer)
qed

theorem string_round_passes_validation_witness:
  "try_into_pulse (resp_of_pulse \<lparr>round_num = JStr ''10'', randomness = replicate 32 0, signature = []\<rparr>)
     = Ok \<lparr>round_num = JStr ''10'', randomness = replicate 32 0, signature = []\<rparr>
   \<and> encode_pulse \<lparr>round_num = JStr ''10'', randomness = replicate 32 0, signature = []\<rparr>
     = Raise AttributeError"
proof -
  let ?p = "\<lparr>round_num = JStr ''10'', randomness = replicate 32 0, signature = []\<rparr>"
  have ok: "try_into_pulse (resp_of_pulse ?p) = Ok ?p"
    by (simp add: try_into_pulse_resp_of_pulse)
  have "field_of (resp_of_pulse ?p) ''round'' = Some (JStr ''10'')"
    by simp
  with string_round_passes_validation [OF ok] ok show ?thesis
    by simp
qed

end
