(* ===== verification/Submitter.thy ===== *)
theory Submitter
  imports Endpoint_Fetcher Payload_Encoder
begin

text \<open>
  The submitter of \<^verbatim>\<open>src/ocw.py\<close>: lines 130-173 of \<^verbatim>\<open>submit_new_pulses\<close>, from the
  encoding of the payload to the line printed from the receipt, with the call
  parameters as the records the code builds. The chain, the key pair and the standard
  output join the network and the clock in the record \<open>world\<close>. \<^verbatim>\<open>compose_call\<close> and
  \<^verbatim>\<open>create_unsigned_extrinsic\<close> are taken to build the call they are asked for; every
  other call of the client can raise.
\<close>

section \<open>The chain call\<close>

text \<open>The tagged union \<^verbatim>\<open>{"Sr25519": "0x..."}\<close> of the call parameters.\<close>

datatype multi_signer = Sr25519 string

text \<open>A pulse as the call carries it (lines 140-144): the byte strings as hexadecimal text.\<close>

record pulse_for_call =
  call_round :: jval
  call_randomness :: string
  call_signature :: string

text \<open>\<^verbatim>\<open>pulses_payload_for_call\<close> (lines 146-152).\<close>

record payload_for_call =
  call_block_number :: int
  call_pulses :: "pulse_for_call list"
  call_public :: multi_signer

text \<open>The call that \<^verbatim>\<open>compose_call\<close> is asked for (lines 158-165).\<close>

record call =
  call_module :: string
  call_function :: string
  param_pulses_payload :: payload_for_call
  param_signature :: multi_signer

text \<open>\<^verbatim>\<open>create_unsigned_extrinsic\<close> wraps the call and adds no signature of its own.\<close>

datatype extrinsic = Unsigned_extrinsic call

record receipt =
  is_success :: bool
  error_message :: string

section \<open>The world of a cycle\<close>

text \<open>
  The world of the fetcher, and: \<open>query\<close>, what \<^verbatim>\<open>substrate.query(...).value\<close> is for a
  module and a storage function, or the exception of the client; the public key and
  the signing function of the key pair; \<open>submit n x\<close>, what \<^verbatim>\<open>submit_extrinsic\<close> comes to
  for the extrinsic \<open>x\<close> when \<open>n\<close> extrinsics have been submitted before, a receipt or an
  exception; the extrinsics submitted and the lines printed, oldest first. Query,
  key pair and submission are parameters of the model; nothing is assumed of them.
\<close>

record world = net_world +
  query :: "string \<Rightarrow> string \<Rightarrow> int option result"
  public_key :: bytes
  sign :: "bytes \<Rightarrow> bytes"
  submit :: "nat \<Rightarrow> extrinsic \<Rightarrow> receipt result"
  submitted :: "extrinsic list"
  printed :: "string list"

definition substrate_query :: "string \<Rightarrow> string \<Rightarrow> (int option, 'a world_scheme) io" where
  "substrate_query module storage_function w = (query w module storage_function, w)"

definition print :: "string \<Rightarrow> (unit, 'a world_scheme) io" where
  "print s w = (Ok (), w\<lparr>printed := printed w @ [s]\<rparr>)"

definition submit_extrinsic :: "extrinsic \<Rightarrow> (receipt, 'a world_scheme) io" where
  "submit_extrinsic x w = (submit w (length (submitted w)) x, w\<lparr>submitted := submitted w @ [x]\<rparr>)"

section \<open>The submitter\<close>

text \<open>Lines 138-144.\<close>

definition pulses_for_call_of :: "pulse list \<Rightarrow> pulse_for_call list" where
  "pulses_for_call_of pulse_list =
     map (\<lambda>p. \<lparr>call_round = round_num p,
               call_randomness = ''0x'' @ bytes_hex (randomness p),
               call_signature = ''0x'' @ bytes_hex (signature p)\<rparr>) pulse_list"

text \<open>Lines 146-165.\<close>

definition compose_write_pulse :: "int \<Rightarrow> pulse list \<Rightarrow> bytes \<Rightarrow> bytes \<Rightarrow> call" where
  "compose_write_pulse current_block pulse_list public_bytes signature_bytes =
     (let pulses_payload_for_call =
            \<lparr>call_block_number = current_block,
             call_pulses = pulses_for_call_of pulse_list,
             call_public = Sr25519 (''0x'' @ bytes_hex public_bytes)\<rparr>;
          signature_for_call = Sr25519 (''0x'' @ bytes_hex signature_bytes)
      in \<lparr>call_module = ''Drand'', call_function = ''write_pulse'',
          param_pulses_payload = pulses_payload_for_call,
          param_signature = signature_for_call\<rparr>)"

text \<open>
  Lines 130-173: encode, sign, compose, submit, and print what the receipt says. The
  last two arguments are only printed.
\<close>

definition sign_and_submit ::
  "int \<Rightarrow> pulse list \<Rightarrow> int \<Rightarrow> int \<Rightarrow> (unit, 'a world_scheme) io" where
  "sign_and_submit current_block pulse_list last_stored_round rounds_to_fetch w =
     (let public_bytes = public_key w in
      bind_io (lift_res (encode_pulses_payload
          \<lparr>block_number = current_block, pulses = pulse_list, public = public_bytes\<rparr>))
        (\<lambda>encoded_payload.
      let signature_bytes = sign w encoded_payload;
          call = compose_write_pulse current_block pulse_list public_bytes signature_bytes;
          extrinsic = Unsigned_extrinsic call in
      bind_io (submit_extrinsic extrinsic) (\<lambda>receipt.
      if is_success receipt
      then print (''Successfully submitted pulses from round '' @ str_int (last_stored_round + 1)
                    @ '' up to '' @ str_int (last_stored_round + rounds_to_fetch))
      else print (''Failed to submit: '' @ error_message receipt))) w)"

section \<open>What the submitter does\<close>

text \<open>What the submitter hands to the chain for a list of pulses, in the world \<open>w\<close>.\<close>

definition extrinsic_of :: "int \<Rightarrow> pulse list \<Rightarrow> bytes \<Rightarrow> 'a world_scheme \<Rightarrow> extrinsic" where
  "extrinsic_of current_block ps encoded w =
     Unsigned_extrinsic (compose_write_pulse current_block ps (public_key w) (sign w encoded))"

lemma sign_and_submit_raise:
  assumes "encode_pulses_payload \<lparr>block_number = b, pulses = ps, public = public_key w\<rparr> = Raise e"
  shows "sign_and_submit b ps l n w = (Raise e, w)"
  using assms by (simp add: sign_and_submit_def Let_def)

lemma sign_and_submit_Ok:
  assumes "encode_pulses_payload \<lparr>block_number = b, pulses = ps, public = public_key w\<rparr> = Ok bs"
  shows "\<exists>r out. sign_and_submit b ps l n w =
            (r, w\<lparr>submitted := submitted w @ [extrinsic_of b ps bs w], printed := printed w @ out\<rparr>)
          \<and> (case submit w (length (submitted w)) (extrinsic_of b ps bs w) of
                Inl e \<Rightarrow> r = Raise e \<and> out = []
              | Inr rc \<Rightarrow> r = Ok () \<and>
                  out = [if is_success rc
                         then ''Successfully submitted pulses from round '' @ str_int (l + 1)
                                @ '' up to '' @ str_int (l + n)
                         else ''Failed to submit: '' @ error_message rc])"
  using assms
  by (cases "submit w (length (submitted w)) (extrinsic_of b ps bs w)")
    (simp_all add: sign_and_submit_def Let_def submit_extrinsic_def bind_io_def lift_res_def
      print_def extrinsic_of_def)

lemma sign_and_submit_net:
  "http (snd (sign_and_submit b ps l n w)) = http w"
  "requests (snd (sign_and_submit b ps l n w)) = requests w"
  "now (snd (sign_and_submit b ps l n w)) = now w"
proof (atomize (full), cases "encode_pulses_payload \<lparr>block_number = b, pulses = ps, public = public_key w\<rparr>")
  case (Inl e)
  then show "http (snd (sign_and_submit b ps l n w)) = http w
      \<and> requests (snd (sign_and_submit b ps l n w)) = requests w
      \<and> now (snd (sign_and_submit b ps l n w)) = now w"
    by (simp add: sign_and_submit_raise)
next
  case (Inr bs)
  from sign_and_submit_Ok [OF this, of l n] obtain r out where
    "sign_and_submit b ps l n w =
       (r, w\<lparr>submitted := submitted w @ [extrinsic_of b ps bs w], printed := printed w @ out\<rparr>)"
    by blast
  then show "http (snd (sign_and_submit b ps l n w)) = http w
      \<and> requests (snd (sign_and_submit b ps l n w)) = requests w
      \<and> now (snd (sign_and_submit b ps l n w)) = now w"
    by simp
qed

lemma sign_and_submit_submitted:
  assumes "encodable_payload \<lparr>block_number = b, pulses = ps, public = public_key w\<rparr>"
  shows "submitted (snd (sign_and_submit b ps l n w)) = submitted w @
      [Unsigned_extrinsic (compose_write_pulse b ps (public_key w)
         (sign w (payload_bytes \<lparr>block_number = b, pulses = ps, public = public_key w\<rparr>)))]"
  using sign_and_submit_Ok [OF encode_pulses_payload_encodable [OF assms], of l n]
  by (auto simp: extrinsic_of_def)

text \<open>The chain client, the key pair and \<^verbatim>\<open>print\<close> make no request and take no time of the clock.\<close>

lemma net_cost_query_bind:
  assumes "\<And>x. net_cost k w (snd (f x w))"
  shows "net_cost k w (snd (bind_io (substrate_query m s) f w))"
  using assms by (cases "query w m s") (simp_all add: bind_io_def substrate_query_def net_cost_same)

lemma print_cost: "net_cost k w (snd (print s w))"
  by (simp add: print_def net_cost_same)

lemma sign_and_submit_cost: "net_cost k w (snd (sign_and_submit b ps l n w))"
  by (simp add: net_cost_same sign_and_submit_net)

section \<open>Reading a call back\<close>

text \<open>
  What the receiver of a call reads in it: the hexadecimal strings after their prefix
  \<^verbatim>\<open>0x\<close> as bytes, and so the payload and the signature. These functions are the
  specification of the call parameters; they model no line of the program.
\<close>

definition strip_0x :: "string \<Rightarrow> bytes result" where
  "strip_0x s = (if take 2 s = ''0x'' then unhexlify (drop 2 s) else Raise ValueError)"

definition pulse_of_call :: "pulse_for_call \<Rightarrow> pulse result" where
  "pulse_of_call q =
     bind_res (strip_0x (call_randomness q)) (\<lambda>r.
     bind_res (strip_0x (call_signature q)) (\<lambda>s.
     Ok \<lparr>round_num = call_round q, randomness = r, signature = s\<rparr>))"

definition payload_of_call :: "call \<Rightarrow> pulses_payload result" where
  "payload_of_call c =
     (let pp = param_pulses_payload c in
      bind_res (map_res pulse_of_call (call_pulses pp)) (\<lambda>ps.
      bind_res (case call_public pp of Sr25519 h \<Rightarrow> strip_0x h) (\<lambda>pk.
      Ok \<lparr>block_number = call_block_number pp, pulses = ps, public = pk\<rparr>)))"

definition signature_of_call :: "call \<Rightarrow> bytes result" where
  "signature_of_call c = (case param_signature c of Sr25519 h \<Rightarrow> strip_0x h)"

lemma strip_0x_hex [simp]: "strip_0x (CHR ''0'' # CHR ''x'' # bytes_hex bs) = Ok bs"
  by (simp add: strip_0x_def unhexlify_bytes_hex)

lemma compose_write_pulse_names [simp]:
  "call_module (compose_write_pulse b ps pk sg) = ''Drand''"
  "call_function (compose_write_pulse b ps pk sg) = ''write_pulse''"
  by (simp_all add: compose_write_pulse_def)

lemma call_rounds_compose [simp]:
  "map call_round (call_pulses (param_pulses_payload (compose_write_pulse b ps pk sg)))
     = map round_num ps"
  by (simp add: compose_write_pulse_def pulses_for_call_of_def comp_def)

lemma pulses_of_call [simp]: "map_res pulse_of_call (pulses_for_call_of ps) = Ok ps"
  by (induction ps) (simp_all add: pulses_for_call_of_def pulse_of_call_def)

lemma payload_of_call_compose [simp]:
  "payload_of_call (compose_write_pulse b ps pk sg) = Ok \<lparr>block_number = b, pulses = ps, public = pk\<rparr>"
  by (simp add: payload_of_call_def compose_write_pulse_def)

lemma signature_of_call_compose [simp]:
  "signature_of_call (compose_write_pulse b ps pk sg) = Ok sg"
  by (simp add: signature_of_call_def compose_write_pulse_def)

end
