(* ===== verification/Cycle_Driver.thy ===== *)
theory Cycle_Driver
  imports Submission_Gate Submitter
begin

text \<open>
  The cycle of \<^verbatim>\<open>src/ocw.py\<close>: \<^verbatim>\<open>submit_new_pulses\<close> (lines 95-173) as a whole, with
  the queries and tests of the gate in the order of the code, the loop that fetches and
  validates the rounds (lines 121-124) and the call of the submitter, and
  \<^verbatim>\<open>block_subscription_handler\<close> (lines 175-177). The lemmas give the paths of a cycle
  (\<open>cycle_outcomes\<close>), what a cycle does against a beacon that answers (\<open>cycle_served\<close>,
  \<open>cycle_refused\<close>, \<open>cycle_no_gap\<close>, \<open>cycle_string_round\<close>), that it follows the decision
  of the specification (\<open>cycle_by_decision\<close>), what it leaves unchanged (\<open>net_frame\<close>,
  \<open>cycle_frame\<close>), that what it encodes is typed (\<open>batch_typed\<close>) and what it costs in
  requests and time (\<open>cycle_cost\<close>); the properties of the cycle, in
  \<open>Cycle_Properties\<close>, follow from them.
\<close>

section \<open>The loop over the rounds\<close>

text \<open>
  The loop of lines 121-124 with the list \<^verbatim>\<open>pulses\<close> as its state (\<open>pulse_list\<close> here and
  below, \<open>pulses\<close> being a field of the payload). An exception of the
  fetch or of the validation leaves the loop and the function.
\<close>

fun fetch_pulses :: "int list \<Rightarrow> pulse list \<Rightarrow> (pulse list, 'a world_scheme) io" where
  "fetch_pulses [] pulse_list = return_io pulse_list"
| "fetch_pulses (r # rs) pulse_list =
     bind_io (fetch_drand_by_round r) (\<lambda>resp.
     bind_io (lift_res (try_into_pulse resp)) (\<lambda>p.
     fetch_pulses rs (pulse_list @ [p])))"

section \<open>The cycle\<close>

definition submit_new_pulses :: "int \<Rightarrow> (unit, 'a world_scheme) io" where
  "submit_new_pulses current_block =
     bind_io (substrate_query ''Drand'' ''NextUnsignedAt'') (\<lambda>v.
     let next_unsigned_at = or_0 v in
     if current_block < next_unsigned_at then return_io ()
     else
     bind_io (substrate_query ''Drand'' ''LastStoredRound'') (\<lambda>v.
     let last_stored_round = or_0 v in
     bind_io fetch_drand_latest (\<lambda>latest_resp.
     bind_io (lift_res (try_into_pulse latest_resp)) (\<lambda>latest_pulse.
     bind_io (lift_res (int_of_jval (round_num latest_pulse))) (\<lambda>current_round.
     let last_stored_round = bootstrap last_stored_round current_round in
     if current_round \<le> last_stored_round then print ''No new rounds to fetch.''
     else
     let rounds_to_fetch = rounds_to_fetch_of current_round last_stored_round in
     bind_io (fetch_pulses (target_rounds last_stored_round rounds_to_fetch) []) (\<lambda>pulse_list.
     if pulse_list = [] then print ''No new pulses to submit.''
     else sign_and_submit current_block pulse_list last_stored_round rounds_to_fetch))))))"

text \<open>
  A block header as the subscription delivers it, reduced to the number the handler
  reads, and the handler (lines 175-177).
\<close>

record block_header =
  number :: int

definition block_subscription_handler :: "block_header \<Rightarrow> nat \<Rightarrow> nat \<Rightarrow> (unit, 'a world_scheme) io" where
  "block_subscription_handler obj update_nr subscription_id =
     (let current_block = number obj in submit_new_pulses current_block)"

section \<open>What the fetcher does to the world of a cycle\<close>

text \<open>
  \<open>net_frame w w'\<close>: from \<open>w\<close> to \<open>w'\<close> the clock has changed and requests have been
  added, and nothing else has: the chain, the key pair, the extrinsics submitted and the
  lines printed are those of \<open>w\<close>.
\<close>

definition net_frame :: "'a world_scheme \<Rightarrow> 'a world_scheme \<Rightarrow> bool" where
  "net_frame w w' \<longleftrightarrow> (\<exists>t rs. w' = w\<lparr>now := t, requests := requests w @ rs\<rparr>)"

lemma net_frame_refl [simp]: "net_frame w w"
  unfolding net_frame_def by (intro exI [of _ "now w"] exI [of _ "[]"]) simp

lemma net_frame_trans: "net_frame w w' \<Longrightarrow> net_frame w' w'' \<Longrightarrow> net_frame w w''"
  unfolding net_frame_def by (elim exE) (simp, blast)

lemma net_frameE:
  assumes "net_frame w w'"
  obtains t rs where "w' = w\<lparr>now := t, requests := requests w @ rs\<rparr>"
  using assms unfolding net_frame_def by blast

lemma net_frame_fields:
  assumes "net_frame w w'"
  shows "http w' = http w" "query w' = query w" "public_key w' = public_key w"
    "sign w' = sign w" "submit w' = submit w" "submitted w' = submitted w"
    "printed w' = printed w"
  using assms by (auto elim!: net_frameE)

lemma fetch_loop_frame:
  "snd (fetch_loop d p es w) =
     w\<lparr>now := now (snd (fetch_loop d p es w)),
       requests := requests w @ map (\<lambda>e. e @ p) (take (attempts d p es w) es)\<rparr>"
  by (rule net_world.equality) (simp_all add: fetch_loop_requests)

lemma fetch_from_any_endpoint_frame: "fetch_from_any_endpoint p w = (r, w') \<Longrightarrow> net_frame w w'"
  unfolding net_frame_def fetch_from_any_endpoint_def Let_def
  using fetch_loop_frame [of "now w + HTTP_FETCH_TIMEOUT" p DRAND_ENDPOINTS w]
  by (metis snd_conv)

lemma fetch_drand_latest_frame: "fetch_drand_latest w = (r, w') \<Longrightarrow> net_frame w w'"
  unfolding fetch_drand_latest_def Let_def by (rule fetch_from_any_endpoint_frame)

lemma fetch_drand_by_round_frame: "fetch_drand_by_round n w = (r, w') \<Longrightarrow> net_frame w w'"
  unfolding fetch_drand_by_round_def Let_def by (rule fetch_from_any_endpoint_frame)

lemma extrinsic_of_frame: "net_frame w w' \<Longrightarrow> extrinsic_of b ps bs w' = extrinsic_of b ps bs w"
  by (simp add: extrinsic_of_def net_frame_fields)

section \<open>Facts about the loop over the rounds\<close>

lemma fetch_pulses_frame: "fetch_pulses rs acc w = (r, w') \<Longrightarrow> net_frame w w'"
proof (induction rs arbitrary: acc w)
  case Nil
  then show ?case by (simp add: return_io_def)
next
  case (Cons n rs)
  obtain r1 w1 where f: "fetch_drand_by_round n w = (r1, w1)"
    by (cases "fetch_drand_by_round n w")
  then have fr: "net_frame w w1"
    by (rule fetch_drand_by_round_frame)
  show ?case
  proof (cases r1)
    case (Inl e)
    with f Cons.prems fr show ?thesis
      by (simp add: bind_io_Raise)
  next
    case (Inr resp)
    show ?thesis
    proof (cases "try_into_pulse resp")
      case (Inl e)
      with f Inr Cons.prems fr show ?thesis
        by (simp add: bind_io_Ok)
    next
      case p: (Inr p)
      with f Inr Cons.prems have "fetch_pulses rs (acc @ [p]) w1 = (r, w')"
        by (simp add: bind_io_Ok)
      then have "net_frame w1 w'"
        by (rule Cons.IH)
      with fr show ?thesis
        by (rule net_frame_trans)
    qed
  qed
qed

lemma fetch_pulses_Ok:
  assumes "fetch_pulses rs acc w = (Ok ps, w')"
  shows "\<exists>qs. ps = acc @ qs \<and> length qs = length rs
          \<and> (\<forall>q \<in> set qs. length (randomness q) = 32)"
  using assms
proof (induction rs arbitrary: acc w)
  case Nil
  then show ?case by (simp add: return_io_def)
next
  case (Cons n rs)
  obtain r1 w1 where f: "fetch_drand_by_round n w = (r1, w1)"
    by (cases "fetch_drand_by_round n w")
  with Cons.prems obtain resp where r1: "r1 = Ok resp"
    by (cases r1) (simp_all add: bind_io_Raise)
  with f Cons.prems obtain p where p: "try_into_pulse resp = Ok p"
    by (cases "try_into_pulse resp") (simp_all add: bind_io_Ok)
  with f r1 Cons.prems have "fetch_pulses rs (acc @ [p]) w1 = (Ok ps, w')"
    by (simp add: bind_io_Ok)
  from Cons.IH [OF this] obtain qs where "ps = (acc @ [p]) @ qs" "length qs = length rs"
    "\<forall>q \<in> set qs. length (randomness q) = 32"
    by blast
  with try_into_pulse_length [OF p] show ?case
    by (intro exI [of _ "p # qs"]) simp
qed

text \<open>The loop over a list of rounds in two parts.\<close>

lemma fetch_pulses_append:
  "fetch_pulses (rs @ rs') acc = bind_io (fetch_pulses rs acc) (fetch_pulses rs')"
  by (induction rs arbitrary: acc) (simp_all add: bind_io_assoc)

section \<open>The paths of a cycle\<close>

lemma block_subscription_handler_cycle:
  "block_subscription_handler obj update_nr subscription_id = submit_new_pulses (number obj)"
  by (simp add: block_subscription_handler_def)

lemmas cycle_defs =
  submit_new_pulses_def substrate_query_def bind_io_def lift_res_def return_io_def print_def
  int_of_jval_def Let_def

text \<open>
  The rest of a cycle once the round of the latest pulse is known (lines 113-173), as
  \<^verbatim>\<open>submit_new_pulses\<close> contains it. It is named only to split the analysis of the
  cycle in two.
\<close>

definition cycle_tail :: "int \<Rightarrow> int \<Rightarrow> int \<Rightarrow> (unit, 'a world_scheme) io" where
  "cycle_tail current_block last_stored_round current_round =
     (let last_stored_round = bootstrap last_stored_round current_round in
      if current_round \<le> last_stored_round then print ''No new rounds to fetch.''
      else
      let rounds_to_fetch = rounds_to_fetch_of current_round last_stored_round in
      bind_io (fetch_pulses (target_rounds last_stored_round rounds_to_fetch) []) (\<lambda>pulse_list.
      if pulse_list = [] then print ''No new pulses to submit.''
      else sign_and_submit current_block pulse_list last_stored_round rounds_to_fetch))"

text \<open>The cycle as its head followed by \<open>cycle_tail\<close>.\<close>

lemma submit_new_pulses_tail:
  "submit_new_pulses b =
     bind_io (substrate_query ''Drand'' ''NextUnsignedAt'') (\<lambda>v.
     if b < or_0 v then return_io ()
     else bind_io (substrate_query ''Drand'' ''LastStoredRound'') (\<lambda>v2.
          bind_io fetch_drand_latest (\<lambda>resp.
          bind_io (lift_res (try_into_pulse resp)) (\<lambda>p.
          bind_io (lift_res (int_of_jval (round_num p))) (\<lambda>c.
          cycle_tail b (or_0 v2) c)))))"
  by (simp only: submit_new_pulses_def cycle_tail_def [abs_def] Let_def)

text \<open>
  Fetching and validating the latest pulse and reading its round (lines 109-111) raises,
  or goes on with the round, and in both cases has at most used the network.
\<close>

lemma latest_round_cases [case_names raises round]:
  fixes k :: "int \<Rightarrow> (unit, 'a world_scheme) io"
  obtains
    (raises) e w1 where "net_frame w w1"
      "bind_io fetch_drand_latest (\<lambda>resp. bind_io (lift_res (try_into_pulse resp)) (\<lambda>p.
         bind_io (lift_res (int_of_jval (round_num p))) k)) w = (Raise e, w1)"
  | (round) c w1 where "net_frame w w1"
      "bind_io fetch_drand_latest (\<lambda>resp. bind_io (lift_res (try_into_pulse resp)) (\<lambda>p.
         bind_io (lift_res (int_of_jval (round_num p))) k)) w = k c w1"
proof -
  obtain r1 w1 where f1: "fetch_drand_latest w = (r1, w1)"
    by (cases "fetch_drand_latest w")
  then have fr1: "net_frame w w1"
    by (rule fetch_drand_latest_frame)
  show thesis
  proof (cases "bind_res r1 (\<lambda>resp. bind_res (try_into_pulse resp) (\<lambda>p. int_of_jval (round_num p)))")
    case (Inl e)
    with f1 raises [OF fr1, of e] show thesis
      by (auto simp: bind_io_def lift_res_def bind_res_def split: sum.splits)
  next
    case (Inr c)
    with f1 round [OF fr1, of c] show thesis
      by (auto simp: bind_io_def lift_res_def bind_res_def split: sum.splits)
  qed
qed

text \<open>
  Up to the round of the latest pulse, a cycle raises, having at most used the network,
  or returns at once below the threshold, or goes on with the rest.
\<close>

lemma cycle_head_cases [case_names raises below tail]:
  obtains
    (raises) e w1 where "net_frame w w1" "submit_new_pulses b w = (Raise e, w1)"
  | (below) v where "query w ''Drand'' ''NextUnsignedAt'' = Ok v" "b < or_0 v"
      "submit_new_pulses b w = (Ok (), w)"
  | (tail) v v2 c w1 where "query w ''Drand'' ''NextUnsignedAt'' = Ok v" "\<not> b < or_0 v"
      "query w ''Drand'' ''LastStoredRound'' = Ok v2" "net_frame w w1"
      "submit_new_pulses b w = cycle_tail b (or_0 v2) c w1"
proof (cases "query w ''Drand'' ''NextUnsignedAt''")
  case (Inl e)
  with raises [of w e] show thesis
    by (simp add: cycle_defs)
next
  case q1: (Inr v)
  show thesis
  proof (cases "query w ''Drand'' ''LastStoredRound''")
    case (Inl e)
    with q1 raises [of w e] below [of v] show thesis
      by (cases "b < or_0 v") (simp_all add: cycle_defs)
  next
    case q2: (Inr v2)
    from q1 q2 have head: "\<not> b < or_0 v \<Longrightarrow> submit_new_pulses b w =
        bind_io fetch_drand_latest (\<lambda>resp. bind_io (lift_res (try_into_pulse resp)) (\<lambda>p.
          bind_io (lift_res (int_of_jval (round_num p))) (cycle_tail b (or_0 v2)))) w"
      by (simp add: submit_new_pulses_tail substrate_query_def bind_io_def)
    from latest_round_cases [where w = w and k = "cycle_tail b (or_0 v2)"] show thesis
    proof cases
      case (raises e w1)
      with q1 head below [of v] that(1) [of w1 e] show thesis
        by (cases "b < or_0 v") (simp_all add: cycle_defs)
    next
      case (round c w1)
      with q1 q2 head below [of v] tail [of v v2 w1 c] show thesis
        by (cases "b < or_0 v") (simp_all add: cycle_defs)
    qed
  qed
qed

text \<open>
  The rest raises in the loop over the rounds, or prints that there are no new rounds,
  or reaches the submitter with between 1 and 50 validated pulses.
\<close>

lemma cycle_tail_cases [case_names raises no_gap submit]:
  obtains
    (raises) e w2 where "net_frame w w2" "cycle_tail b lsr c w = (Raise e, w2)"
  | (no_gap) "c \<le> bootstrap lsr c"
      "cycle_tail b lsr c w = (Ok (), w\<lparr>printed := printed w @ [''No new rounds to fetch.'']\<rparr>)"
  | (submit) ps n w2 where "net_frame w w2" "\<not> c \<le> bootstrap lsr c"
      "n = rounds_to_fetch_of c (bootstrap lsr c)" "length ps = nat n"
      "\<forall>p \<in> set ps. length (randomness p) = 32"
      "cycle_tail b lsr c w = sign_and_submit b ps (bootstrap lsr c) n w2"
proof (cases "c \<le> bootstrap lsr c")
  case True
  then have "cycle_tail b lsr c w = (Ok (), w\<lparr>printed := printed w @ [''No new rounds to fetch.'']\<rparr>)"
    by (simp add: cycle_tail_def print_def)
  with no_gap True show thesis by blast
next
  case gap: False
  let ?l = "bootstrap lsr c"
  let ?n = "rounds_to_fetch_of c ?l"
  obtain r2 w2 where f2: "fetch_pulses (target_rounds ?l ?n) [] w = (r2, w2)"
    by (cases "fetch_pulses (target_rounds ?l ?n) [] w")
  then have fr2: "net_frame w w2"
    by (rule fetch_pulses_frame)
  show thesis
  proof (cases r2)
    case (Inl e)
    with gap f2 have "cycle_tail b lsr c w = (Raise e, w2)"
      by (simp add: cycle_tail_def Let_def bind_io_Raise)
    with raises fr2 show thesis by blast
  next
    case (Inr ps)
    with f2 have len: "length ps = nat ?n" and r32: "\<forall>p \<in> set ps. length (randomness p) = 32"
      by (auto dest!: fetch_pulses_Ok)
    from gap have "1 \<le> ?n"
      by (simp add: rounds_to_fetch_of_bounds)
    with len have "ps \<noteq> []"
      by auto
    with gap f2 Inr have "cycle_tail b lsr c w = sign_and_submit b ps ?l ?n w2"
      by (simp add: cycle_tail_def Let_def bind_io_Ok)
    with submit fr2 gap len r32 show thesis by blast
  qed
qed

text \<open>
  A cycle ends in one of four ways: it raises before anything is encoded, having at
  most used the network; it returns at once below the threshold; it prints that there
  are no new rounds; or it reaches the submitter with between 1 and 50 validated pulses.
\<close>

lemma submit_new_pulses_cases [case_names raises below no_gap submit]:
  obtains
    (raises) e w1 where "net_frame w w1" "submit_new_pulses b w = (Raise e, w1)"
  | (below) v where "query w ''Drand'' ''NextUnsignedAt'' = Ok v" "b < or_0 v"
      "submit_new_pulses b w = (Ok (), w)"
  | (no_gap) w1 where "net_frame w w1"
      "submit_new_pulses b w = (Ok (), w1\<lparr>printed := printed w1 @ [''No new rounds to fetch.'']\<rparr>)"
  | (submit) ps l n w2 where "net_frame w w2" "length ps = nat n" "1 \<le> n" "n \<le> MAX_PULSES_TO_FETCH"
      "\<forall>p \<in> set ps. length (randomness p) = 32"
      "submit_new_pulses b w = sign_and_submit b ps l n w2"
proof (cases b w rule: cycle_head_cases)
  case (raises e w1)
  then show thesis by (rule that(1))
next
  case (below v)
  then show thesis by (rule that(2))
next
  case (tail v v2 c w1)
  show thesis
  proof (cases b "or_0 v2" c w1 rule: cycle_tail_cases)
    case (raises e w2)
    with tail net_frame_trans [of w w1 w2] show thesis
      by (intro that(1) [of w2 e]) simp_all
  next
    case no_gap
    with tail show thesis
      by (intro that(3) [of w1]) simp_all
  next
    case (submit ps n w2)
    with tail net_frame_trans [of w w1 w2]
      rounds_to_fetch_of_bounds [of "bootstrap (or_0 v2) c" c]
    show thesis
      by (intro that(4) [of w2 ps n "bootstrap (or_0 v2) c"]) simp_all
  qed
qed

text \<open>
  The same with the submitter unfolded: a cycle that does not reach the chain raises or
  returns having at most used the network and printed one line; one that does has
  encoded between 1 and 50 validated pulses, and hands the chain one extrinsic.
\<close>

lemma cycle_outcomes [case_names raises below no_gap submitted]:
  obtains
    (raises) e w1 where "net_frame w w1" "submit_new_pulses b w = (Raise e, w1)"
  | (below) v where "query w ''Drand'' ''NextUnsignedAt'' = Ok v" "b < or_0 v"
      "submit_new_pulses b w = (Ok (), w)"
  | (no_gap) w1 where "net_frame w w1"
      "submit_new_pulses b w = (Ok (), w1\<lparr>printed := printed w @ [''No new rounds to fetch.'']\<rparr>)"
  | (submitted) ps l n bs w2 r out where "net_frame w w2" "length ps = nat n" "1 \<le> n"
      "n \<le> MAX_PULSES_TO_FETCH" "\<forall>p \<in> set ps. length (randomness p) = 32"
      "encode_pulses_payload \<lparr>block_number = b, pulses = ps, public = public_key w\<rparr> = Ok bs"
      "submit_new_pulses b w =
         (r, w2\<lparr>submitted := submitted w @ [extrinsic_of b ps bs w], printed := printed w @ out\<rparr>)"
      "case submit w (length (submitted w)) (extrinsic_of b ps bs w) of
         Inl e \<Rightarrow> r = Raise e \<and> out = []
       | Inr rc \<Rightarrow> r = Ok () \<and>
           out = [if is_success rc
                  then ''Successfully submitted pulses from round '' @ str_int (l + 1)
                         @ '' up to '' @ str_int (l + n)
                  else ''Failed to submit: '' @ error_message rc]"
proof (cases b w rule: submit_new_pulses_cases)
  case (raises e w1)
  then show thesis by (rule that(1))
next
  case (below v)
  then show thesis by (rule that(2))
next
  case (no_gap w1)
  then show thesis
    by (intro that(3) [of w1]) (simp_all add: net_frame_fields)
next
  case (submit ps l n w2)
  note fr = net_frame_fields [OF submit(1)] extrinsic_of_frame [OF submit(1)]
  show thesis
  proof (cases "encode_pulses_payload \<lparr>block_number = b, pulses = ps, public = public_key w\<rparr>")
    case (Inl e)
    with submit sign_and_submit_raise [of b ps w2 e l n] show thesis
      by (intro that(1) [of w2 e]) (simp_all add: fr)
  next
    case (Inr bs)
    with sign_and_submit_Ok [of b ps w2 bs l n] obtain r out where
      "sign_and_submit b ps l n w2 =
         (r, w2\<lparr>submitted := submitted w @ [extrinsic_of b ps bs w], printed := printed w @ out\<rparr>)"
      "case submit w (length (submitted w)) (extrinsic_of b ps bs w) of
         Inl e \<Rightarrow> r = Raise e \<and> out = []
       | Inr rc \<Rightarrow> r = Ok () \<and>
           out = [if is_success rc
                  then ''Successfully submitted pulses from round '' @ str_int (l + 1)
                         @ '' up to '' @ str_int (l + n)
                  else ''Failed to submit: '' @ error_message rc]"
      by (auto simp: fr)
    with submit Inr show thesis
      by (intro that(4) [of w2 ps n bs r out l]) simp_all
  qed
qed

text \<open>The batch a cycle has encoded is typed: the gate bounds its size, the validator its randomness, the encoder the rest.\<close>

lemma batch_typed:
  assumes "encode_pulses_payload \<lparr>block_number = b, pulses = ps, public = pk\<rparr> = Ok bs"
    and "length ps = nat n" and "1 \<le> n" and "n \<le> MAX_PULSES_TO_FETCH"
    and "\<forall>p \<in> set ps. length (randomness p) = 32"
  shows "typed_payload \<lparr>block_number = b, pulses = ps, public = pk\<rparr>"
proof -
  from assms(2-4) have "ps \<noteq> []" "length ps \<le> 50"
    by (auto simp: MAX_PULSES_TO_FETCH_def)
  with assms(1,5) show ?thesis
    by (intro encoded_typed_payload [of _ bs]) simp_all
qed

text \<open>What no cycle changes: the network, the chain and the key pair.\<close>

lemma cycle_frame:
  "http (snd (submit_new_pulses b w)) = http w"
  "query (snd (submit_new_pulses b w)) = query w"
  "public_key (snd (submit_new_pulses b w)) = public_key w"
  "sign (snd (submit_new_pulses b w)) = sign w"
  "submit (snd (submit_new_pulses b w)) = submit w"
  by (cases b w rule: cycle_outcomes; simp add: net_frame_fields)+

section \<open>What a cycle costs\<close>

text \<open>
  The loop over the rounds makes one fetch for each round, and a cycle one fetch for the
  latest pulse and at most 50 for the rounds.
\<close>

lemma fetch_pulses_cost: "net_cost (length rs) w (snd (fetch_pulses rs acc w))"
proof (induction rs arbitrary: acc w)
  case Nil
  show ?case by (simp add: return_io_def net_cost_same)
next
  case (Cons r rs)
  show ?case
    unfolding fetch_pulses.simps
    by (rule net_cost_bind_io [where j = "Suc 0" and k = "length rs"])
      (simp_all add: fetch_drand_by_round_cost net_cost_lift_bind Cons.IH)
qed

lemma cycle_tail_cost: "net_cost 50 w (snd (cycle_tail b l c w))"
proof (cases "c \<le> bootstrap l c")
  case True
  then show ?thesis
    by (simp add: cycle_tail_def print_cost)
next
  case False
  let ?l = "bootstrap l c"
  from False have "nat (rounds_to_fetch_of c ?l) \<le> 50"
    using rounds_to_fetch_of_bounds(2) [of ?l c] by (simp add: MAX_PULSES_TO_FETCH_def)
  with fetch_pulses_cost [of "target_rounds ?l (rounds_to_fetch_of c ?l)" w "[]"]
  have "net_cost 50 w (snd (fetch_pulses (target_rounds ?l (rounds_to_fetch_of c ?l)) [] w))"
    by (auto intro: net_cost_mono)
  with False show ?thesis
    unfolding cycle_tail_def Let_def
    by (simp only: if_False) (rule net_cost_bind_io [where j = 50 and k = 0],
        simp_all add: print_cost sign_and_submit_cost)
qed

lemma cycle_cost: "net_cost 51 w (snd (submit_new_pulses b w))"
proof -
  have "net_cost 51 w (snd (bind_io fetch_drand_latest (\<lambda>resp.
          bind_io (lift_res (try_into_pulse resp)) (\<lambda>p.
          bind_io (lift_res (int_of_jval (round_num p))) (\<lambda>c.
          cycle_tail b l c))) w))" for l
    by (rule net_cost_bind_io [where j = "Suc 0" and k = 50])
      (simp_all add: fetch_drand_latest_cost net_cost_lift_bind cycle_tail_cost)
  then show ?thesis
    unfolding submit_new_pulses_tail
    by (intro net_cost_query_bind) (simp add: return_io_def net_cost_same net_cost_query_bind)
qed

section \<open>A cycle against a beacon that answers\<close>

lemma serves_cong: "http w' = http w \<Longrightarrow> serves w' p body = serves w p body"
  by (simp add: serves_def)

lemma fetch_pulses_served:
  assumes "\<forall>r \<in> set rs. serves w (round_path r) (resp_of_pulse (beacon r))
             \<and> length (randomness (beacon r)) = 32"
  shows "\<exists>w'. fetch_pulses rs acc w = (Ok (acc @ map beacon rs), w') \<and> net_frame w w'
           \<and> requests w' = requests w @ map (\<lambda>r. hd DRAND_ENDPOINTS @ round_path r) rs"
  using assms
proof (induction rs arbitrary: acc w)
  case Nil
  then show ?case by (simp add: return_io_def)
next
  case (Cons r rs)
  let ?w1 = "w\<lparr>now := now w + snd (http w (length (requests w)) (hd DRAND_ENDPOINTS @ round_path r)),
                requests := requests w @ [hd DRAND_ENDPOINTS @ round_path r]\<rparr>"
  from Cons.prems have f: "fetch_drand_by_round r w = (Ok (resp_of_pulse (beacon r)), ?w1)"
    by (intro fetch_drand_by_round_served) simp
  from Cons.prems have v: "try_into_pulse (resp_of_pulse (beacon r)) = Ok (beacon r)"
    by (simp add: try_into_pulse_resp_of_pulse)
  from Cons.prems have "\<forall>r \<in> set rs. serves ?w1 (round_path r) (resp_of_pulse (beacon r))
      \<and> length (randomness (beacon r)) = 32"
    by simp
  from Cons.IH [OF this, of "acc @ [beacon r]"] obtain w' where
    "fetch_pulses rs (acc @ [beacon r]) ?w1 = (Ok (acc @ map beacon (r # rs)), w')"
    "net_frame ?w1 w'"
    "requests w' = requests w @ map (\<lambda>r. hd DRAND_ENDPOINTS @ round_path r) (r # rs)"
    by auto
  with f v fetch_drand_by_round_frame [OF f] show ?case
    by (auto simp: bind_io_Ok lift_res_def intro: net_frame_trans)
qed

text \<open>
  When the chain answers both queries, the block is not below the threshold, and the
  first endpoint serves the latest pulse and a valid pulse for every target round, the
  cycle reaches the submitter with the pulses served, in the order of the rounds, after
  one request for the latest pulse and one for each round.
\<close>

lemma cycle_served:
  assumes chain: "query w ''Drand'' ''NextUnsignedAt'' = Ok v1" "\<not> b < or_0 v1"
      "query w ''Drand'' ''LastStoredRound'' = Ok v2"
    and latest: "serves w latest_path (resp_of_pulse pc)" "round_num pc = JInt c"
      "length (randomness pc) = 32"
    and gap: "l = bootstrap (or_0 v2) c" "l < c" "n = rounds_to_fetch_of c l"
    and rounds: "\<forall>r \<in> set (target_rounds l n).
      serves w (round_path r) (resp_of_pulse (beacon r)) \<and> length (randomness (beacon r)) = 32"
  shows "\<exists>w2. net_frame w w2
           \<and> requests w2 = requests w
               @ map (\<lambda>p. hd DRAND_ENDPOINTS @ p) (latest_path # map round_path (target_rounds l n))
           \<and> submit_new_pulses b w = sign_and_submit b (map beacon (target_rounds l n)) l n w2"
proof -
  let ?w1 = "w\<lparr>now := now w + snd (http w (length (requests w)) (hd DRAND_ENDPOINTS @ latest_path)),
                requests := requests w @ [hd DRAND_ENDPOINTS @ latest_path]\<rparr>"
  from latest have f1: "fetch_drand_latest w = (Ok (resp_of_pulse pc), ?w1)"
    by (intro fetch_drand_latest_served)
  from latest have v1: "try_into_pulse (resp_of_pulse pc) = Ok pc"
    by (simp add: try_into_pulse_resp_of_pulse)
  from rounds have "\<forall>r \<in> set (target_rounds l n).
      serves ?w1 (round_path r) (resp_of_pulse (beacon r)) \<and> length (randomness (beacon r)) = 32"
    by simp
  from fetch_pulses_served [OF this, of "[]"] obtain w2 where f2:
    "fetch_pulses (target_rounds l n) [] ?w1 = (Ok (map beacon (target_rounds l n)), w2)"
    "net_frame ?w1 w2"
    "requests w2 = requests ?w1 @ map (\<lambda>r. hd DRAND_ENDPOINTS @ round_path r) (target_rounds l n)"
    by auto
  from gap have "1 \<le> n"
    by (simp add: rounds_to_fetch_of_bounds)
  then have ne: "map beacon (target_rounds l n) \<noteq> []"
    by (simp add: target_rounds_upto)
  from chain latest gap f1 v1 f2(1) ne
  have "submit_new_pulses b w = sign_and_submit b (map beacon (target_rounds l n)) l n w2"
    by (simp add: cycle_defs)
  with f2 fetch_drand_latest_frame [OF f1] show ?thesis
    by (auto simp: comp_def intro: net_frame_trans)
qed

lemma cycle_served_submitted:
  assumes "query w ''Drand'' ''NextUnsignedAt'' = Ok v1" "\<not> b < or_0 v1"
      "query w ''Drand'' ''LastStoredRound'' = Ok v2"
    and "serves w latest_path (resp_of_pulse pc)" "round_num pc = JInt c"
      "length (randomness pc) = 32"
    and "l = bootstrap (or_0 v2) c" "l < c" "n = rounds_to_fetch_of c l"
    and "\<forall>r \<in> set (target_rounds l n).
      serves w (round_path r) (resp_of_pulse (beacon r)) \<and> length (randomness (beacon r)) = 32"
    and "encodable_payload
      \<lparr>block_number = b, pulses = map beacon (target_rounds l n), public = public_key w\<rparr>"
  shows "submitted (snd (submit_new_pulses b w)) = submitted w @
      [Unsigned_extrinsic (compose_write_pulse b (map beacon (target_rounds l n)) (public_key w)
         (sign w (payload_bytes
            \<lparr>block_number = b, pulses = map beacon (target_rounds l n), public = public_key w\<rparr>)))]"
proof -
  from cycle_served [OF assms(1-10)] obtain w2 where w2: "net_frame w w2"
    "submit_new_pulses b w = sign_and_submit b (map beacon (target_rounds l n)) l n w2"
    by blast
  with assms(11) sign_and_submit_submitted [of b "map beacon (target_rounds l n)" w2 l n]
  show ?thesis
    by (simp add: net_frame_fields)
qed

lemma cycle_served_Ok:
  assumes "query w ''Drand'' ''NextUnsignedAt'' = Ok v1" "\<not> b < or_0 v1"
      "query w ''Drand'' ''LastStoredRound'' = Ok v2"
    and "serves w latest_path (resp_of_pulse pc)" "round_num pc = JInt c"
      "length (randomness pc) = 32"
    and "l = bootstrap (or_0 v2) c" "l < c" "n = rounds_to_fetch_of c l"
    and "\<forall>r \<in> set (target_rounds l n).
      serves w (round_path r) (resp_of_pulse (beacon r)) \<and> length (randomness (beacon r)) = 32"
    and "encodable_payload
      \<lparr>block_number = b, pulses = map beacon (target_rounds l n), public = public_key w\<rparr>"
    and "\<forall>x. is_ok (submit w (length (submitted w)) x)"
  shows "fst (submit_new_pulses b w) = Ok ()"
proof -
  let ?ps = "map beacon (target_rounds l n)"
  from cycle_served [OF assms(1-10)] obtain w2 where w2: "net_frame w w2"
    "submit_new_pulses b w = sign_and_submit b ?ps l n w2"
    by blast
  from assms(11) w2(1)
  have "encode_pulses_payload \<lparr>block_number = b, pulses = ?ps, public = public_key w2\<rparr>
      = Ok (payload_bytes \<lparr>block_number = b, pulses = ?ps, public = public_key w\<rparr>)"
    by (simp add: encode_pulses_payload_encodable net_frame_fields)
  from sign_and_submit_Ok [OF this, of l n] obtain r out x where r:
    "fst (sign_and_submit b ?ps l n w2) = r"
    "case submit w2 (length (submitted w2)) x of
       Inl e \<Rightarrow> r = Raise e \<and> out = []
     | Inr rc \<Rightarrow> r = Ok () \<and>
         out = [if is_success rc
                then ''Successfully submitted pulses from round '' @ str_int (l + 1)
                       @ '' up to '' @ str_int (l + n)
                else ''Failed to submit: '' @ error_message rc]"
    by force
  from assms(12) w2(1) obtain rc where "submit w2 (length (submitted w2)) x = Ok rc"
    by (auto simp: is_ok_iff net_frame_fields)
  with r w2 show ?thesis
    by simp
qed

text \<open>
  When the latest round is not above the last stored round, after the bootstrap rule, the
  cycle ends after the request for the latest pulse with the line of line 117.
\<close>

lemma cycle_no_gap:
  assumes "query w ''Drand'' ''NextUnsignedAt'' = Ok v1" and "\<not> b < or_0 v1"
    and "query w ''Drand'' ''LastStoredRound'' = Ok v2"
    and "serves w latest_path body" and "try_into_pulse body = Ok pc"
    and "round_num pc = JInt c" and "c \<le> bootstrap (or_0 v2) c"
  shows "submit_new_pulses b w =
     (Ok (), w\<lparr>now := now w + snd (http w (length (requests w)) (hd DRAND_ENDPOINTS @ latest_path)),
               requests := requests w @ [hd DRAND_ENDPOINTS @ latest_path],
               printed := printed w @ [''No new rounds to fetch.'']\<rparr>)"
  using assms fetch_drand_latest_served [of w body] by (simp add: cycle_defs)

text \<open>
  A latest pulse whose round is no JSON integer passes the validator and raises
  \<^verbatim>\<open>TypeError\<close> at the first arithmetic on it (line 114 or 116), after the one
  request for the latest pulse.
\<close>

lemma cycle_string_round:
  assumes "query w ''Drand'' ''NextUnsignedAt'' = Ok v1" and "\<not> b < or_0 v1"
    and "query w ''Drand'' ''LastStoredRound'' = Ok v2"
    and "serves w latest_path body" and "try_into_pulse body = Ok pc"
    and "\<not> is_integer (round_num pc)"
  shows "submit_new_pulses b w =
     (Raise TypeError,
      w\<lparr>now := now w + snd (http w (length (requests w)) (hd DRAND_ENDPOINTS @ latest_path)),
        requests := requests w @ [hd DRAND_ENDPOINTS @ latest_path]\<rparr>)"
  proof -
  from assms(6) have "int_of_jval (round_num pc) = Raise TypeError"
    by (cases "round_num pc") (simp_all add: int_of_jval_def)
  with assms fetch_drand_latest_served [of w body] show ?thesis
    by (simp add: cycle_defs)
qed

text \<open>
  A latest answer the validator refuses ends the cycle with the validator's exception,
  after the one request; so does a body that is JSON and no object, with \<^verbatim>\<open>TypeError\<close>.
\<close>

lemma cycle_invalid_latest:
  assumes "query w ''Drand'' ''NextUnsignedAt'' = Ok v1" and "\<not> b < or_0 v1"
    and "query w ''Drand'' ''LastStoredRound'' = Ok v2"
    and "serves w latest_path body" and "try_into_pulse body = Raise e"
  shows "submit_new_pulses b w =
     (Raise e,
      w\<lparr>now := now w + snd (http w (length (requests w)) (hd DRAND_ENDPOINTS @ latest_path)),
        requests := requests w @ [hd DRAND_ENDPOINTS @ latest_path]\<rparr>)"
  using assms fetch_drand_latest_served [of w body] by (simp add: cycle_defs)

lemma cycle_no_object:
  assumes "query w ''Drand'' ''NextUnsignedAt'' = Ok v1" and "\<not> b < or_0 v1"
    and "query w ''Drand'' ''LastStoredRound'' = Ok v2"
    and "serves w latest_path body" and "\<forall>m. body \<noteq> JObject m"
  shows "submit_new_pulses b w =
     (Raise TypeError,
      w\<lparr>now := now w + snd (http w (length (requests w)) (hd DRAND_ENDPOINTS @ latest_path)),
        requests := requests w @ [hd DRAND_ENDPOINTS @ latest_path]\<rparr>)"
  using assms(1-4) try_into_pulse_no_object [OF assms(5)] by (rule cycle_invalid_latest)

text \<open>
  The cycle is the decision of the specification followed by what the decision asks for:
  when the chain answers the two queries and the latest pulse is served and valid,
  nothing below the threshold, one line when there is no gap, and otherwise the loop
  over the rounds decided and the submitter.
\<close>

lemma cycle_by_decision:
  assumes "query w ''Drand'' ''NextUnsignedAt'' = Ok v1"
    and "query w ''Drand'' ''LastStoredRound'' = Ok v2"
    and "serves w latest_path body" and "try_into_pulse body = Ok pc"
    and "round_num pc = JInt c"
    and "w1 = w\<lparr>now := now w + snd (http w (length (requests w)) (hd DRAND_ENDPOINTS @ latest_path)),
                  requests := requests w @ [hd DRAND_ENDPOINTS @ latest_path]\<rparr>"
  shows "submit_new_pulses b w =
     (case gate_decision b (or_0 v1) (or_0 v2) c of
        Below_threshold \<Rightarrow> (Ok (), w)
      | No_gap \<Rightarrow> print ''No new rounds to fetch.'' w1
      | Eligible rs \<Rightarrow>
          bind_io (fetch_pulses rs []) (\<lambda>pulse_list.
            if pulse_list = [] then print ''No new pulses to submit.''
            else sign_and_submit b pulse_list (hd rs - 1) (int (length rs))) w1)"
proof (cases "b < or_0 v1")
  case True
  with assms(1) show ?thesis
    by (simp add: cycle_defs gate_decision_code)
next
  case nb: False
  let ?l = "bootstrap (or_0 v2) c"
  from assms have head: "submit_new_pulses b w = cycle_tail b (or_0 v2) c w1"
    using nb fetch_drand_latest_served [of w body]
    by (simp add: submit_new_pulses_tail cycle_defs)
  show ?thesis
  proof (cases "c \<le> ?l")
    case True
    with nb head show ?thesis
      by (simp add: gate_decision_code cycle_tail_def)
  next
    case False
    then have "?l < c" by simp
    note target_rounds_hd [OF this]
    with nb False head show ?thesis
      by (simp add: gate_decision_code cycle_tail_def Let_def cong: if_cong)
  qed
qed

text \<open>
  When a target round is served with a body that the validator refuses, the rounds
  before it being served well, the cycle ends with the exception of the validator after
  the request for that round.
\<close>

lemma fetch_pulses_refused:
  assumes "\<forall>r \<in> set rs. serves w (round_path r) (resp_of_pulse (beacon r))
             \<and> length (randomness (beacon r)) = 32"
    and "serves w (round_path r') body" and "try_into_pulse body = Raise e"
  shows "\<exists>w'. fetch_pulses (rs @ r' # rs') acc w = (Raise e, w') \<and> net_frame w w'
           \<and> requests w' = requests w @ map (\<lambda>r. hd DRAND_ENDPOINTS @ round_path r) (rs @ [r'])"
proof -
  from fetch_pulses_served [OF assms(1), of acc] obtain w1 where w1:
    "fetch_pulses rs acc w = (Ok (acc @ map beacon rs), w1)" "net_frame w w1"
    "requests w1 = requests w @ map (\<lambda>r. hd DRAND_ENDPOINTS @ round_path r) rs"
    by blast
  from w1(2) assms(2) have "serves w1 (round_path r') body"
    by (auto elim!: net_frameE)
  note f = fetch_drand_by_round_served [OF this]
  with assms(3) w1 fetch_drand_by_round_frame [OF f] show ?thesis
    by (auto simp: fetch_pulses_append bind_io_Ok lift_res_def bind_io_Raise
        intro: net_frame_trans)
qed

lemma cycle_refused:
  assumes chain: "query w ''Drand'' ''NextUnsignedAt'' = Ok v1" "\<not> b < or_0 v1"
      "query w ''Drand'' ''LastStoredRound'' = Ok v2"
    and latest: "serves w latest_path (resp_of_pulse pc)" "round_num pc = JInt c"
      "length (randomness pc) = 32"
    and gap: "l = bootstrap (or_0 v2) c" "l < c" "n = rounds_to_fetch_of c l"
    and rounds: "target_rounds l n = rs @ r' # rs'"
      "\<forall>r \<in> set rs. serves w (round_path r) (resp_of_pulse (beacon r))
          \<and> length (randomness (beacon r)) = 32"
    and refused: "serves w (round_path r') body" "try_into_pulse body = Raise e"
  shows "\<exists>w2. submit_new_pulses b w = (Raise e, w2) \<and> net_frame w w2
           \<and> requests w2 = requests w
               @ map (\<lambda>p. hd DRAND_ENDPOINTS @ p) (latest_path # map round_path (rs @ [r']))"
proof -
  let ?w1 = "w\<lparr>now := now w + snd (http w (length (requests w)) (hd DRAND_ENDPOINTS @ latest_path)),
                requests := requests w @ [hd DRAND_ENDPOINTS @ latest_path]\<rparr>"
  from latest have f1: "fetch_drand_latest w = (Ok (resp_of_pulse pc), ?w1)"
    by (intro fetch_drand_latest_served)
  from latest have v1: "try_into_pulse (resp_of_pulse pc) = Ok pc"
    by (simp add: try_into_pulse_resp_of_pulse)
  from rounds(2) refused(1) have "\<forall>r \<in> set rs.
      serves ?w1 (round_path r) (resp_of_pulse (beacon r)) \<and> length (randomness (beacon r)) = 32"
    "serves ?w1 (round_path r') body"
    by simp_all
  from fetch_pulses_refused [OF this refused(2), of rs' "[]"] obtain w2 where f2:
    "fetch_pulses (target_rounds l n) [] ?w1 = (Raise e, w2)" "net_frame ?w1 w2"
    "requests w2 = requests ?w1 @ map (\<lambda>r. hd DRAND_ENDPOINTS @ round_path r) (rs @ [r'])"
    unfolding rounds(1) by blast
  from chain latest gap f1 v1 f2(1) have "submit_new_pulses b w = (Raise e, w2)"
    by (simp add: cycle_defs)
  with f2 fetch_drand_latest_frame [OF f1] show ?thesis
    by (auto simp: comp_def intro: net_frame_trans)
qed

end
