(* ===== verification/Cycle_Properties.thy ===== *)
theory Cycle_Properties
  imports Cycle_Driver
begin

text \<open>
  The properties of the cycle of \<^verbatim>\<open>src/ocw.py\<close> (\<^verbatim>\<open>submit_new_pulses\<close>, lines 95-173),
  each a consequence of the lemmas of \<open>Cycle_Driver\<close>, and the mocked chain and beacon of
  the end-to-end example of the specification (round 9 stored, the beacon at round 12),
  on which the properties are instantiated.
\<close>

section \<open>A mocked chain and beacon\<close>

text \<open>
  For the witnesses. The beacon: the first endpoint answers the path of the latest
  pulse with \<open>latest\<close> and the path of round \<open>r\<close> with \<open>body\<close> for every \<open>(r, body)\<close> of
  \<open>rounds\<close>, after 5 milliseconds; every other request fails. The chain: the two values
  queried, and a client that accepts every extrinsic. The key pair: a two-byte public
  key and a signing function that reverses the bytes, which stands for a signature
  scheme only in that it is a function of the bytes signed.
\<close>

definition mock_beacon ::
  "drand_resp \<Rightarrow> (int \<times> drand_resp) list \<Rightarrow> nat \<Rightarrow> string \<Rightarrow> http_outcome \<times> int" where
  "mock_beacon latest rounds n uri =
     (case map_of ((hd DRAND_ENDPOINTS @ latest_path, latest)
                   # map (\<lambda>(r, body). (hd DRAND_ENDPOINTS @ round_path r, body)) rounds) uri of
        Some body \<Rightarrow> (Response 200 (Some body), 5)
      | None \<Rightarrow> (RequestException, 5))"

definition mock_chain :: "int option \<Rightarrow> int option \<Rightarrow> string \<Rightarrow> string \<Rightarrow> int option result" where
  "mock_chain next_unsigned_at last_stored_round module storage_function =
     (if storage_function = ''NextUnsignedAt'' then Ok next_unsigned_at
      else if storage_function = ''LastStoredRound'' then Ok last_stored_round
      else Raise SubstrateRequestException)"

definition mock_world ::
  "int option \<Rightarrow> int option \<Rightarrow> drand_resp \<Rightarrow> (int \<times> drand_resp) list \<Rightarrow> world" where
  "mock_world next_unsigned_at last_stored_round latest rounds =
     \<lparr>now = 0, http = mock_beacon latest rounds, requests = [],
      query = mock_chain next_unsigned_at last_stored_round,
      public_key = [9, 9], sign = rev,
      submit = (\<lambda>n x. Ok \<lparr>is_success = True, error_message = []\<rparr>),
      submitted = [], printed = []\<rparr>"

text \<open>The beacon of the end-to-end example: rounds 10 to 12, the latest being 12.\<close>

definition ex_rounds :: "(int \<times> drand_resp) list" where
  "ex_rounds = map (\<lambda>r. (r, resp_of_pulse (ex_pulse r))) [10, 11, 12]"

definition ex_cycle_world :: world where
  "ex_cycle_world = mock_world (Some 0) (Some 9) (resp_of_pulse (ex_pulse 12)) ex_rounds"

lemma str_int_ex:
  "str_int 10 = ''10''" "str_int 11 = ''11''" "str_int 12 = ''12''" "str_int 9 = ''9''"
  by (simp_all add: str_int_def str_nat.simps)

lemmas mock_defs =
  mock_world_def mock_beacon_def mock_chain_def serves_def round_path_def latest_path_def
  str_int_ex

lemma mock_world_fields [simp]:
  "query (mock_world a l latest rounds) = mock_chain a l"
  "public_key (mock_world a l latest rounds) = [9, 9]"
  "sign (mock_world a l latest rounds) = rev"
  "submitted (mock_world a l latest rounds) = []"
  "printed (mock_world a l latest rounds) = []"
  "requests (mock_world a l latest rounds) = []"
  "submit (mock_world a l latest rounds) n x = Ok \<lparr>is_success = True, error_message = []\<rparr>"
  by (simp_all add: mock_world_def)

lemma mock_world_query_update [simp]:
  "(mock_world a l latest rounds)\<lparr>query := mock_chain a l\<rparr> = mock_world a l latest rounds"
  by (simp add: mock_world_def)

lemma ex_pulse_fields [simp]:
  "round_num (ex_pulse r) = JInt r" "length (randomness (ex_pulse r)) = 32"
  by (simp_all add: ex_pulse_def)

lemma mock_world_serves_latest: "serves (mock_world a l latest rounds) latest_path latest"
  by (simp add: mock_world_def mock_beacon_def serves_def)

text \<open>The facts that evaluate the mocked chain, and those of the end-to-end example.\<close>

lemmas mock_simps = mock_chain_def mock_world_serves_latest

lemmas ex_cycle_simps = ex_cycle_gate ex_cycle_world_def mock_simps

lemma ex_cycle_world_serves:
  "\<forall>r \<in> set [10, 11, 12]. serves ex_cycle_world (round_path r) (resp_of_pulse (ex_pulse r))
      \<and> length (randomness (ex_pulse r)) = 32"
  by (simp add: ex_cycle_world_def ex_rounds_def mock_defs ex_pulse_def)

lemma ex_cycle_encodable:
  "encodable_payload \<lparr>block_number = 7, pulses = map ex_pulse [10, 11, 12], public = [9, 9]\<rparr>"
  by (simp add: encodable_payload_def encodable_pulse_def ex_pulse_def)

lemma ex_cycle_submitted:
  "submitted (snd (submit_new_pulses 7 ex_cycle_world)) =
     [Unsigned_extrinsic (compose_write_pulse 7 (map ex_pulse [10, 11, 12]) [9, 9]
        (rev (payload_bytes
           \<lparr>block_number = 7, pulses = map ex_pulse [10, 11, 12], public = [9, 9]\<rparr>)))]"
  using cycle_served_submitted [of ex_cycle_world "Some 0" 7 "Some 9" "ex_pulse 12" 12 9 3 ex_pulse]
    ex_cycle_world_serves ex_cycle_encodable
  by (simp add: ex_cycle_simps ex_pulse_def)

lemma ex_cycle_requests:
  "requests (snd (submit_new_pulses 7 ex_cycle_world))
     = map (\<lambda>p. hd DRAND_ENDPOINTS @ p) [latest_path, round_path 10, round_path 11, round_path 12]"
  using cycle_served [of ex_cycle_world "Some 0" 7 "Some 9" "ex_pulse 12" 12 9 3 ex_pulse]
    ex_cycle_world_serves
  by (auto simp: ex_cycle_simps
      sign_and_submit_net)

text \<open>A beacon whose answer for round 11 has two bytes of randomness.\<close>

lemma ex_refused_hyps:
  "serves (mock_world a l latest [(10, resp_of_pulse (ex_pulse 10)), (11, ex_resp ''abcd'')])
     (round_path 10) (resp_of_pulse (ex_pulse 10))"
  "serves (mock_world a l latest [(10, resp_of_pulse (ex_pulse 10)), (11, ex_resp ''abcd'')])
     (round_path 11) (ex_resp ''abcd'')"
  "try_into_pulse (ex_resp ''abcd'') = Raise (Exception ''Randomness is not 32 bytes'')"
  "length (randomness (ex_pulse r)) = 32"
  by (simp_all add: mock_defs ex_pulse_def try_into_pulse_def ex_resp_def getitem_def
      unhexlify_jval_def unhexlify_def digit_val_def)

lemma ex_refused_cycle:
  "\<exists>w2. submit_new_pulses 7 (mock_world (Some 0) (Some 9) (resp_of_pulse (ex_pulse 12))
          [(10, resp_of_pulse (ex_pulse 10)), (11, ex_resp ''abcd'')])
     = (Raise (Exception ''Randomness is not 32 bytes''), w2)
     \<and> submitted w2 = [] \<and> length (requests w2) = 3"
  using cycle_refused [where b = 7 and ?v1.0 = "Some 0" and ?v2.0 = "Some 9"
      and pc = "ex_pulse 12" and c = 12 and l = 9 and n = 3 and rs = "[10]" and r' = 11
      and rs' = "[12]" and beacon = ex_pulse and body = "ex_resp ''abcd''"
      and e = "Exception ''Randomness is not 32 bytes''"
      and w = "mock_world (Some 0) (Some 9) (resp_of_pulse (ex_pulse 12))
          [(10, resp_of_pulse (ex_pulse 10)), (11, ex_resp ''abcd'')]"]
    ex_refused_hyps
  by (simp add: ex_cycle_gate mock_simps)
    (auto simp: net_frame_fields)

section \<open>The properties of the cycle\<close>

text \<open>
  C3. What reaches the chain has the types of the data model. Whatever the chain and the
  network answer, a cycle hands the chain no extrinsic or exactly one; and the payload of
  the one it hands over is typed: a block number of 32 bits, between 1 and 50 pulses,
  each with a round of 64 bits and 32 bytes of randomness; it is the payload
  \<^verbatim>\<open>encode_pulses_payload\<close> has encoded, and the signature in the call is the signature
  of the key pair over that encoding.
\<close>

theorem cycle_submits_typed_payload:
  "submitted (snd (submit_new_pulses b w)) = submitted w
   \<or> (\<exists>ps bs. typed_payload \<lparr>block_number = b, pulses = ps, public = public_key w\<rparr>
         \<and> encode_pulses_payload \<lparr>block_number = b, pulses = ps, public = public_key w\<rparr> = Ok bs
         \<and> submitted (snd (submit_new_pulses b w)) = submitted w @
             [Unsigned_extrinsic (compose_write_pulse b ps (public_key w) (sign w bs))])"
proof (cases b w rule: cycle_outcomes)
  case (submitted ps l n bs w2 r out)
  then have "typed_payload \<lparr>block_number = b, pulses = ps, public = public_key w\<rparr>"
    by (intro batch_typed) simp_all
  with submitted show ?thesis
    by (intro disjI2 exI [of _ ps] exI [of _ bs]) (simp add: extrinsic_of_def)
qed (simp_all add: net_frame_fields)

theorem cycle_submits_typed_payload_witness:
  "\<exists>ps bs. typed_payload \<lparr>block_number = 7, pulses = ps, public = [9, 9]\<rparr>
      \<and> encode_pulses_payload \<lparr>block_number = 7, pulses = ps, public = [9, 9]\<rparr> = Ok bs
      \<and> submitted (snd (submit_new_pulses 7 ex_cycle_world))
          = [Unsigned_extrinsic (compose_write_pulse 7 ps [9, 9] (rev bs))]"
  using cycle_submits_typed_payload [of 7 ex_cycle_world] ex_cycle_submitted
  by (simp add: ex_cycle_world_def)

text \<open>
  C2. The missing rounds reach the chain. When the chain answers both queries, the block
  is not below the threshold, the first endpoint serves a valid latest pulse of round
  \<open>c\<close> above the last stored round and a valid pulse for each target round, and block
  number, rounds and lengths fit their fields, the cycle hands the chain exactly one
  extrinsic: the call \<^verbatim>\<open>Drand.write_pulse\<close> with the pulses served for the target rounds,
  in the order of the rounds, signed over the layout of \<open>payload_bytes\<close>.
\<close>

theorem cycle_submits_missing_rounds:
  assumes "query w ''Drand'' ''NextUnsignedAt'' = Ok v1" "\<not> b < or_0 v1"
      "query w ''Drand'' ''LastStoredRound'' = Ok v2"
    and "serves w latest_path (resp_of_pulse pc)" "round_num pc = JInt c"
      "length (randomness pc) = 32"
    and "l = bootstrap (or_0 v2) c" "l < c" "n = rounds_to_fetch_of c l"
    and "\<forall>r \<in> set (target_rounds l n).
      serves w (round_path r) (resp_of_pulse (beacon r)) \<and> length (randomness (beacon r)) = 32"
    and "pp = \<lparr>block_number = b, pulses = map beacon (target_rounds l n), public = public_key w\<rparr>"
    and "encodable_payload pp"
  shows "submitted (snd (submit_new_pulses b w)) = submitted w @
      [Unsigned_extrinsic (compose_write_pulse b (map beacon (target_rounds l n)) (public_key w)
         (sign w (payload_bytes pp)))]"
  using assms by (simp add: cycle_served_submitted)

theorem cycle_submits_missing_rounds_witness:
  "submitted (snd (submit_new_pulses 7 ex_cycle_world)) =
     [Unsigned_extrinsic (compose_write_pulse 7 [ex_pulse 10, ex_pulse 11, ex_pulse 12] [9, 9]
        (rev (payload_bytes
           \<lparr>block_number = 7, pulses = [ex_pulse 10, ex_pulse 11, ex_pulse 12], public = [9, 9]\<rparr>)))]"
  using cycle_submits_missing_rounds [of ex_cycle_world "Some 0" 7 "Some 9" "ex_pulse 12" 12 9 3
      ex_pulse "\<lparr>block_number = 7, pulses = map ex_pulse [10, 11, 12], public = [9, 9]\<rparr>"]
    ex_cycle_world_serves ex_cycle_encodable
  by (simp add: ex_cycle_simps ex_pulse_def)

text \<open>
  C13. Below the threshold. When the block number is below \<^verbatim>\<open>NextUnsignedAt\<close>, the cycle
  returns at once and leaves the world as it found it: no second query, no request to
  the beacon, nothing submitted, nothing printed.
\<close>

theorem cycle_below_threshold:
  assumes "query w ''Drand'' ''NextUnsignedAt'' = Ok v" and "b < or_0 v"
  shows "submit_new_pulses b w = (Ok (), w)"
  using assms by (simp add: cycle_defs)

theorem cycle_below_threshold_witness:
  "submit_new_pulses 5 (mock_world (Some 10) (Some 9) (resp_of_pulse (ex_pulse 12)) ex_rounds)
     = (Ok (), mock_world (Some 10) (Some 9) (resp_of_pulse (ex_pulse 12)) ex_rounds)"
  using cycle_below_threshold
    [of "mock_world (Some 10) (Some 9) (resp_of_pulse (ex_pulse 12)) ex_rounds" "Some 10" 5]
  by (simp add: mock_chain_def)

text \<open>
  No gap. When the chain answers both queries, the block is not below the threshold
  and the latest pulse of the beacon is valid and of a round not above the last stored
  round, the cycle makes the one request for the latest pulse, prints
  \<^verbatim>\<open>No new rounds to fetch.\<close> and submits nothing.
\<close>

theorem cycle_no_new_rounds:
  assumes "query w ''Drand'' ''NextUnsignedAt'' = Ok v1" and "\<not> b < or_0 v1"
    and "query w ''Drand'' ''LastStoredRound'' = Ok v2"
    and "serves w latest_path body" and "try_into_pulse body = Ok pc"
    and "round_num pc = JInt c" and "c \<le> bootstrap (or_0 v2) c"
  shows "submit_new_pulses b w =
     (Ok (), w\<lparr>now := now w + snd (http w (length (requests w)) (hd DRAND_ENDPOINTS @ latest_path)),
               requests := requests w @ [hd DRAND_ENDPOINTS @ latest_path],
               printed := printed w @ [''No new rounds to fetch.'']\<rparr>)"
  using assms by (rule cycle_no_gap)

theorem cycle_no_new_rounds_witness:
  "submit_new_pulses 7 (mock_world (Some 0) (Some 100) (resp_of_pulse (ex_pulse 100)) []) =
     (Ok (), (mock_world (Some 0) (Some 100) (resp_of_pulse (ex_pulse 100)) [])
        \<lparr>now := 5, requests := [hd DRAND_ENDPOINTS @ latest_path],
          printed := [''No new rounds to fetch.'']\<rparr>)"
proof -
  let ?w = "mock_world (Some 0) (Some 100) (resp_of_pulse (ex_pulse 100)) []"
  have "submit_new_pulses 7 ?w =
     (Ok (), ?w\<lparr>now := now ?w + snd (http ?w (length (requests ?w)) (hd DRAND_ENDPOINTS @ latest_path)),
                requests := requests ?w @ [hd DRAND_ENDPOINTS @ latest_path],
                printed := printed ?w @ [''No new rounds to fetch.'']\<rparr>)"
    by (rule cycle_no_new_rounds [where ?v1.0 = "Some 0" and ?v2.0 = "Some 100"
          and pc = "ex_pulse 100" and c = 100 and body = "resp_of_pulse (ex_pulse 100)"])
      (simp_all add: mock_simps try_into_pulse_resp_of_pulse)
  then show ?thesis
    by (simp add: mock_world_def mock_beacon_def)
qed

text \<open>
  C25. A cycle that raises has printed nothing, and has submitted nothing unless the
  exception is the one \<^verbatim>\<open>submit_extrinsic\<close> raised: a fetch or a validation that fails,
  for the latest pulse or for any target round, and an encoding that fails abort the
  cycle before anything reaches the chain, also when earlier rounds were fetched well.
\<close>

theorem cycle_raise_submits_nothing:
  assumes "fst (submit_new_pulses b w) = Raise e"
  shows "printed (snd (submit_new_pulses b w)) = printed w
    \<and> (submitted (snd (submit_new_pulses b w)) = submitted w
       \<or> (\<exists>x. submitted (snd (submit_new_pulses b w)) = submitted w @ [x]
              \<and> submit w (length (submitted w)) x = Raise e))"
proof (cases b w rule: cycle_outcomes)
  case (submitted ps l n bs w2 r out)
  with assms show ?thesis
    by (cases "submit w (length (submitted w)) (extrinsic_of b ps bs w)") simp_all
qed (use assms in \<open>simp_all add: net_frame_fields\<close>)

theorem cycle_raise_submits_nothing_witness:
  "fst (submit_new_pulses 7 (mock_world (Some 0) (Some 9) (resp_of_pulse (ex_pulse 12))
          [(10, resp_of_pulse (ex_pulse 10)), (11, ex_resp ''abcd'')]))
     = Raise (Exception ''Randomness is not 32 bytes'')
   \<and> printed (snd (submit_new_pulses 7 (mock_world (Some 0) (Some 9) (resp_of_pulse (ex_pulse 12))
          [(10, resp_of_pulse (ex_pulse 10)), (11, ex_resp ''abcd'')]))) = []
   \<and> submitted (snd (submit_new_pulses 7 (mock_world (Some 0) (Some 9) (resp_of_pulse (ex_pulse 12))
          [(10, resp_of_pulse (ex_pulse 10)), (11, ex_resp ''abcd'')]))) = []"
proof -
  let ?w = "mock_world (Some 0) (Some 9) (resp_of_pulse (ex_pulse 12))
          [(10, resp_of_pulse (ex_pulse 10)), (11, ex_resp ''abcd'')]"
  have r: "fst (submit_new_pulses 7 ?w) = Raise (Exception ''Randomness is not 32 bytes'')"
    using ex_refused_cycle by auto
  from cycle_raise_submits_nothing [OF r] r show ?thesis
    by simp
qed

text \<open>
  C12. One invalid round discards the batch. When the rounds before a target round are
  served well and that round is served with a body the validator refuses, the cycle
  raises the exception of the validator right after the request for that round: the
  later rounds are not asked for, and nothing is submitted or printed.
\<close>

theorem cycle_aborts_on_invalid_round:
  assumes "query w ''Drand'' ''NextUnsignedAt'' = Ok v1" "\<not> b < or_0 v1"
      "query w ''Drand'' ''LastStoredRound'' = Ok v2"
    and "serves w latest_path (resp_of_pulse pc)" "round_num pc = JInt c"
      "length (randomness pc) = 32"
    and "l = bootstrap (or_0 v2) c" "l < c" "n = rounds_to_fetch_of c l"
    and "target_rounds l n = rs @ r' # rs'"
      "\<forall>r \<in> set rs. serves w (round_path r) (resp_of_pulse (beacon r))
          \<and> length (randomness (beacon r)) = 32"
    and "serves w (round_path r') body" "try_into_pulse body = Raise e"
  shows "fst (submit_new_pulses b w) = Raise e
    \<and> submitted (snd (submit_new_pulses b w)) = submitted w
    \<and> printed (snd (submit_new_pulses b w)) = printed w
    \<and> requests (snd (submit_new_pulses b w)) = requests w
         @ map (\<lambda>p. hd DRAND_ENDPOINTS @ p) (latest_path # map round_path (rs @ [r']))"
  using cycle_refused [OF assms] by (auto simp: net_frame_fields)

theorem cycle_aborts_on_invalid_round_witness:
  "fst (submit_new_pulses 7 (mock_world (Some 0) (Some 9) (resp_of_pulse (ex_pulse 12))
          [(10, resp_of_pulse (ex_pulse 10)), (11, ex_resp ''abcd'')]))
     = Raise (Exception ''Randomness is not 32 bytes'')
   \<and> requests (snd (submit_new_pulses 7 (mock_world (Some 0) (Some 9) (resp_of_pulse (ex_pulse 12))
          [(10, resp_of_pulse (ex_pulse 10)), (11, ex_resp ''abcd'')])))
     = map (\<lambda>p. hd DRAND_ENDPOINTS @ p) [latest_path, round_path 10, round_path 11]"
  using cycle_aborts_on_invalid_round [where b = 7 and ?v1.0 = "Some 0" and ?v2.0 = "Some 9"
      and pc = "ex_pulse 12" and c = 12 and l = 9 and n = 3 and rs = "[10]" and r' = 11
      and rs' = "[12]" and beacon = ex_pulse and body = "ex_resp ''abcd''"
      and e = "Exception ''Randomness is not 32 bytes''"
      and w = "mock_world (Some 0) (Some 9) (resp_of_pulse (ex_pulse 12))
          [(10, resp_of_pulse (ex_pulse 10)), (11, ex_resp ''abcd'')]"]
    ex_refused_hyps
  by (simp add: ex_cycle_gate mock_simps)

text \<open>
  C1. The signature fits the call. Every extrinsic a cycle hands to the chain is the
  call \<^verbatim>\<open>Drand.write_pulse\<close> whose hexadecimal parameters read back as a payload with the
  block number and the public key of the cycle, and whose signature parameter reads back
  as the signature of the key pair over \<^verbatim>\<open>encode_pulses_payload\<close> of that very payload:
  what the chain verifies is what was signed.
\<close>

theorem cycle_submission_verifies:
  assumes "Unsigned_extrinsic c \<in> set (submitted (snd (submit_new_pulses b w)))"
    and "Unsigned_extrinsic c \<notin> set (submitted w)"
  shows "call_module c = ''Drand'' \<and> call_function c = ''write_pulse''
    \<and> (\<exists>pp bs. payload_of_call c = Ok pp \<and> block_number pp = b \<and> public pp = public_key w
          \<and> encode_pulses_payload pp = Ok bs \<and> signature_of_call c = Ok (sign w bs))"
proof (cases b w rule: cycle_outcomes)
  case (submitted ps l n bs w2 r out)
  with assms have "c = compose_write_pulse b ps (public_key w) (sign w bs)"
    by (simp add: extrinsic_of_def)
  with submitted(6) show ?thesis
    by simp
qed (use assms in \<open>simp_all add: net_frame_fields\<close>)

theorem cycle_submission_verifies_witness:
  "\<exists>c. submitted (snd (submit_new_pulses 7 ex_cycle_world)) = [Unsigned_extrinsic c]
     \<and> call_module c = ''Drand'' \<and> call_function c = ''write_pulse''
     \<and> (\<exists>pp bs. payload_of_call c = Ok pp \<and> block_number pp = 7 \<and> public pp = [9, 9]
           \<and> encode_pulses_payload pp = Ok bs \<and> signature_of_call c = Ok (rev bs))"
  using cycle_submission_verifies [of _ 7 ex_cycle_world] ex_cycle_submitted
  by (simp add: ex_cycle_world_def)

text \<open>
  The order of the requests. Under the hypotheses of a beacon that answers, the
  requests of a cycle are: one for the latest pulse, then one for each target round, in
  ascending order of the rounds, each round once, all to the first endpoint; nothing is
  requested after the last round, and no address is requested twice.
\<close>

theorem cycle_requests_in_order:
  assumes "query w ''Drand'' ''NextUnsignedAt'' = Ok v1" "\<not> b < or_0 v1"
      "query w ''Drand'' ''LastStoredRound'' = Ok v2"
    and "serves w latest_path (resp_of_pulse pc)" "round_num pc = JInt c"
      "length (randomness pc) = 32"
    and "l = bootstrap (or_0 v2) c" "l < c" "n = rounds_to_fetch_of c l"
    and "\<forall>r \<in> set (target_rounds l n).
      serves w (round_path r) (resp_of_pulse (beacon r)) \<and> length (randomness (beacon r)) = 32"
  shows "requests (snd (submit_new_pulses b w)) = requests w
     @ map (\<lambda>p. hd DRAND_ENDPOINTS @ p) (latest_path # map round_path [l + 1..l + n])
   \<and> distinct (map (\<lambda>p. hd DRAND_ENDPOINTS @ p) (latest_path # map round_path [l + 1..l + n]))"
  using cycle_served [OF assms] distinct_paths [of "hd DRAND_ENDPOINTS" "[l + 1..l + n]"]
  by (auto simp: sign_and_submit_net target_rounds_upto)

theorem cycle_requests_in_order_witness:
  "requests (snd (submit_new_pulses 7 ex_cycle_world))
     = map (\<lambda>p. hd DRAND_ENDPOINTS @ p) [latest_path, round_path 10, round_path 11, round_path 12]"
  using cycle_requests_in_order [of ex_cycle_world "Some 0" 7 "Some 9" "ex_pulse 12" 12 9 3 ex_pulse]
    ex_cycle_world_serves
  by (simp add: ex_cycle_simps)

text \<open>
  C14. Every cycle ends, within bounds that do not depend on what the network and the chain
  answer. The loop over the endpoints runs at most five times for each fetch and the
  loop over the rounds at most 50 times, so a cycle makes at most 255 requests; and when
  every request takes between 0 and \<open>T\<close> milliseconds, the clock advances by at most 51
  times the timeout plus \<open>T\<close> during the cycle.
\<close>

theorem cycle_ends_within:
  "length (requests (snd (submit_new_pulses b w))) \<le> length (requests w) + 255
   \<and> (durations_within T w \<longrightarrow>
         now w \<le> now (snd (submit_new_pulses b w))
         \<and> now (snd (submit_new_pulses b w)) \<le> now w + 51 * (HTTP_FETCH_TIMEOUT + T))"
  using net_costD(2) [OF cycle_cost [of w b]] net_costD(3,4) [OF cycle_cost [of w b], of T]
  by (simp add: DRAND_ENDPOINTS_def)

theorem cycle_ends_within_witness:
  "durations_within 5 ex_cycle_world
   \<and> length (requests (snd (submit_new_pulses 7 ex_cycle_world))) = 4
   \<and> now (snd (submit_new_pulses 7 ex_cycle_world)) \<le> 51 * (HTTP_FETCH_TIMEOUT + 5)"
proof -
  have d: "durations_within 5 ex_cycle_world"
    by (simp add: durations_within_def ex_cycle_world_def mock_world_def mock_beacon_def
        split: option.splits)
  with cycle_ends_within [of 7 ex_cycle_world 5] ex_cycle_requests show ?thesis
    by (simp add: ex_cycle_world_def mock_world_def)
qed

text \<open>
  C26. A cycle prints at most one line, and the line is never
  \<^verbatim>\<open>No new pulses to submit.\<close>: the test for an empty list of pulses after the loop
  (lines 126-128) never succeeds, since the loop runs at least once and an iteration
  either appends a pulse or raises.
\<close>

theorem cycle_prints_at_most_one_line:
  "\<exists>out. printed (snd (submit_new_pulses b w)) = printed w @ out \<and> length out \<le> 1
     \<and> ''No new pulses to submit.'' \<notin> set out"
proof (cases b w rule: cycle_outcomes)
  case (submitted ps l n bs w2 r out)
  then show ?thesis
    by (cases "submit w (length (submitted w)) (extrinsic_of b ps bs w)") auto
qed (simp_all add: net_frame_fields)

text \<open>
  Consecutive rounds from a beacon that answers with the round requested. Under the
  hypotheses of a beacon that answers, if moreover the pulse served for each target
  round carries that round, the one extrinsic submitted carries the rounds
  \<open>l + 1\<close> to \<open>l + n\<close> in ascending order, none missing and none twice: all above the
  last stored round and none above the latest.
\<close>

theorem cycle_honest_beacon_consecutive:
  assumes "query w ''Drand'' ''NextUnsignedAt'' = Ok v1" "\<not> b < or_0 v1"
      "query w ''Drand'' ''LastStoredRound'' = Ok v2"
    and "serves w latest_path (resp_of_pulse pc)" "round_num pc = JInt c"
      "length (randomness pc) = 32"
    and "l = bootstrap (or_0 v2) c" "l < c" "n = rounds_to_fetch_of c l"
    and "\<forall>r \<in> set (target_rounds l n).
      serves w (round_path r) (resp_of_pulse (beacon r)) \<and> length (randomness (beacon r)) = 32"
    and "encodable_payload
      \<lparr>block_number = b, pulses = map beacon (target_rounds l n), public = public_key w\<rparr>"
    and "\<forall>r \<in> set (target_rounds l n). round_num (beacon r) = JInt r"
  shows "\<exists>x. submitted (snd (submit_new_pulses b w)) = submitted w @ [Unsigned_extrinsic x]
    \<and> map call_round (call_pulses (param_pulses_payload x)) = map JInt [l + 1..l + n]
    \<and> l + n \<le> c"
proof -
  from assms(12) have "map (round_num \<circ> beacon) (target_rounds l n) = map JInt (target_rounds l n)"
    by simp
  with cycle_served_submitted [OF assms(1-11)] rounds_to_fetch_of_bounds(3) [OF assms(8)] assms(9)
  show ?thesis
    by (simp add: target_rounds_upto)
qed

theorem cycle_honest_beacon_consecutive_witness:
  "\<exists>x. submitted (snd (submit_new_pulses 7 ex_cycle_world)) = [Unsigned_extrinsic x]
     \<and> map call_round (call_pulses (param_pulses_payload x)) = [JInt 10, JInt 11, JInt 12]"
  using cycle_honest_beacon_consecutive
      [of ex_cycle_world "Some 0" 7 "Some 9" "ex_pulse 12" 12 9 3 ex_pulse]
    ex_cycle_world_serves ex_cycle_encodable
  by (simp add: ex_cycle_simps)

text \<open>
  C8. The cycle implements the submission gate of the specification. When the chain
  answers both queries and the latest pulse of the beacon is served and valid, of round
  \<open>c\<close>, the cycle is the decision \<open>gate_decision\<close> for the block, the two values read
  (absent ones as 0) and \<open>c\<close>, followed by what the decision asks for: below the threshold
  nothing at all, not even the request for the latest pulse; with no gap that request
  and the line \<^verbatim>\<open>No new rounds to fetch.\<close>; otherwise the request, the loop over
  exactly the rounds decided, and the submitter with the last stored round and the
  number of rounds the decision implies.
\<close>

theorem cycle_follows_gate:
  assumes "query w ''Drand'' ''NextUnsignedAt'' = Ok v1"
    and "query w ''Drand'' ''LastStoredRound'' = Ok v2"
    and "serves w latest_path body" and "try_into_pulse body = Ok pc"
    and "round_num pc = JInt c"
    and "w1 = w\<lparr>now := now w + snd (http w (length (requests w)) (hd DRAND_ENDPOINTS @ latest_path)),
                  requests := requests w @ [hd DRAND_ENDPOINTS @ latest_path]\<rparr>"
  shows "submit_new_pulses b w =
     (case gate_decision b (or_0 v1) (or_0 v2) c of
        Below_threshold \<Rightarrow> (Ok (), w)
      | No_gap \<Rightarrow> print ''No new rounds to fetch.'' w1
      | Eligible rs \<Rightarrow>
          bind_io (fetch_pulses rs []) (\<lambda>pulse_list.
            if pulse_list = [] then print ''No new pulses to submit.''
            else sign_and_submit b pulse_list (hd rs - 1) (int (length rs))) w1)"
  using assms by (rule cycle_by_decision)

theorem cycle_follows_gate_witness:
  "gate_decision 7 0 9 12 = Eligible [10, 11, 12]
   \<and> submit_new_pulses 7 ex_cycle_world =
       bind_io (fetch_pulses [10, 11, 12] []) (\<lambda>pulse_list.
          if pulse_list = [] then print ''No new pulses to submit.''
          else sign_and_submit 7 pulse_list 9 3)
        (ex_cycle_world\<lparr>now := 5, requests := [hd DRAND_ENDPOINTS @ latest_path]\<rparr>)"
proof -
  have d: "gate_decision 7 0 9 12 = Eligible [10, 11, 12]"
    by (simp add: gate_decision_def upto.simps)
  have w1: "ex_cycle_world\<lparr>now := 5, requests := [hd DRAND_ENDPOINTS @ latest_path]\<rparr> =
      ex_cycle_world\<lparr>now := now ex_cycle_world
          + snd (http ex_cycle_world (length (requests ex_cycle_world)) (hd DRAND_ENDPOINTS @ latest_path)),
        requests := requests ex_cycle_world @ [hd DRAND_ENDPOINTS @ latest_path]\<rparr>"
    by (simp add: ex_cycle_world_def mock_world_def mock_beacon_def)
  from cycle_follows_gate [where w = ex_cycle_world and ?v1.0 = "Some 0" and ?v2.0 = "Some 9"
      and pc = "ex_pulse 12" and c = 12 and body = "resp_of_pulse (ex_pulse 12)" and b = 7, OF _ _ _ _ _ w1]
  show ?thesis
    by (simp add: d ex_cycle_world_def mock_simps
        try_into_pulse_resp_of_pulse cong: if_cong)
qed

text \<open>
  C23. A latest answer that the validator refuses. When the chain answers both queries,
  the block is not below the threshold and the first endpoint serves, for the latest
  pulse, a body that \<^verbatim>\<open>try_into_pulse\<close> refuses, the cycle raises the exception of the
  validator right after the one request for the latest pulse (line 110): nothing is
  caught, no round is requested, nothing is submitted or printed. The witness is a body
  that is JSON and no object, an array, which the validator refuses with \<^verbatim>\<open>TypeError\<close>
  at its first lookup.
\<close>

theorem cycle_aborts_on_invalid_latest:
  assumes "query w ''Drand'' ''NextUnsignedAt'' = Ok v1" and "\<not> b < or_0 v1"
    and "query w ''Drand'' ''LastStoredRound'' = Ok v2"
    and "serves w latest_path body" and "try_into_pulse body = Raise e"
  shows "submit_new_pulses b w =
     (Raise e,
      w\<lparr>now := now w + snd (http w (length (requests w)) (hd DRAND_ENDPOINTS @ latest_path)),
        requests := requests w @ [hd DRAND_ENDPOINTS @ latest_path]\<rparr>)"
  using assms by (rule cycle_invalid_latest)

theorem cycle_aborts_on_invalid_latest_witness:
  "submit_new_pulses 7 (mock_world (Some 0) (Some 9) (JArray [JInt 12]) []) =
     (Raise TypeError, (mock_world (Some 0) (Some 9) (JArray [JInt 12]) [])
        \<lparr>now := 5, requests := [hd DRAND_ENDPOINTS @ latest_path]\<rparr>)"
proof -
  let ?w = "mock_world (Some 0) (Some 9) (JArray [JInt 12]) []"
  have "submit_new_pulses 7 ?w =
     (Raise TypeError,
      ?w\<lparr>now := now ?w + snd (http ?w (length (requests ?w)) (hd DRAND_ENDPOINTS @ latest_path)),
         requests := requests ?w @ [hd DRAND_ENDPOINTS @ latest_path]\<rparr>)"
    by (rule cycle_aborts_on_invalid_latest [where ?v1.0 = "Some 0" and ?v2.0 = "Some 9"
          and body = "JArray [JInt 12]"])
      (simp_all add: mock_simps try_into_pulse_no_object)
  then show ?thesis
    by (simp add: mock_world_def mock_beacon_def)
qed

text \<open>
  C24. A latest round that is not an integer. When the chain answers both queries, the
  block is not below the threshold and the latest pulse of the beacon passes the
  validator with a round that is no JSON integer, the cycle raises \<^verbatim>\<open>TypeError\<close> right
  after the one request for the latest pulse: the validator has not looked at the round,
  and the gate computes with it. Nothing is submitted or printed.
\<close>

theorem cycle_latest_string_round:
  assumes "query w ''Drand'' ''NextUnsignedAt'' = Ok v1" and "\<not> b < or_0 v1"
    and "query w ''Drand'' ''LastStoredRound'' = Ok v2"
    and "serves w latest_path body" and "try_into_pulse body = Ok pc"
    and "\<not> is_integer (round_num pc)"
  shows "submit_new_pulses b w =
     (Raise TypeError,
      w\<lparr>now := now w + snd (http w (length (requests w)) (hd DRAND_ENDPOINTS @ latest_path)),
        requests := requests w @ [hd DRAND_ENDPOINTS @ latest_path]\<rparr>)"
  using assms by (rule cycle_string_round)

theorem cycle_latest_string_round_witness:
  "submit_new_pulses 7 (mock_world (Some 0) (Some 9)
      (resp_of_pulse \<lparr>round_num = JStr ''12'', randomness = replicate 32 0, signature = []\<rparr>) []) =
     (Raise TypeError, (mock_world (Some 0) (Some 9)
      (resp_of_pulse \<lparr>round_num = JStr ''12'', randomness = replicate 32 0, signature = []\<rparr>) [])
        \<lparr>now := 5, requests := [hd DRAND_ENDPOINTS @ latest_path]\<rparr>)"
proof -
  let ?p = "\<lparr>round_num = JStr ''12'', randomness = replicate 32 0, signature = []\<rparr>"
  let ?w = "mock_world (Some 0) (Some 9) (resp_of_pulse ?p) []"
  have "submit_new_pulses 7 ?w =
     (Raise TypeError,
      ?w\<lparr>now := now ?w + snd (http ?w (length (requests ?w)) (hd DRAND_ENDPOINTS @ latest_path)),
         requests := requests ?w @ [hd DRAND_ENDPOINTS @ latest_path]\<rparr>)"
    by (rule cycle_latest_string_round [where ?v1.0 = "Some 0" and ?v2.0 = "Some 9"
          and pc = ?p and body = "resp_of_pulse ?p"])
      (simp_all add: mock_simps try_into_pulse_resp_of_pulse)
  then show ?thesis
    by (simp add: mock_world_def mock_beacon_def)
qed

end
