(* ===== verification/Subscription.thy ===== *)
theory Subscription
  imports Cycle_Properties
begin

text \<open>
  The run of the program: the subscription to new block headers (line 179 of
  \<^verbatim>\<open>src/ocw.py\<close>), which calls \<^verbatim>\<open>block_subscription_handler\<close> once for each header, one
  call after the other. The loop belongs to the client library; it is modelled from what
  the specification says of it (notifications are delivered sequentially, each cycle
  runs to completion before the next) and from what Python does with an exception that
  nothing catches: it leaves the handler, the loop and the program. The lemmas unfold
  the loop one header at a time, split it over a list of headers in two parts
  (\<open>subscribe_append\<close>), give the rule for the runs that do not raise
  (\<open>subscribe_invariant\<close>) and the run against a chain that does not move; the run as a
  transition system is in \<open>Run_Machine\<close>.
\<close>

section \<open>The subscription\<close>

type_synonym chain_state = "string \<Rightarrow> string \<Rightarrow> int option result"

type_synonym 'w handler = "block_header \<Rightarrow> nat \<Rightarrow> nat \<Rightarrow> (unit, 'w) io"

text \<open>
  The chain moves on between two notifications, by what others do and by what it has been
  handed: \<open>chain k xs\<close> is what the queries return while the header of number \<open>k\<close> in
  the order of delivery is handled, the extrinsics \<open>xs\<close> having been submitted before.
  It is a parameter; nothing is assumed of it.
\<close>

type_synonym chain_model = "nat \<Rightarrow> extrinsic list \<Rightarrow> chain_state"

definition deliver :: "chain_model \<Rightarrow> nat \<Rightarrow> 'a world_scheme \<Rightarrow> 'a world_scheme" where
  "deliver chain update_nr w = w\<lparr>query := chain update_nr (submitted w)\<rparr>"

text \<open>
  The loop over the headers delivered, a finite prefix of the feed. The handler of the
  program returns nothing, so the loop goes on until a call raises.
\<close>

fun subscribe_block_headers ::
  "'a world_scheme handler \<Rightarrow> chain_model \<Rightarrow> nat \<Rightarrow> nat \<Rightarrow> block_header list
     \<Rightarrow> (unit, 'a world_scheme) io"
where
  "subscribe_block_headers subscription_handler chain subscription_id update_nr [] = return_io ()"
| "subscribe_block_headers subscription_handler chain subscription_id update_nr (obj # objs) =
     (\<lambda>w. bind_io (subscription_handler obj update_nr subscription_id)
            (\<lambda>_. subscribe_block_headers subscription_handler chain subscription_id
                    (Suc update_nr) objs)
            (deliver chain update_nr w))"

declare subscribe_block_headers.simps(2) [simp del]

text \<open>Line 179.\<close>

definition run_subscription ::
  "chain_model \<Rightarrow> block_header list \<Rightarrow> (unit, 'a world_scheme) io" where
  "run_subscription chain objs =
     subscribe_block_headers block_subscription_handler chain 0 0 objs"

section \<open>Facts about the loop, for any handler\<close>

lemma deliver_fields [simp]:
  "query (deliver chain k w) = chain k (submitted w)"
  "http (deliver chain k w) = http w" "now (deliver chain k w) = now w"
  "requests (deliver chain k w) = requests w"
  "public_key (deliver chain k w) = public_key w" "sign (deliver chain k w) = sign w"
  "submit (deliver chain k w) = submit w" "submitted (deliver chain k w) = submitted w"
  "printed (deliver chain k w) = printed w"
  by (simp_all add: deliver_def)

lemma subscribe_Raise:
  assumes "fst (h obj k sid (deliver chain k w)) = Raise e"
  shows "subscribe_block_headers h chain sid k (obj # objs) w
           = (Raise e, snd (h obj k sid (deliver chain k w)))"
  using assms
  by (cases "h obj k sid (deliver chain k w)") (simp add: subscribe_block_headers.simps(2) bind_io_Raise)

lemma subscribe_Ok:
  assumes "fst (h obj k sid (deliver chain k w)) = Ok u"
  shows "subscribe_block_headers h chain sid k (obj # objs) w
           = subscribe_block_headers h chain sid (Suc k) objs (snd (h obj k sid (deliver chain k w)))"
  using assms
  by (cases "h obj k sid (deliver chain k w)") (simp add: subscribe_block_headers.simps(2) bind_io_Ok)

text \<open>The loop over a list of headers in two parts.\<close>

lemma subscribe_append:
  "subscribe_block_headers h chain sid k (ds @ objs) w =
     bind_io (subscribe_block_headers h chain sid k ds)
       (\<lambda>_. subscribe_block_headers h chain sid (k + length ds) objs) w"
proof (induction ds arbitrary: k w)
  case Nil
  then show ?case by simp
next
  case (Cons obj ds)
  show ?case
    by (cases "h obj k sid (deliver chain k w)" rule: prod.exhaust [case_names Pair])
      (auto simp: subscribe_block_headers.simps(2) bind_io_def Cons.IH split: sum.splits)
qed

text \<open>
  The rule for the runs that do not raise. A property \<open>I\<close> of the headers handled so far
  and the world, which every header re-establishes while the handler returns, holds when
  the loop returns, and the loop does return.
\<close>

lemma subscribe_invariant:
  assumes "I ds w"
    and "\<And>obj ds w. obj \<in> set objs \<Longrightarrow> I ds w \<Longrightarrow>
       fst (h obj (k + length ds) sid (deliver chain (k + length ds) w)) = Ok ()
       \<and> I (ds @ [obj]) (snd (h obj (k + length ds) sid (deliver chain (k + length ds) w)))"
  shows "fst (subscribe_block_headers h chain sid (k + length ds) objs w) = Ok ()
    \<and> I (ds @ objs) (snd (subscribe_block_headers h chain sid (k + length ds) objs w))"
  using assms
proof (induction objs arbitrary: ds w)
  case Nil
  then show ?case by (simp add: return_io_def)
next
  case (Cons obj objs)
  let ?w' = "snd (h obj (k + length ds) sid (deliver chain (k + length ds) w))"
  from Cons.prems(2) [of obj ds w] Cons.prems(1)
  have ok: "fst (h obj (k + length ds) sid (deliver chain (k + length ds) w)) = Ok ()"
    and inv: "I (ds @ [obj]) ?w'"
    by simp_all
  from Cons.IH [of "ds @ [obj]" ?w', OF inv] Cons.prems(2)
    subscribe_Ok [of h obj "k + length ds" sid chain w "()" objs, OF ok]
  show ?case by simp
qed

section \<open>A run against a chain that does not move\<close>

text \<open>
  The chain gives the same answers at every header, the block numbers are not below the
  threshold, the beacon serves the same valid pulses every time, and no submission
  raises. Then every header leads to a submission, of the same pulses, with the block
  number of that header.
\<close>

lemma run_repeats:
  fixes w :: "'a world_scheme"
  assumes chain: "\<And>k xs. chain k xs ''Drand'' ''NextUnsignedAt'' = Ok v1"
      "\<And>k xs. chain k xs ''Drand'' ''LastStoredRound'' = Ok v2"
    and gap: "round_num pc = JInt c" "length (randomness pc) = 32"
      "l = bootstrap (or_0 v2) c" "l < c" "n = rounds_to_fetch_of c l"
    and fits: "\<forall>obj \<in> set objs. \<not> number obj < or_0 v1 \<and> encodable_payload
         \<lparr>block_number = number obj, pulses = map beacon (target_rounds l n), public = pk\<rparr>"
    and world: "serves w latest_path (resp_of_pulse pc)"
      "\<forall>r \<in> set (target_rounds l n).
         serves w (round_path r) (resp_of_pulse (beacon r)) \<and> length (randomness (beacon r)) = 32"
      "public_key w = pk" "sign w = sg" "\<forall>m x. is_ok (submit w m x)"
  shows "fst (subscribe_block_headers block_subscription_handler chain sid k objs w) = Ok ()
    \<and> submitted (snd (subscribe_block_headers block_subscription_handler chain sid k objs w))
        = submitted w @ map (\<lambda>obj. Unsigned_extrinsic
            (compose_write_pulse (number obj) (map beacon (target_rounds l n)) pk
               (sg (payload_bytes \<lparr>block_number = number obj,
                      pulses = map beacon (target_rounds l n), public = pk\<rparr>)))) objs"
proof -
  let ?x = "\<lambda>obj. Unsigned_extrinsic
      (compose_write_pulse (number obj) (map beacon (target_rounds l n)) pk
         (sg (payload_bytes \<lparr>block_number = number obj,
                pulses = map beacon (target_rounds l n), public = pk\<rparr>)))"
  let ?I = "\<lambda>ds w'. submitted w' = submitted w @ map ?x ds \<and> http w' = http w
      \<and> public_key w' = pk \<and> sign w' = sg \<and> submit w' = submit w"
  have "fst (block_subscription_handler obj (k + length ds) sid (deliver chain (k + length ds) u)) = Ok ()
      \<and> ?I (ds @ [obj]) (snd (block_subscription_handler obj (k + length ds) sid
            (deliver chain (k + length ds) u)))"
    if obj: "obj \<in> set objs" and inv: "?I ds u" for obj ds and u :: "'a world_scheme"
  proof -
    let ?u = "deliver chain (k + length ds) u"
    from inv world have served: "serves ?u latest_path (resp_of_pulse pc)"
      "\<forall>r \<in> set (target_rounds l n).
         serves ?u (round_path r) (resp_of_pulse (beacon r)) \<and> length (randomness (beacon r)) = 32"
      by (simp_all add: serves_cong [of ?u w])
    from obj fits inv world have nb: "\<not> number obj < or_0 v1"
      and enc: "encodable_payload \<lparr>block_number = number obj,
          pulses = map beacon (target_rounds l n), public = public_key ?u\<rparr>"
      and oks: "\<forall>x. is_ok (submit ?u (length (submitted ?u)) x)"
      by simp_all
    have q: "query ?u ''Drand'' ''NextUnsignedAt'' = Ok v1"
      "query ?u ''Drand'' ''LastStoredRound'' = Ok v2"
      by (simp_all add: chain)
    note cyc = q(1) nb q(2) served(1) gap served(2) enc
    have "fst (submit_new_pulses (number obj) ?u) = Ok ()"
      by (rule cycle_served_Ok [OF cyc oks])
    moreover from cycle_served_submitted [OF cyc] inv
    have "submitted (snd (submit_new_pulses (number obj) ?u)) = submitted w @ map ?x (ds @ [obj])"
      by simp
    ultimately show ?thesis
      using inv by (simp add: block_subscription_handler_cycle cycle_frame)
  qed
  moreover from world have "?I [] w"
    by simp
  ultimately show ?thesis
    using subscribe_invariant [of ?I "[]" w objs block_subscription_handler k sid chain]
    by simp
qed

text \<open>The mocked chain and beacon of the cycle, for two headers.\<close>

lemma ex_run_encodable:
  "encodable_payload \<lparr>block_number = 7, pulses = map ex_pulse [10, 11, 12], public = [9, 9]\<rparr>"
  "encodable_payload \<lparr>block_number = 8, pulses = map ex_pulse [10, 11, 12], public = [9, 9]\<rparr>"
  by (simp_all add: encodable_payload_def encodable_pulse_def ex_pulse_def)

abbreviation ex_chain :: chain_model where
  "ex_chain \<equiv> \<lambda>k xs. mock_chain (Some 0) (Some 9)"

abbreviation ex_headers :: "block_header list" where
  "ex_headers \<equiv> [\<lparr>number = 7\<rparr>, \<lparr>number = 8\<rparr>]"

lemma ex_run:
  "fst (run_subscription ex_chain ex_headers ex_cycle_world) = Ok ()"
  "submitted (snd (run_subscription ex_chain ex_headers ex_cycle_world))
     = map (\<lambda>b. Unsigned_extrinsic (compose_write_pulse b (map ex_pulse [10, 11, 12]) [9, 9]
         (rev (payload_bytes \<lparr>block_number = b, pulses = map ex_pulse [10, 11, 12], public = [9, 9]\<rparr>))))
       [7, 8]"
  using run_repeats [where chain = ex_chain
      and ?v1.0 = "Some 0" and ?v2.0 = "Some 9" and pc = "ex_pulse 12" and c = 12 and l = 9
      and n = 3 and beacon = ex_pulse and pk = "[9, 9]" and sg = rev and w = ex_cycle_world
      and objs = ex_headers and sid = 0 and k = 0]
    ex_cycle_world_serves ex_run_encodable
  by (simp_all add: ex_cycle_simps
      run_subscription_def)

section \<open>The properties of a run\<close>

text \<open>
  C20. A cycle that raises ends the run. Nothing in the program catches an exception of
  \<^verbatim>\<open>submit_new_pulses\<close>: when the headers \<open>ds\<close> have been handled and the cycle of the
  next header raises, the run ends with that exception in the world that cycle left,
  whatever headers are delivered after it: they are not handled. In the witness the first
  header is below the threshold and the second meets an invalid round.
\<close>

theorem run_ends_at_first_raise:
  assumes "run_subscription chain ds w = (Ok (), w1)"
    and "fst (submit_new_pulses (number obj) (deliver chain (length ds) w1)) = Raise e"
  shows "run_subscription chain (ds @ obj # objs) w
           = (Raise e, snd (submit_new_pulses (number obj) (deliver chain (length ds) w1)))"
  using assms subscribe_Raise [of block_subscription_handler obj "length ds" 0 chain w1 e objs]
  by (simp add: run_subscription_def subscribe_append bind_io_Ok block_subscription_handler_cycle)

theorem run_ends_at_first_raise_witness:
  "fst (run_subscription
     (\<lambda>k xs. if k = 0 then mock_chain (Some 100) (Some 9) else mock_chain (Some 0) (Some 9))
     [\<lparr>number = 6\<rparr>, \<lparr>number = 7\<rparr>, \<lparr>number = 8\<rparr>]
     (mock_world (Some 0) (Some 9) (resp_of_pulse (ex_pulse 12))
        [(10, resp_of_pulse (ex_pulse 10)), (11, ex_resp ''abcd'')]))
     = Raise (Exception ''Randomness is not 32 bytes'')
   \<and> length (requests (snd (run_subscription
       (\<lambda>k xs. if k = 0 then mock_chain (Some 100) (Some 9) else mock_chain (Some 0) (Some 9))
       [\<lparr>number = 6\<rparr>, \<lparr>number = 7\<rparr>, \<lparr>number = 8\<rparr>]
       (mock_world (Some 0) (Some 9) (resp_of_pulse (ex_pulse 12))
          [(10, resp_of_pulse (ex_pulse 10)), (11, ex_resp ''abcd'')])))) = 3"
proof -
  let ?chain = "\<lambda>k xs. if k = (0 :: nat) then mock_chain (Some 100) (Some 9)
       else mock_chain (Some 0) (Some 9)"
  let ?w = "mock_world (Some 0) (Some 9) (resp_of_pulse (ex_pulse 12))
          [(10, resp_of_pulse (ex_pulse 10)), (11, ex_resp ''abcd'')]"
  have first: "run_subscription ?chain [\<lparr>number = 6\<rparr>] ?w = (Ok (), deliver ?chain 0 ?w)"
    by (simp add: run_subscription_def subscribe_block_headers.simps(2)
        block_subscription_handler_cycle deliver_def cycle_defs mock_chain_def)
  have second: "deliver ?chain (Suc 0) (deliver ?chain 0 ?w) = ?w"
    by (simp add: deliver_def mock_world_def)
  from ex_refused_cycle obtain w2 where
    "submit_new_pulses 7 ?w = (Raise (Exception ''Randomness is not 32 bytes''), w2)"
    "length (requests w2) = 3"
    by auto
  with run_ends_at_first_raise [OF first,
      of "\<lparr>number = 7\<rparr>" "Exception ''Randomness is not 32 bytes''" "[\<lparr>number = 8\<rparr>]"]
  show ?thesis
    by (simp add: second)
qed

text \<open>
  C21. Until the chain moves, the batch is repeated. While the chain gives the same
  answers, the block numbers are not below the threshold, the beacon serves the same
  valid pulses and no submission raises, every header leads to one submission of the
  same pulses with the block number of that header, whatever the receipts said: a
  rejected batch is tried again at the next header, and so is an accepted one as long
  as the chain still reports the old round.
\<close>

theorem run_repeats_until_chain_moves:
  assumes "\<And>k xs. chain k xs ''Drand'' ''NextUnsignedAt'' = Ok v1"
      "\<And>k xs. chain k xs ''Drand'' ''LastStoredRound'' = Ok v2"
    and "round_num pc = JInt c" "length (randomness pc) = 32"
      "l = bootstrap (or_0 v2) c" "l < c" "n = rounds_to_fetch_of c l"
    and "\<forall>obj \<in> set objs. \<not> number obj < or_0 v1 \<and> encodable_payload
         \<lparr>block_number = number obj, pulses = map beacon (target_rounds l n), public = pk\<rparr>"
    and "serves w latest_path (resp_of_pulse pc)"
      "\<forall>r \<in> set (target_rounds l n).
         serves w (round_path r) (resp_of_pulse (beacon r)) \<and> length (randomness (beacon r)) = 32"
      "public_key w = pk" "sign w = sg" "\<forall>m x. is_ok (submit w m x)"
  shows "fst (run_subscription chain objs w) = Ok ()
    \<and> submitted (snd (run_subscription chain objs w))
        = submitted w @ map (\<lambda>obj. Unsigned_extrinsic
            (compose_write_pulse (number obj) (map beacon (target_rounds l n)) pk
               (sg (payload_bytes \<lparr>block_number = number obj,
                      pulses = map beacon (target_rounds l n), public = pk\<rparr>)))) objs"
  unfolding run_subscription_def using assms by (rule run_repeats)

theorem run_repeats_until_chain_moves_witness:
  "map (\<lambda>x. case x of Unsigned_extrinsic c \<Rightarrow> payload_of_call c)
     (submitted (snd (run_subscription ex_chain
        [\<lparr>number = 7\<rparr>, \<lparr>number = 8\<rparr>] ex_cycle_world)))
   = [Ok \<lparr>block_number = 7, pulses = [ex_pulse 10, ex_pulse 11, ex_pulse 12], public = [9, 9]\<rparr>,
      Ok \<lparr>block_number = 8, pulses = [ex_pulse 10, ex_pulse 11, ex_pulse 12], public = [9, 9]\<rparr>]"
  using run_repeats_until_chain_moves [where chain = ex_chain
      and ?v1.0 = "Some 0" and ?v2.0 = "Some 9" and pc = "ex_pulse 12" and c = 12 and l = 9
      and n = 3 and beacon = ex_pulse and pk = "[9, 9]" and sg = rev and w = ex_cycle_world
      and objs = "[\<lparr>number = 7\<rparr>, \<lparr>number = 8\<rparr>]"]
    ex_cycle_world_serves ex_run_encodable
  by (simp add: ex_cycle_simps)

end
