(* ===== verification/Run_Machine.thy ===== *)
theory Run_Machine
  imports Subscription "HOL-Library.Sublist"
begin

text \<open>
  The run of the program as a transition system, and the transition system of the
  specification that it refines. A step of the program is the handling of one block
  header; the state says whether the subscription is still running. The specification
  (sections 3 to 5) sees only the log of what has been submitted: at each header the log
  stays as it is or grows by one submission that is typed, carries the block number of
  that header and the public key, and is signed over its encoding. The abstract machine
  and the abstraction function are specifications; the steps of the program are those of
  \<^verbatim>\<open>subscribe_block_headers\<close> in \<open>Subscription\<close>.
\<close>

section \<open>Runs of a machine\<close>

text \<open>\<open>steps R s es s'\<close>: the machine \<open>R\<close> goes from \<open>s\<close> to \<open>s'\<close> by the events \<open>es\<close>, in order.\<close>

inductive steps :: "('s \<Rightarrow> 'e \<Rightarrow> 's \<Rightarrow> bool) \<Rightarrow> 's \<Rightarrow> 'e list \<Rightarrow> 's \<Rightarrow> bool" for R where
  steps_Nil: "steps R s [] s"
| steps_Cons: "R s e s' \<Longrightarrow> steps R s' es s'' \<Longrightarrow> steps R s (e # es) s''"

inductive_simps steps_Nil_iff [simp]: "steps R s [] s'"
inductive_simps steps_Cons_iff: "steps R s (e # es) s'"

inductive_cases steps_ConsE: "steps R s (e # es) s'"

lemma steps_append:
  "steps R s (es @ es') s'' \<longleftrightarrow> (\<exists>s'. steps R s es s' \<and> steps R s' es' s'')"
  by (induction es arbitrary: s) (auto simp: steps_Cons_iff)

lemma steps_single [simp]: "steps R s [e] s' \<longleftrightarrow> R s e s'"
  by (simp add: steps_Cons_iff)

text \<open>An invariant of every step holds along a run.\<close>

lemma steps_invariant:
  assumes "steps R s es s'" and "I s"
    and "\<And>s e s'. R s e s' \<Longrightarrow> I s \<Longrightarrow> I s'"
  shows "I s'"
  using assms(1,2) by (induction rule: steps.induct) (auto intro: assms(3))

text \<open>
  Simulation with an abstraction function: if every step of \<open>R\<close> from a state that
  satisfies \<open>I\<close> is a step of \<open>A\<close> between the abstractions and keeps \<open>I\<close>, every run of
  \<open>R\<close> is a run of \<open>A\<close> between the abstractions.
\<close>

lemma steps_simulation:
  assumes "steps R s es s'" and "I s"
    and "\<And>s e s'. R s e s' \<Longrightarrow> I s \<Longrightarrow> A (h s) e (h s') \<and> I s'"
  shows "steps A (h s) es (h s') \<and> I s'"
  using assms(1,2)
proof (induction rule: steps.induct)
  case (steps_Nil s)
  then show ?case by simp
next
  case (steps_Cons s e s' es s'')
  from assms(3) [OF steps_Cons.hyps(1) steps_Cons.prems]
  have "A (h s) e (h s')" "I s'"
    by simp_all
  with steps_Cons.IH show ?case
    by (auto simp: steps_Cons_iff)
qed

section \<open>The program as a machine\<close>

text \<open>
  The subscription is running and has delivered \<open>update_nr\<close> headers, or it has ended
  with an exception; in both cases the world is as the last cycle left it.
\<close>

datatype 'w run_state = Running nat 'w | Ended error 'w

fun world_of :: "'w run_state \<Rightarrow> 'w" where
  "world_of (Running update_nr w) = w"
| "world_of (Ended e w) = w"

text \<open>
  One iteration of the loop of \<^verbatim>\<open>subscribe_block_headers\<close>: the header is delivered, the
  handler runs, and an exception of the handler ends the subscription. A subscription
  that has ended makes no step.
\<close>

inductive run_step ::
  "'a world_scheme handler \<Rightarrow> chain_model \<Rightarrow> nat
     \<Rightarrow> 'a world_scheme run_state \<Rightarrow> block_header \<Rightarrow> 'a world_scheme run_state \<Rightarrow> bool"
  for subscription_handler chain subscription_id
where
  handled:
    "subscription_handler obj update_nr subscription_id (deliver chain update_nr w) = (Ok (), w')
     \<Longrightarrow> run_step subscription_handler chain subscription_id
           (Running update_nr w) obj (Running (Suc update_nr) w')"
| raised:
    "subscription_handler obj update_nr subscription_id (deliver chain update_nr w) = (Raise e, w')
     \<Longrightarrow> run_step subscription_handler chain subscription_id
           (Running update_nr w) obj (Ended e w')"

inductive_cases run_step_RunningE: "run_step h chain sid (Running k w) obj s'"
inductive_cases run_step_EndedE [elim!]: "run_step h chain sid (Ended e w) obj s'"

code_pred run_step .

lemma run_step_iff:
  "run_step h chain sid (Running k w) obj s' \<longleftrightarrow>
     s' = (case fst (h obj k sid (deliver chain k w)) of
             Inl e \<Rightarrow> Ended e (snd (h obj k sid (deliver chain k w)))
           | Inr u \<Rightarrow> Running (Suc k) (snd (h obj k sid (deliver chain k w))))"
  by (cases "h obj k sid (deliver chain k w)"; cases "fst (h obj k sid (deliver chain k w))")
    (auto elim!: run_step_RunningE intro: run_step.intros)

lemma steps_Ended [simp]:
  "steps (run_step h chain sid) (Ended e w) objs s' \<longleftrightarrow> objs = [] \<and> s' = Ended e w"
  by (cases objs) (auto simp: steps_Cons_iff)

lemma run_step_world:
  "run_step h chain sid (Running k w) obj s' \<Longrightarrow> world_of s' = snd (h obj k sid (deliver chain k w))"
  by (auto simp: run_step_iff split: sum.splits)

section \<open>The loop and the machine\<close>

text \<open>
  The loop of \<^verbatim>\<open>subscribe_block_headers\<close> and the runs of the machine are the same thing:
  the loop returns after all the headers exactly when the machine handles them all, and
  it raises exactly when the machine ends at one of them.
\<close>

lemma subscribe_Ok_steps:
  "subscribe_block_headers h chain sid k objs w = (Ok (), w') \<longleftrightarrow>
     steps (run_step h chain sid) (Running k w) objs (Running (k + length objs) w')"
proof (induction objs arbitrary: k w)
  case Nil
  then show ?case by (auto simp: return_io_def)
next
  case (Cons obj objs)
  show ?case
  proof (cases "fst (h obj k sid (deliver chain k w))")
    case (Inl e)
    then show ?thesis
      by (auto simp: subscribe_Raise steps_Cons_iff run_step_iff)
  next
    case (Inr u)
    with Cons.IH [of "Suc k" "snd (h obj k sid (deliver chain k w))"] show ?thesis
      by (simp add: subscribe_Ok steps_Cons_iff run_step_iff)
  qed
qed

lemma subscribe_Raise_steps:
  "subscribe_block_headers h chain sid k objs w = (Raise e, w') \<longleftrightarrow>
     (\<exists>n < length objs. steps (run_step h chain sid) (Running k w) (take (Suc n) objs) (Ended e w'))"
proof (induction objs arbitrary: k w)
  case Nil
  then show ?case by (simp add: return_io_def)
next
  case (Cons obj objs)
  show ?case
  proof (cases "fst (h obj k sid (deliver chain k w))")
    case (Inl e')
    then have "steps (run_step h chain sid) (Running k w) (take (Suc n) (obj # objs)) s
        \<longleftrightarrow> n = 0 \<and> s = Ended e' (snd (h obj k sid (deliver chain k w)))"
      if "n < Suc (length objs)" for n s
      using that by (cases n) (auto simp: steps_Cons_iff run_step_iff)
    with Inl show ?thesis
      by (auto simp: subscribe_Raise)
  next
    case (Inr u)
    then have "steps (run_step h chain sid) (Running k w) (take (Suc n) (obj # objs)) (Ended e w')
        \<longleftrightarrow> (\<exists>m. n = Suc m \<and> steps (run_step h chain sid)
              (Running (Suc k) (snd (h obj k sid (deliver chain k w)))) (take (Suc m) objs)
              (Ended e w'))" for n
      by (cases n) (auto simp: steps_Cons_iff run_step_iff)
    with Inr Cons.IH [of "Suc k" "snd (h obj k sid (deliver chain k w))"] show ?thesis
      by (auto simp: subscribe_Ok)
  qed
qed

section \<open>The log of submissions\<close>

text \<open>
  What the specification sees of a world: the submissions the chain has been handed, each
  read back from the parameters of its call as a payload and a signature. An extrinsic
  that is not the call \<^verbatim>\<open>Drand.write_pulse\<close>, or whose parameters do not read back, has no
  place in the log; \<open>readable\<close> says that there is none.
\<close>

type_synonym submission = "pulses_payload \<times> bytes"

definition read_call :: "extrinsic \<Rightarrow> submission option" where
  "read_call x =
     (case x of Unsigned_extrinsic c \<Rightarrow>
        if call_module c = ''Drand'' \<and> call_function c = ''write_pulse''
        then (case (payload_of_call c, signature_of_call c) of
                (Inr pp, Inr s) \<Rightarrow> Some (pp, s)
              | _ \<Rightarrow> None)
        else None)"

definition log_of :: "'a world_scheme \<Rightarrow> submission list" where
  "log_of w = List.map_filter read_call (submitted w)"

definition readable :: "'a world_scheme \<Rightarrow> bool" where
  "readable w \<longleftrightarrow> list_all (\<lambda>x. read_call x \<noteq> None) (submitted w)"

text \<open>
  The machine of the specification, for a key pair: at a header the log stays as it is,
  or it grows by one submission whose payload is typed, carries the number of that header
  and the public key, and whose signature is over the encoding of the payload.
\<close>

inductive log_step ::
  "bytes \<Rightarrow> (bytes \<Rightarrow> bytes) \<Rightarrow> submission list \<Rightarrow> block_header \<Rightarrow> submission list \<Rightarrow> bool"
  for pk sg
where
  log_skip: "log_step pk sg lg obj lg"
| log_submit:
    "typed_payload pp \<Longrightarrow> block_number pp = number obj \<Longrightarrow> public pp = pk
     \<Longrightarrow> encode_pulses_payload pp = Ok bs
     \<Longrightarrow> log_step pk sg lg obj (lg @ [(pp, sg bs)])"

inductive_cases log_stepE: "log_step pk sg lg obj lg'"

code_pred log_step .

lemma read_call_compose [simp]:
  "read_call (Unsigned_extrinsic (compose_write_pulse b ps pk sg))
     = Some (\<lparr>block_number = b, pulses = ps, public = pk\<rparr>, sg)"
  by (simp add: read_call_def)

lemma log_of_deliver [simp]: "log_of (deliver chain k w) = log_of w"
  by (simp add: log_of_def)

lemma readable_deliver [simp]: "readable (deliver chain k w) = readable w"
  by (simp add: readable_def)

lemma log_of_append:
  assumes "submitted w' = submitted w @ [x]" and "read_call x = Some sb"
  shows "log_of w' = log_of w @ [sb]" and "readable w' = readable w"
  using assms by (simp_all add: log_of_def readable_def map_filter_def)

lemma log_of_same:
  assumes "submitted w' = submitted w"
  shows "log_of w' = log_of w" and "readable w' = readable w"
  using assms by (simp_all add: log_of_def readable_def)

lemma readable_length: "readable w \<Longrightarrow> length (log_of w) = length (submitted w)"
  unfolding readable_def log_of_def
  by (induction "submitted w" arbitrary: w) (auto simp: map_filter_def list_all_iff)

section \<open>The program refines the specification\<close>

text \<open>A cycle is a step of the specification for its header, and keeps the log readable.\<close>

lemma cycle_log_step:
  "log_step (public_key w) (sign w) (log_of w) obj (log_of (snd (submit_new_pulses (number obj) w)))
   \<and> readable (snd (submit_new_pulses (number obj) w)) = readable w"
proof (cases "submitted (snd (submit_new_pulses (number obj) w)) = submitted w")
  case True
  from log_of_same [OF this] show ?thesis
    by (simp add: log_skip)
next
  case False
  then show ?thesis
  proof (cases "number obj" w rule: cycle_outcomes)
    case (submitted ps l n bs w2 r out)
    let ?pp = "\<lparr>block_number = number obj, pulses = ps, public = public_key w\<rparr>"
    from submitted have "typed_payload ?pp"
      by (intro batch_typed) simp_all
    with submitted(6) have "log_step (public_key w) (sign w) (log_of w) obj
        (log_of w @ [(?pp, sign w bs)])"
      by (intro log_submit) simp_all
    moreover from submitted(7)
    have "submitted (snd (submit_new_pulses (number obj) w))
        = submitted w @ [Unsigned_extrinsic (compose_write_pulse (number obj) ps (public_key w) (sign w bs))]"
      by (simp add: extrinsic_of_def)
    note log_of_append [OF this read_call_compose]
    ultimately show ?thesis
      by simp
  qed (simp_all add: net_frame_fields)
qed

text \<open>
  The invariant of the simulation: the key pair of the world is the one the
  specification is stated for, and the log is readable.
\<close>

definition keyed :: "bytes \<Rightarrow> (bytes \<Rightarrow> bytes) \<Rightarrow> 'a world_scheme run_state \<Rightarrow> bool" where
  "keyed pk sg s \<longleftrightarrow>
     public_key (world_of s) = pk \<and> sign (world_of s) = sg \<and> readable (world_of s)"

lemma run_step_log:
  assumes "run_step block_subscription_handler chain sid s obj s'" and "keyed pk sg s"
  shows "log_step pk sg (log_of (world_of s)) obj (log_of (world_of s')) \<and> keyed pk sg s'"
proof (cases s)
  case (Running k w)
  with assms(1) have "world_of s' = snd (submit_new_pulses (number obj) (deliver chain k w))"
    by (simp add: run_step_world block_subscription_handler_cycle)
  with cycle_log_step [of "deliver chain k w" obj] assms(2) Running show ?thesis
    by (simp add: keyed_def cycle_frame)
next
  case (Ended e w)
  with assms(1) show ?thesis by auto
qed

lemma run_steps_log:
  assumes "steps (run_step block_subscription_handler chain sid) s objs s'" and "keyed pk sg s"
  shows "steps (log_step pk sg) (log_of (world_of s)) objs (log_of (world_of s')) \<and> keyed pk sg s'"
  using assms(1,2)
  by (rule steps_simulation [where h = "\<lambda>s. log_of (world_of s)"]) (rule run_step_log)

section \<open>What holds of every log\<close>

text \<open>
  \<open>signed_submission pk sg sb\<close>: the payload of the submission is typed and carries the
  public key, and the signature is \<open>sg\<close> of its encoding.
\<close>

definition signed_submission :: "bytes \<Rightarrow> (bytes \<Rightarrow> bytes) \<Rightarrow> submission \<Rightarrow> bool" where
  "signed_submission pk sg sb \<longleftrightarrow>
     typed_payload (fst sb) \<and> public (fst sb) = pk
     \<and> (case encode_pulses_payload (fst sb) of Inl e \<Rightarrow> False | Inr bs \<Rightarrow> snd sb = sg bs)"

lemma signed_submissionI:
  "typed_payload pp \<Longrightarrow> public pp = pk \<Longrightarrow> encode_pulses_payload pp = Ok bs
   \<Longrightarrow> signed_submission pk sg (pp, sg bs)"
  by (simp add: signed_submission_def)

text \<open>
  By induction over the runs of the specification: a log only grows, by signed
  submissions, and the block numbers of the new submissions are numbers of the headers,
  in the order of the headers and no header twice.
\<close>

lemma log_steps_grow:
  assumes "steps (log_step pk sg) lg objs lg'"
  shows "\<exists>new. lg' = lg @ new \<and> subseq (map (\<lambda>sb. block_number (fst sb)) new) (map number objs)
           \<and> list_all (signed_submission pk sg) new"
  using assms
proof (induction rule: steps.induct)
  case (steps_Nil lg)
  then show ?case by simp
next
  case (steps_Cons lg obj lg1 objs lg')
  then obtain new where new: "lg' = lg1 @ new"
      "subseq (map (\<lambda>sb. block_number (fst sb)) new) (map number objs)"
      "list_all (signed_submission pk sg) new"
    by blast
  from steps_Cons.hyps(1) show ?case
  proof (cases rule: log_step.cases)
    case log_skip
    with new show ?thesis
      by (intro exI [of _ new]) (simp add: list_emb_Cons)
  next
    case (log_submit pp bs)
    with new show ?thesis
      by (intro exI [of _ "(pp, sg bs) # new"]) (simp add: signed_submissionI)
  qed
qed

text \<open>However the loop ends, the machine has handled a prefix of the headers.\<close>

lemma subscribe_steps_prefix:
  obtains n s' where "n \<le> length objs"
    "steps (run_step h chain sid) (Running k w) (take n objs) s'"
    "world_of s' = snd (subscribe_block_headers h chain sid k objs w)"
proof (cases "subscribe_block_headers h chain sid k objs w")
  case (Pair r w')
  show thesis
  proof (cases r)
    case (Inl e)
    with Pair obtain n where "n < length objs"
      "steps (run_step h chain sid) (Running k w) (take (Suc n) objs) (Ended e w')"
      by (auto simp: subscribe_Raise_steps)
    with Pair show thesis
      by (intro that [of "Suc n" "Ended e w'"]) simp_all
  next
    case (Inr u)
    with Pair have "steps (run_step h chain sid) (Running k w) objs (Running (k + length objs) w')"
      by (simp add: subscribe_Ok_steps)
    with Pair show thesis
      by (intro that [of "length objs" "Running (k + length objs) w'"]) simp_all
  qed
qed

text \<open>
  So for the loop, however it ends: the log stays readable and grows by signed
  submissions for headers delivered, in their order; and the key pair stays.
\<close>

lemma run_log_grows:
  assumes "readable w"
  shows "readable (snd (run_subscription chain objs w))
    \<and> (\<exists>new. log_of (snd (run_subscription chain objs w)) = log_of w @ new
          \<and> subseq (map (\<lambda>sb. block_number (fst sb)) new) (map number objs)
          \<and> list_all (signed_submission (public_key w) (sign w)) new)"
proof -
  obtain n s' where n: "n \<le> length objs"
    "steps (run_step block_subscription_handler chain 0) (Running 0 w) (take n objs) s'"
    "world_of s' = snd (run_subscription chain objs w)"
    unfolding run_subscription_def by (rule subscribe_steps_prefix)
  from assms have "keyed (public_key w) (sign w) (Running 0 w)"
    by (simp add: keyed_def)
  from run_steps_log [OF n(2) this] n(3)
  have log: "steps (log_step (public_key w) (sign w)) (log_of w) (take n objs)
      (log_of (snd (run_subscription chain objs w)))"
    and "readable (snd (run_subscription chain objs w))"
    by (simp_all add: keyed_def)
  moreover from log_steps_grow [OF log] obtain new where
    "log_of (snd (run_subscription chain objs w)) = log_of w @ new"
    "subseq (map (\<lambda>sb. block_number (fst sb)) new) (map number (take n objs))"
    "list_all (signed_submission (public_key w) (sign w)) new"
    by blast
  moreover have "subseq (map number (take n objs)) (map number objs)"
    by (simp add: take_map [symmetric] take_is_prefix prefix_imp_subseq)
  ultimately show ?thesis
    by (blast intro: subseq_order.trans)
qed


lemma run_keys:
  fixes w :: "'a world_scheme"
  shows "public_key (snd (run_subscription chain objs w)) = public_key w"
    and "sign (snd (run_subscription chain objs w)) = sign w"
    and "http (snd (run_subscription chain objs w)) = http w"
    and "submit (snd (run_subscription chain objs w)) = submit w"
proof -
  let ?I = "\<lambda>s. public_key (world_of s) = public_key w \<and> sign (world_of s) = sign w
    \<and> http (world_of s) = http w \<and> submit (world_of s) = submit w"
  obtain n s' where n:
    "steps (run_step block_subscription_handler chain 0) (Running 0 w) (take n objs) s'"
    "world_of s' = snd (run_subscription chain objs w)"
    unfolding run_subscription_def by (rule subscribe_steps_prefix)
  have "?I s'"
  proof (rule steps_invariant [OF n(1), where I = ?I])
    fix s s' :: "'a world_scheme run_state" and obj
    assume "run_step block_subscription_handler chain 0 s obj s'" "?I s"
    then show "?I s'"
      by (cases s) (auto simp: run_step_world block_subscription_handler_cycle cycle_frame)
  qed simp
  with n(2) show "public_key (snd (run_subscription chain objs w)) = public_key w"
    "sign (snd (run_subscription chain objs w)) = sign w"
    "http (snd (run_subscription chain objs w)) = http w"
    "submit (snd (run_subscription chain objs w)) = submit w"
    by simp_all
qed

section \<open>What a run costs\<close>

text \<open>
  By induction over the runs of the machine: a run over \<open>n\<close> headers costs at most
  \<open>51 n\<close> fetches, and so does the loop, however it ends. The time a submission takes
  is not part of the cost.
\<close>

lemma run_step_cost:
  assumes "run_step block_subscription_handler chain sid s obj s'"
  shows "net_cost 51 (world_of s) (world_of s')"
proof (cases s)
  case (Running k w)
  have "net_cost 0 w (deliver chain k w)"
    by (rule net_cost_same) simp_all
  from net_cost_trans [OF this cycle_cost [of "deliver chain k w" "number obj"]] assms Running
  show ?thesis
    by (simp add: run_step_world block_subscription_handler_cycle)
next
  case (Ended e w)
  with assms show ?thesis by auto
qed

lemma steps_cost:
  assumes "steps (run_step block_subscription_handler chain sid) s objs s'"
  shows "net_cost (51 * length objs) (world_of s) (world_of s')"
  using assms
proof (induction rule: steps.induct)
  case (steps_Nil s)
  show ?case by (rule net_cost_same) simp_all
next
  case (steps_Cons s obj s' objs s'')
  from net_cost_trans [OF run_step_cost [OF steps_Cons.hyps(1)] steps_Cons.IH] show ?case
    by simp
qed

lemma run_cost:
  "net_cost (51 * length objs) w (snd (run_subscription chain objs w))"
proof -
  obtain n s' where n: "n \<le> length objs"
    "steps (run_step block_subscription_handler chain 0) (Running 0 w) (take n objs) s'"
    "world_of s' = snd (run_subscription chain objs w)"
    unfolding run_subscription_def by (rule subscribe_steps_prefix)
  from steps_cost [OF n(2)] n(1,3) show ?thesis
    by (auto intro: net_cost_mono simp: min_absorb2)
qed

section \<open>The run of the example\<close>

text \<open>The mocked chain and beacon of \<open>Subscription\<close>, two headers: the machine handles both.\<close>

abbreviation ex_final :: world where
  "ex_final \<equiv> snd (run_subscription ex_chain ex_headers ex_cycle_world)"

abbreviation ex_log :: "submission list" where
  "ex_log \<equiv> map (\<lambda>b.
     (\<lparr>block_number = b, pulses = map ex_pulse [10, 11, 12], public = [9, 9]\<rparr>,
      rev (payload_bytes \<lparr>block_number = b, pulses = map ex_pulse [10, 11, 12], public = [9, 9]\<rparr>)))
     [7, 8]"

lemma ex_run_steps:
  "steps (run_step block_subscription_handler ex_chain 0) (Running 0 ex_cycle_world) ex_headers
     (Running 2 ex_final)"
  using subscribe_Ok_steps [of block_subscription_handler ex_chain 0 0 ex_headers ex_cycle_world ex_final]
    ex_run(1)
  by (simp add: run_subscription_def prod_eq_iff numeral_2_eq_2)

lemma ex_world_log [simp]:
  "log_of ex_cycle_world = []" "readable ex_cycle_world"
  "public_key ex_cycle_world = [9, 9]" "sign ex_cycle_world = rev"
  by (simp_all add: log_of_def readable_def ex_cycle_world_def)

lemma ex_final_log: "log_of ex_final = ex_log"
  by (simp add: log_of_def ex_run(2))

section \<open>The properties of the machine\<close>

text \<open>
  C4. The program refines the specification. Every run of the machine of the program,
  from a state whose log is readable, is a run of the machine of the specification over
  the same headers, between the logs of the two states, for the key pair of the world;
  and the log is readable at its end. So at each header the chain is handed nothing, or
  one submission that is typed, carries the number of that header and the public key and
  is signed over its encoding.
\<close>

theorem run_refines_log:
  assumes "steps (run_step block_subscription_handler chain sid) s objs s'"
    and "readable (world_of s)"
  shows "steps (log_step (public_key (world_of s)) (sign (world_of s)))
           (log_of (world_of s)) objs (log_of (world_of s'))
    \<and> readable (world_of s')"
  using run_steps_log [OF assms(1), of "public_key (world_of s)" "sign (world_of s)"] assms(2)
  by (simp add: keyed_def)

theorem run_refines_log_witness:
  "steps (run_step block_subscription_handler ex_chain 0) (Running 0 ex_cycle_world) ex_headers
     (Running 2 ex_final)
   \<and> readable ex_cycle_world
   \<and> steps (log_step [9, 9] rev) [] ex_headers ex_log \<and> readable ex_final"
  using run_refines_log [OF ex_run_steps] ex_final_log ex_run_steps
  by simp

text \<open>
  C18. One submission for a header at most, in the order of the headers. Over a run of any
  number of headers, from a world whose log is readable, whatever the chain and the
  network answer and however the run ends: the log is readable at the end, it is the log
  of the start followed by new submissions, each typed, with the public key of the
  world and signed over its encoding, and the block numbers of the new submissions are
  numbers of the headers delivered, in the order of delivery, no header used twice.
\<close>

theorem run_log_in_header_order:
  assumes "readable w"
  shows "readable (snd (run_subscription chain objs w))
    \<and> (\<exists>new. log_of (snd (run_subscription chain objs w)) = log_of w @ new
          \<and> subseq (map (\<lambda>sb. block_number (fst sb)) new) (map number objs)
          \<and> list_all (signed_submission (public_key w) (sign w)) new)"
  using assms by (rule run_log_grows)

theorem run_log_in_header_order_witness:
  "readable ex_final \<and> log_of ex_final = ex_log
   \<and> subseq (map (\<lambda>sb. block_number (fst sb)) ex_log) [7, 8]
   \<and> list_all (signed_submission [9, 9] rev) ex_log"
  using run_log_in_header_order [of ex_cycle_world ex_chain ex_headers] ex_final_log
  by simp

end
