(* ===== verification/Catch_Up.thy ===== *)
theory Catch_Up
  imports Run_Machine
begin

text \<open>
  The program together with a chain that stores what it is handed. The specification says
  of the chain that \<^verbatim>\<open>last_stored_round\<close> is the highest round accepted and that only the
  chain changes it, in response to accepted submissions (sections 3 and 5). The program
  remembers nothing from one cycle to the next, so that it does not submit a round twice
  and does not leave one out depends on that behaviour of the chain; this theory shows
  that it is enough: against a beacon that serves the round requested, whichever of the
  submissions the chain accepts, the rounds it has accepted are consecutive, each round
  once and in ascending order, 50 with every submission accepted, until it has caught up.
\<close>

section \<open>What the chain stores\<close>

text \<open>The rounds an extrinsic carries, and the last round of a list of extrinsics, \<open>l0\<close> if there is none.\<close>

definition rounds_of :: "extrinsic \<Rightarrow> jval list" where
  "rounds_of x = (case x of Unsigned_extrinsic c \<Rightarrow>
     map call_round (call_pulses (param_pulses_payload c)))"

definition last_round :: "int \<Rightarrow> extrinsic list \<Rightarrow> int" where
  "last_round l0 xs = (case rev (concat (map rounds_of xs)) of JInt r # rs \<Rightarrow> r | _ \<Rightarrow> l0)"

text \<open>
  The extrinsics of a list that the chain has accepted, the first of the list being the
  submission of number \<open>n\<close>: those whose receipt says \<^verbatim>\<open>is_success\<close>.
\<close>

fun accepted :: "(nat \<Rightarrow> extrinsic \<Rightarrow> receipt result) \<Rightarrow> nat \<Rightarrow> extrinsic list \<Rightarrow> extrinsic list" where
  "accepted sb n [] = []"
| "accepted sb n (x # xs) =
     (case sb n x of
        Inr rc \<Rightarrow> if is_success rc then x # accepted sb (Suc n) xs else accepted sb (Suc n) xs
      | Inl e \<Rightarrow> accepted sb (Suc n) xs)"

text \<open>
  A chain that stores what it accepts: what it reports as \<^verbatim>\<open>LastStoredRound\<close> is the
  last round of the submissions it has accepted, and \<open>l0\<close> before the first.
\<close>

definition storing_chain ::
  "int option \<Rightarrow> int \<Rightarrow> (nat \<Rightarrow> extrinsic \<Rightarrow> receipt result) \<Rightarrow> chain_model" where
  "storing_chain next_unsigned_at l0 sb update_nr xs =
     mock_chain next_unsigned_at (Some (last_round l0 (accepted sb 0 xs)))"

text \<open>
  \<open>stored l0 c A\<close> is the round stored after the submissions \<open>A\<close> have been accepted, 50
  rounds with each up to the latest round \<open>c\<close>; \<open>consecutive l0 c A\<close> says that \<open>A\<close>
  carries exactly the rounds above \<open>l0\<close> up to that round, in ascending order.
\<close>

definition stored :: "int \<Rightarrow> int \<Rightarrow> extrinsic list \<Rightarrow> int" where
  "stored l0 c A = min c (l0 + 50 * int (length A))"

definition consecutive :: "int \<Rightarrow> int \<Rightarrow> extrinsic list \<Rightarrow> bool" where
  "consecutive l0 c A \<longleftrightarrow> concat (map rounds_of A) = map JInt [l0 + 1..stored l0 c A]"

lemma rounds_of_compose [simp]:
  "rounds_of (Unsigned_extrinsic (compose_write_pulse b ps pk sg)) = map round_num ps"
  by (simp add: rounds_of_def)

lemma last_round_upto:
  assumes "concat (map rounds_of xs) = map JInt [l0 + 1..l]" and "l0 \<le> l"
  shows "last_round l0 xs = l"
proof (cases "l0 < l")
  case True
  then have "[l0 + 1..l] = [l0 + 1..l - 1] @ [l]"
    by (simp add: upto_rec2)
  then show ?thesis
    unfolding last_round_def assms(1) by simp
next
  case False
  with assms(2) show ?thesis
    unfolding last_round_def assms(1) by simp
qed

lemma accepted_append:
  "accepted sb n (xs @ ys) = accepted sb n xs @ accepted sb (n + length xs) ys"
  by (induction xs arbitrary: n) (simp_all split: sum.splits)

lemma accepted_snoc:
  assumes "sb (n + length xs) x = Ok rc"
  shows "accepted sb n (xs @ [x]) = accepted sb n xs @ (if is_success rc then [x] else [])"
  using assms by (simp add: accepted_append)

lemma length_accepted: "length (accepted sb n xs) \<le> length xs"
  by (induction xs arbitrary: n) (auto split: sum.splits intro: le_SucI)

lemma stored_bounds: "l0 \<le> c \<Longrightarrow> l0 \<le> stored l0 c A \<and> stored l0 c A \<le> c"
  by (simp add: stored_def)

lemma stored_append: "stored l0 c A = c \<Longrightarrow> stored l0 c (A @ B) = c"
  by (simp add: stored_def min_def distrib_left split: if_splits)

lemma stored_snoc: "stored l0 c A < c \<Longrightarrow> stored l0 c (A @ [x]) = min c (stored l0 c A + 50)"
  by (simp add: stored_def min_def split: if_splits)

lemma upto_append_next: "l0 \<le> l \<Longrightarrow> l \<le> m \<Longrightarrow> [l0 + 1..l] @ [l + 1..m] = [l0 + 1..(m::int)]"
  by (cases "l0 = l") (simp_all add: upto_split2 [of "l0 + 1" l m])

lemma consecutive_Nil [simp]: "consecutive l0 c []"
  by (simp add: consecutive_def stored_def)

lemma consecutive_stored:
  "consecutive l0 c A \<Longrightarrow> l0 \<le> c \<Longrightarrow> last_round l0 A = stored l0 c A"
  unfolding consecutive_def by (rule last_round_upto) (simp_all add: stored_bounds)

lemma consecutive_snoc:
  assumes "consecutive l0 c A" and "l0 \<le> c" and "stored l0 c A < c"
    and "rounds_of x = map JInt [stored l0 c A + 1..min c (stored l0 c A + 50)]"
  shows "consecutive l0 c (A @ [x])"
proof -
  from assms(2) have upto: "[l0 + 1..stored l0 c A] @ [stored l0 c A + 1..min c (stored l0 c A + 50)]
      = [l0 + 1..min c (stored l0 c A + 50)]"
    by (intro upto_append_next) (simp_all add: stored_bounds)
  from assms(1,4) have "concat (map rounds_of (A @ [x]))
      = map JInt ([l0 + 1..stored l0 c A] @ [stored l0 c A + 1..min c (stored l0 c A + 50)])"
    by (simp add: consecutive_def)
  then show ?thesis
    by (simp only: upto consecutive_def stored_snoc [OF assms(3)])
qed

section \<open>A beacon that serves the round requested\<close>

text \<open>
  \<open>honest_beacon w beacon l0 c\<close>: the latest round is \<open>c\<close>, and for the latest pulse and
  for every round above \<open>l0\<close> up to \<open>c\<close> the first endpoint serves the pulse \<open>beacon r\<close>,
  which carries the round \<open>r\<close>, 32 bytes of randomness and a signature of a length that
  can be encoded.
\<close>

definition honest_beacon :: "'a net_world_scheme \<Rightarrow> (int \<Rightarrow> pulse) \<Rightarrow> int \<Rightarrow> int \<Rightarrow> bool" where
  "honest_beacon w beacon l0 c \<longleftrightarrow>
     serves w latest_path (resp_of_pulse (beacon c))
     \<and> round_num (beacon c) = JInt c \<and> length (randomness (beacon c)) = 32
     \<and> (\<forall>r. l0 < r \<and> r \<le> c \<longrightarrow>
           serves w (round_path r) (resp_of_pulse (beacon r))
           \<and> round_num (beacon r) = JInt r \<and> length (randomness (beacon r)) = 32
           \<and> int (length (signature (beacon r))) < compact_limit)"

lemma honest_beacon_cong:
  assumes "http w' = http w"
  shows "honest_beacon w' beacon l0 c = honest_beacon w beacon l0 c"
  by (simp add: honest_beacon_def serves_cong [OF assms])

lemma honest_beacon_batch:
  assumes "honest_beacon w beacon l0 c" and "l0 \<le> l" and "0 < l" and "l < c" and "c < 2 ^ 64"
    and "n = rounds_to_fetch_of c l" and "0 \<le> b" and "b < 2 ^ 32"
  shows "\<forall>r \<in> set (target_rounds l n).
      serves w (round_path r) (resp_of_pulse (beacon r)) \<and> length (randomness (beacon r)) = 32"
    and "encodable_payload \<lparr>block_number = b, pulses = map beacon (target_rounds l n), public = pk\<rparr>"
    and "map round_num (map beacon (target_rounds l n)) = map JInt [l + 1..min c (l + 50)]"
proof -
  from assms(4,6) have n: "1 \<le> n" "n \<le> 50" "l + n = min c (l + 50)"
    by (simp_all add: rounds_to_fetch_of_def MAX_PULSES_TO_FETCH_def)
  with assms(1-5) have r: "\<forall>r \<in> set (target_rounds l n).
      serves w (round_path r) (resp_of_pulse (beacon r))
      \<and> round_num (beacon r) = JInt r \<and> length (randomness (beacon r)) = 32
      \<and> int (length (signature (beacon r))) < compact_limit \<and> 0 \<le> r \<and> r < 2 ^ 64"
    by (auto simp: honest_beacon_def target_rounds_upto)
  then show "\<forall>r \<in> set (target_rounds l n).
      serves w (round_path r) (resp_of_pulse (beacon r)) \<and> length (randomness (beacon r)) = 32"
    by simp
  from r n assms(7,8)
  show "encodable_payload \<lparr>block_number = b, pulses = map beacon (target_rounds l n), public = pk\<rparr>"
    by (auto simp: encodable_payload_def encodable_pulse_def list_all_iff)
  from r n(3) show "map round_num (map beacon (target_rounds l n)) = map JInt [l + 1..min c (l + 50)]"
    by (simp add: target_rounds_upto)
qed

section \<open>One cycle against the storing chain\<close>

text \<open>
  With the round \<open>l\<close> stored, below the latest round \<open>c\<close>, a cycle hands the chain one
  extrinsic with the rounds from \<open>l + 1\<close> up to \<open>l + 50\<close> or up to \<open>c\<close>, whichever is
  less; with \<open>c\<close> stored it hands the chain nothing. In both cases it returns.
\<close>

lemma cycle_catches_up:
  assumes "query w ''Drand'' ''NextUnsignedAt'' = Ok v1" and "\<not> b < or_0 v1"
    and "0 \<le> b" and "b < 2 ^ 32"
    and "query w ''Drand'' ''LastStoredRound'' = Ok (Some l)"
    and "0 < l" and "l0 \<le> l" and "l \<le> c" and "c < 2 ^ 64"
    and "honest_beacon w beacon l0 c"
    and "\<forall>x. is_ok (submit w (length (submitted w)) x)"
  shows "fst (submit_new_pulses b w) = Ok ()
    \<and> (if l < c
        then \<exists>x. submitted (snd (submit_new_pulses b w)) = submitted w @ [x]
               \<and> rounds_of x = map JInt [l + 1..min c (l + 50)]
        else submitted (snd (submit_new_pulses b w)) = submitted w)"
proof (cases "l < c")
  case True
  let ?n = "rounds_to_fetch_of c l"
  note batch = honest_beacon_batch [OF assms(10,7,6) True assms(9) refl assms(3,4)]
  from assms(10) have latest: "serves w latest_path (resp_of_pulse (beacon c))"
    "round_num (beacon c) = JInt c" "length (randomness (beacon c)) = 32"
    by (simp_all add: honest_beacon_def)
  from assms(6) have l: "l = bootstrap (or_0 (Some l)) c"
    by simp
  note cyc = assms(1,2,5) latest l True refl batch(1) batch(2) [of "public_key w"]
  from cycle_served_Ok [OF cyc assms(11)] cycle_served_submitted [OF cyc] batch(3) True
  show ?thesis
    by simp
next
  case False
  with assms(8) have "l = c"
    by simp
  with assms(6,10) have "serves w latest_path (resp_of_pulse (beacon c))"
    "try_into_pulse (resp_of_pulse (beacon c)) = Ok (beacon c)"
    "round_num (beacon c) = JInt c" "c \<le> bootstrap (or_0 (Some l)) c"
    by (simp_all add: honest_beacon_def try_into_pulse_resp_of_pulse)
  from cycle_no_gap [OF assms(1,2,5) this] \<open>l = c\<close> show ?thesis
    by simp
qed

section \<open>The run against the storing chain\<close>

text \<open>
  One header, in terms of the submissions accepted so far: the cycle returns; if the
  chain is behind, one extrinsic is submitted, and if the chain accepts it the rounds
  accepted are consecutive again; if the chain has caught up, nothing is submitted.
\<close>

lemma header_catches_up:
  assumes q: "query w ''Drand'' ''NextUnsignedAt'' = Ok v1"
      "query w ''Drand'' ''LastStoredRound'' = Ok (Some (last_round l0 (accepted (submit w) n0 xs)))"
    and b: "\<not> b < or_0 v1" "0 \<le> b" "b < 2 ^ 32"
    and bounds: "0 < l0" "l0 \<le> c" "c < 2 ^ 64"
    and state: "length (submitted w) = n0 + length xs" "consecutive l0 c (accepted (submit w) n0 xs)"
    and world: "honest_beacon w beacon l0 c" "\<forall>m x. is_ok (submit w m x)"
  shows "fst (submit_new_pulses b w) = Ok ()
    \<and> (\<exists>ys. submitted (snd (submit_new_pulses b w)) = submitted w @ ys
          \<and> consecutive l0 c (accepted (submit w) n0 (xs @ ys))
          \<and> (if stored l0 c (accepted (submit w) n0 xs) < c then length ys = 1 else ys = []))"
proof -
  let ?A = "accepted (submit w) n0 xs"
  let ?l = "stored l0 c ?A"
  from state(2) bounds(2) have l: "last_round l0 ?A = ?l" "l0 \<le> ?l" "?l \<le> c"
    by (simp_all add: consecutive_stored stored_bounds)
  with bounds(1) have "0 < ?l"
    by simp
  note cyc = cycle_catches_up [OF q(1) b q(2) [unfolded l(1)] this l(2,3) bounds(3) world(1)]
  show ?thesis
  proof (cases "?l < c")
    case True
    with cyc world(2) obtain x where x: "fst (submit_new_pulses b w) = Ok ()"
      "submitted (snd (submit_new_pulses b w)) = submitted w @ [x]"
      "rounds_of x = map JInt [?l + 1..min c (?l + 50)]"
      by auto
    from world(2) obtain rc where rc: "submit w (n0 + length xs) x = Ok rc"
      by (auto simp: is_ok_iff)
    from state(2) consecutive_snoc [OF state(2) bounds(2) True x(3)]
    have "consecutive l0 c (accepted (submit w) n0 (xs @ [x]))"
      by (simp add: accepted_snoc [of "submit w" n0 xs x rc, OF rc])
    with x True show ?thesis
      by (intro conjI exI [of _ "[x]"]) simp_all
  next
    case False
    with cyc world(2) state(2) show ?thesis
      by (intro conjI exI [of _ "[]"]) simp_all
  qed
qed

text \<open>
  How far the chain is after one more header: the header has added a submission unless
  the latest round was stored already.
\<close>

lemma catch_up_progress:
  assumes "l0 \<le> c" and "length ys \<le> m" and "length ys = m \<or> stored l0 c (g ys) = c"
    and "if stored l0 c (g ys) < c then length ys1 = 1 else ys1 = []"
  shows "length (ys @ ys1) \<le> Suc m
    \<and> (length (ys @ ys1) = Suc m \<or> stored l0 c (g (ys @ ys1)) = c)"
  using assms stored_bounds [of l0 c "g ys"] by (auto split: if_splits)

text \<open>
  The invariant of the run: the submissions accepted since the start carry consecutive
  rounds. Every header at which the chain is behind adds one submission.
\<close>

lemma run_catches_up_from:
  fixes w :: "'a world_scheme"
  assumes chain: "\<And>k xs. chain k xs ''Drand'' ''NextUnsignedAt'' = Ok v1"
      "\<And>k ys. chain k (sub0 @ ys) ''Drand'' ''LastStoredRound''
         = Ok (Some (last_round l0 (accepted sb (length sub0) ys)))"
    and bounds: "0 < l0" "l0 \<le> c" "c < 2 ^ 64"
    and headers: "\<forall>obj \<in> set objs. \<not> number obj < or_0 v1 \<and> 0 \<le> number obj \<and> number obj < 2 ^ 32"
    and state: "submitted w = sub0 @ xs" "submit w = sb"
      "consecutive l0 c (accepted sb (length sub0) xs)"
    and world: "honest_beacon w beacon l0 c" "\<forall>m x. is_ok (sb m x)"
  shows "fst (subscribe_block_headers block_subscription_handler chain sid k objs w) = Ok ()
    \<and> (\<exists>ys. submitted (snd (subscribe_block_headers block_subscription_handler chain sid k objs w))
             = sub0 @ xs @ ys
          \<and> length ys \<le> length objs
          \<and> consecutive l0 c (accepted sb (length sub0) (xs @ ys))
          \<and> (length ys = length objs \<or> stored l0 c (accepted sb (length sub0) (xs @ ys)) = c))"
proof -
  let ?acc = "accepted sb (length sub0)"
  let ?I = "\<lambda>ds w'. (\<exists>ys. submitted w' = sub0 @ xs @ ys \<and> length ys \<le> length ds
        \<and> consecutive l0 c (?acc (xs @ ys))
        \<and> (length ys = length ds \<or> stored l0 c (?acc (xs @ ys)) = c))
      \<and> http w' = http w \<and> submit w' = sb"
  have "fst (block_subscription_handler obj (k + length ds) sid (deliver chain (k + length ds) u)) = Ok ()
      \<and> ?I (ds @ [obj]) (snd (block_subscription_handler obj (k + length ds) sid
            (deliver chain (k + length ds) u)))"
    if obj: "obj \<in> set objs" and inv: "?I ds u" for obj ds and u :: "'a world_scheme"
  proof -
    let ?u = "deliver chain (k + length ds) u"
    from inv obtain ys where ys: "submitted u = sub0 @ xs @ ys" "length ys \<le> length ds"
        "consecutive l0 c (?acc (xs @ ys))"
        "length ys = length ds \<or> stored l0 c (?acc (xs @ ys)) = c"
      and frame: "http u = http w" "submit u = sb"
      by auto
    from obj headers ys(1,3) frame world bounds
      header_catches_up [of ?u v1 l0 "length sub0" "xs @ ys" "number obj" c beacon]
    obtain ys1 where ok: "fst (submit_new_pulses (number obj) ?u) = Ok ()"
      and ys1: "submitted (snd (submit_new_pulses (number obj) ?u)) = sub0 @ xs @ ys @ ys1"
        "consecutive l0 c (?acc (xs @ ys @ ys1))"
        "if stored l0 c (?acc (xs @ ys)) < c then length ys1 = 1 else ys1 = []"
      by (auto simp: chain honest_beacon_cong [of ?u w])
    note catch_up_progress [where g = "\<lambda>ys. ?acc (xs @ ys)", OF bounds(2) ys(2,4) ys1(3)]
    with ok ys1(1,2) frame show ?thesis
      by (auto simp: block_subscription_handler_cycle cycle_frame intro!: exI [of _ "ys @ ys1"])
  qed
  moreover from state world(1) have "?I [] w"
    by simp
  ultimately show ?thesis
    using subscribe_invariant [of ?I "[]" w objs block_subscription_handler k sid chain]
    by auto
qed

section \<open>The example\<close>

text \<open>
  The beacon of the end-to-end example, rounds 10 to 12, against the storing chain with
  round 9 stored, which rejects the first submission and accepts the others.
\<close>

definition ex_receipts :: "nat \<Rightarrow> extrinsic \<Rightarrow> receipt result" where
  "ex_receipts n x =
     Ok \<lparr>is_success = (n \<noteq> 0), error_message = (if n = 0 then ''Rejected'' else [])\<rparr>"

definition ex_rejecting_world :: world where
  "ex_rejecting_world = ex_cycle_world\<lparr>submit := ex_receipts\<rparr>"

text \<open>What the cycle of block \<open>b\<close> submits while round 9 is the last stored.\<close>

definition ex_extrinsic :: "int \<Rightarrow> extrinsic" where
  "ex_extrinsic b = Unsigned_extrinsic (compose_write_pulse b (map ex_pulse [10, 11, 12]) [9, 9]
     (rev (payload_bytes \<lparr>block_number = b, pulses = map ex_pulse [10, 11, 12], public = [9, 9]\<rparr>)))"

abbreviation ex_three_headers :: "block_header list" where
  "ex_three_headers \<equiv> [\<lparr>number = 7\<rparr>, \<lparr>number = 8\<rparr>, \<lparr>number = 9\<rparr>]"

lemma ex_rejecting_world_fields [simp]:
  "submit ex_rejecting_world = ex_receipts" "submitted ex_rejecting_world = []"
  "http ex_rejecting_world = http ex_cycle_world"
  by (simp_all add: ex_rejecting_world_def ex_cycle_world_def)

lemma ex_honest_beacon: "honest_beacon ex_rejecting_world ex_pulse 9 12"
proof -
  have "r \<in> set [10, 11, 12]" if "9 < r" "r \<le> 12" for r :: int
    using that by auto
  with ex_cycle_world_serves have "honest_beacon ex_cycle_world ex_pulse 9 12"
    unfolding honest_beacon_def
    by (auto simp: ex_cycle_world_def mock_world_serves_latest ex_pulse_def)
  then show ?thesis
    by (simp add: honest_beacon_cong [of ex_rejecting_world ex_cycle_world])
qed

text \<open>
  The run over three headers: the submission of block 7 is rejected, so block 8 submits
  the same rounds again, which are accepted; at block 9 the chain has caught up and
  nothing is submitted.
\<close>

lemma ex_extrinsic_rounds [simp]: "rounds_of (ex_extrinsic b) = map JInt [10, 11, 12]"
  by (simp add: ex_extrinsic_def)

lemma ex_behind_cycle:
  fixes w :: "'a world_scheme"
  assumes "query w = mock_chain (Some 0) (Some 9)" and "http w = http ex_cycle_world"
    and "public_key w = [9, 9]" and "sign w = rev" and "submit w = ex_receipts"
    and "0 \<le> b" and "b < 2 ^ 32"
  shows "fst (submit_new_pulses b w) = Ok ()
    \<and> submitted (snd (submit_new_pulses b w)) = submitted w @ [ex_extrinsic b]"
proof -
  from assms(2) ex_cycle_world_serves
  have served: "serves w latest_path (resp_of_pulse (ex_pulse 12))"
    "\<forall>r \<in> set (target_rounds 9 3).
       serves w (round_path r) (resp_of_pulse (ex_pulse r)) \<and> length (randomness (ex_pulse r)) = 32"
    by (simp_all add: serves_cong [of w ex_cycle_world] ex_cycle_gate ex_cycle_world_def
        mock_world_serves_latest)
  from assms(3,6,7) have enc: "encodable_payload
      \<lparr>block_number = b, pulses = map ex_pulse (target_rounds 9 3), public = public_key w\<rparr>"
    by (simp add: ex_cycle_gate encodable_payload_def encodable_pulse_def ex_pulse_def)
  have q: "query w ''Drand'' ''NextUnsignedAt'' = Ok (Some 0)"
    "query w ''Drand'' ''LastStoredRound'' = Ok (Some 9)"
    by (simp_all add: assms(1) mock_chain_def)
  from assms(6) have nb: "\<not> b < or_0 (Some 0)"
    by simp
  note cyc = q(1) nb q(2) served(1) ex_pulse_fields [of 12] ex_cycle_gate(1) [symmetric] _
    ex_cycle_gate(2) [symmetric] served(2) enc
  from cycle_served_Ok [OF cyc] cycle_served_submitted [OF cyc] assms(3-5) show ?thesis
    by (simp add: ex_cycle_gate ex_extrinsic_def ex_receipts_def)
qed

lemma ex_caught_up_cycle:
  fixes w :: "'a world_scheme"
  assumes "query w = mock_chain (Some 0) (Some 12)" and "http w = http ex_cycle_world"
    and "0 \<le> b"
  shows "fst (submit_new_pulses b w) = Ok ()
    \<and> submitted (snd (submit_new_pulses b w)) = submitted w
    \<and> printed (snd (submit_new_pulses b w)) = printed w @ [''No new rounds to fetch.'']"
proof -
  from assms(2) have "serves w latest_path (resp_of_pulse (ex_pulse 12))"
    by (simp add: serves_cong [of w ex_cycle_world] ex_cycle_world_def mock_world_serves_latest)
  from cycle_no_gap [of w "Some 0" b "Some 12" _ "ex_pulse 12" 12, OF _ _ _ this] assms(1,3)
  show ?thesis
    by (simp add: mock_chain_def try_into_pulse_resp_of_pulse)
qed

lemma ex_storing_run:
  "run_subscription (storing_chain (Some 0) 9 ex_receipts) ex_three_headers ex_rejecting_world
     = (Ok (), snd (run_subscription (storing_chain (Some 0) 9 ex_receipts) ex_three_headers
                     ex_rejecting_world))"
  "submitted (snd (run_subscription (storing_chain (Some 0) 9 ex_receipts) ex_three_headers
     ex_rejecting_world)) = [ex_extrinsic 7, ex_extrinsic 8]"
  "accepted ex_receipts 0 [ex_extrinsic 7, ex_extrinsic 8] = [ex_extrinsic 8]"
proof -
  let ?chain = "storing_chain (Some 0) 9 ex_receipts"
  let ?a = "deliver ?chain 0 ex_rejecting_world"
  let ?b = "deliver ?chain 1 (snd (submit_new_pulses 7 ?a))"
  let ?c = "deliver ?chain 2 (snd (submit_new_pulses 8 ?b))"
  have frame: "http ex_rejecting_world = http ex_cycle_world"
    "public_key ex_rejecting_world = [9, 9]" "sign ex_rejecting_world = rev"
    by (simp_all add: ex_rejecting_world_def ex_cycle_world_def)
  show acc: "accepted ex_receipts 0 [ex_extrinsic 7, ex_extrinsic 8] = [ex_extrinsic 8]"
    by (simp add: ex_receipts_def)
  have a: "fst (submit_new_pulses 7 ?a) = Ok ()"
    "submitted (snd (submit_new_pulses 7 ?a)) = [ex_extrinsic 7]"
    using ex_behind_cycle [of ?a 7] frame
    by (simp_all add: storing_chain_def last_round_def)
  have b: "fst (submit_new_pulses 8 ?b) = Ok ()"
    "submitted (snd (submit_new_pulses 8 ?b)) = [ex_extrinsic 7, ex_extrinsic 8]"
    using ex_behind_cycle [of ?b 8] frame a(2)
    by (simp_all add: storing_chain_def last_round_def cycle_frame ex_receipts_def)
  have c: "fst (submit_new_pulses 9 ?c) = Ok ()"
    "submitted (snd (submit_new_pulses 9 ?c)) = [ex_extrinsic 7, ex_extrinsic 8]"
    using ex_caught_up_cycle [of ?c 9] frame b(2)
    by (simp_all add: storing_chain_def last_round_def cycle_frame ex_receipts_def)
  from a(1) b(1) c
  show "run_subscription ?chain ex_three_headers ex_rejecting_world
     = (Ok (), snd (run_subscription ?chain ex_three_headers ex_rejecting_world))"
    "submitted (snd (run_subscription ?chain ex_three_headers ex_rejecting_world))
       = [ex_extrinsic 7, ex_extrinsic 8]"
    by (simp_all add: run_subscription_def block_subscription_handler_cycle prod_eq_iff
        subscribe_Ok [of block_subscription_handler _ _ _ _ _ "()"] return_io_def numeral_2_eq_2)
qed

section \<open>The property of the run\<close>

text \<open>
  The chain is handed every round once, whatever it rejects. Against a chain that
  stores the last round of what it has accepted, with a round \<open>l0\<close> stored at the start,
  and a beacon whose latest round is \<open>c\<close> and that serves every round requested, with
  block numbers that are not below the threshold and no submission raising: the run
  returns, it submits at most once for a header, and the submissions the chain has
  accepted, whichever they are, carry the rounds from \<open>l0 + 1\<close> up to \<open>l0\<close> plus 50 for
  each of them, or up to \<open>c\<close>, each round once and in ascending order. A rejected batch
  is submitted again at the next header and no accepted round is submitted again; and
  every header has led to a submission unless the chain has caught up with \<open>c\<close>.
\<close>

theorem run_catches_up:
  assumes "\<And>k xs. chain k xs ''Drand'' ''NextUnsignedAt'' = Ok v1"
    and "\<And>k ys. chain k (submitted w @ ys) ''Drand'' ''LastStoredRound''
           = Ok (Some (last_round l0 (accepted (submit w) (length (submitted w)) ys)))"
    and "0 < l0" and "l0 \<le> c" and "c < 2 ^ 64"
    and "\<forall>obj \<in> set objs. \<not> number obj < or_0 v1 \<and> 0 \<le> number obj \<and> number obj < 2 ^ 32"
    and "honest_beacon w beacon l0 c" and "\<forall>m x. is_ok (submit w m x)"
  shows "fst (run_subscription chain objs w) = Ok ()
    \<and> (\<exists>ys A. submitted (snd (run_subscription chain objs w)) = submitted w @ ys
          \<and> length ys \<le> length objs
          \<and> A = accepted (submit w) (length (submitted w)) ys
          \<and> concat (map rounds_of A) = map JInt [l0 + 1..min c (l0 + 50 * int (length A))]
          \<and> (length ys = length objs \<or> min c (l0 + 50 * int (length A)) = c))"
  using run_catches_up_from [where xs = "[]" and sb = "submit w" and ?sub0.0 = "submitted w"
      and chain = chain and objs = objs and w = w and sid = 0 and k = 0, OF assms(1-6) _ refl _ assms(7,8)]
  by (simp add: run_subscription_def consecutive_def stored_def)

theorem run_catches_up_witness:
  "fst (run_subscription (storing_chain (Some 0) 9 ex_receipts) ex_three_headers ex_rejecting_world)
     = Ok ()
   \<and> submitted (snd (run_subscription (storing_chain (Some 0) 9 ex_receipts)
        ex_three_headers ex_rejecting_world)) = [ex_extrinsic 7, ex_extrinsic 8]
   \<and> accepted ex_receipts 0 [ex_extrinsic 7, ex_extrinsic 8] = [ex_extrinsic 8]
   \<and> concat (map rounds_of [ex_extrinsic 8]) = map JInt [10..12]"
  using run_catches_up [of "storing_chain (Some 0) 9 ex_receipts" "Some 0" ex_rejecting_world
      9 12 ex_three_headers ex_pulse] ex_honest_beacon ex_storing_run(2,3)
  by (simp add: storing_chain_def mock_chain_def ex_receipts_def)

end
