(* ===== verification/Process.thy ===== *)
theory Process
  imports Catch_Up
begin

text \<open>
  The process: the statements of \<^verbatim>\<open>src/ocw.py\<close> at module level that are not
  definitions. The node address (line 6), the construction of the chain client (line 92)
  and of the key pair (line 93), and the call that starts the subscription (line 179).
  The two constructors belong to the client library; what they give is a parameter. The
  lemmas show what holds in every state the process reaches from its start, and the
  properties of the program as a whole follow from those of the run.
\<close>

section \<open>What the libraries give\<close>

definition NODE_URL :: string where
  "NODE_URL = ''ws://127.0.0.1:9945''"

text \<open>
  The key pair as the program uses it: \<^verbatim>\<open>keypair.public_key\<close> and \<^verbatim>\<open>keypair.sign\<close>. The
  client as the program uses it: what its queries return at each header, and what a
  submission comes to.
\<close>

record keypair =
  kp_public_key :: bytes
  kp_sign :: "bytes \<Rightarrow> bytes"

record substrate_interface =
  si_query :: chain_model
  si_submit_extrinsic :: "nat \<Rightarrow> extrinsic \<Rightarrow> receipt result"

text \<open>
  \<^verbatim>\<open>SubstrateInterface(url=...)\<close> connects to the node and returns the client or raises;
  \<^verbatim>\<open>Keypair.create_from_uri(...)\<close> derives the key pair from the text it is given.
\<close>

record libraries =
  SubstrateInterface :: "string \<Rightarrow> substrate_interface result"
  create_from_uri :: "string \<Rightarrow> keypair"

section \<open>The start of the process\<close>

text \<open>Lines 92 and 93: the two globals, or the exception of the connection.\<close>

definition start :: "libraries \<Rightarrow> (substrate_interface \<times> keypair) result" where
  "start libs =
     bind_res (SubstrateInterface libs NODE_URL) (\<lambda>substrate.
     let keypair = create_from_uri libs ''//Bob''
     in Ok (substrate, keypair))"

text \<open>
  The world the first cycle runs in: the globals and the network, nothing submitted and
  nothing printed yet. The answers of the chain are set anew at every header
  (\<open>deliver\<close>); before the first header they are those of the chain untouched.
\<close>

definition initial_world :: "substrate_interface \<Rightarrow> keypair \<Rightarrow> net_world \<Rightarrow> world" where
  "initial_world substrate keypair net =
     \<lparr>now = now net, http = http net, requests = requests net,
      query = si_query substrate 0 [],
      public_key = kp_public_key keypair, sign = kp_sign keypair,
      submit = si_submit_extrinsic substrate,
      submitted = [], printed = []\<rparr>"

text \<open>
  The module run as a script, over the headers delivered: an exception of line 92 ends it
  before anything else happens; otherwise its outcome is that of the subscription.
\<close>

definition main ::
  "libraries \<Rightarrow> block_header list \<Rightarrow> net_world \<Rightarrow> (unit result \<times> world) result" where
  "main libs objs net =
     bind_res (start libs) (\<lambda>(substrate, keypair).
     Ok (run_subscription (si_query substrate) objs (initial_world substrate keypair net)))"

section \<open>The states the process reaches\<close>

inductive reachable :: "libraries \<Rightarrow> net_world \<Rightarrow> world run_state \<Rightarrow> bool" for libs net where
  started:
    "start libs = Ok (substrate, keypair)
     \<Longrightarrow> reachable libs net (Running 0 (initial_world substrate keypair net))"
| stepped:
    "reachable libs net s \<Longrightarrow> start libs = Ok (substrate, keypair)
     \<Longrightarrow> run_step block_subscription_handler (si_query substrate) 0 s obj s'
     \<Longrightarrow> reachable libs net s'"

text \<open>
  The invariant of the process, for the key pair of line 93: the world holds that key
  pair, every extrinsic submitted reads back, as a typed payload with the public key of
  the pair and a signature of the pair over the encoding of the payload, and the network
  is the one the process started with.
\<close>

definition process_inv :: "keypair \<Rightarrow> net_world \<Rightarrow> world run_state \<Rightarrow> bool" where
  "process_inv keypair net s \<longleftrightarrow>
     keyed (kp_public_key keypair) (kp_sign keypair) s
     \<and> list_all (signed_submission (kp_public_key keypair) (kp_sign keypair)) (log_of (world_of s))
     \<and> http (world_of s) = http net"

lemma start_Ok_iff:
  "start libs = Ok (substrate, keypair) \<longleftrightarrow>
     SubstrateInterface libs NODE_URL = Ok substrate \<and> keypair = create_from_uri libs ''//Bob''"
  by (auto simp: start_def Let_def res_simps)

lemma start_Raise_iff: "start libs = Raise e \<longleftrightarrow> SubstrateInterface libs NODE_URL = Raise e"
  by (cases "SubstrateInterface libs NODE_URL") (simp_all add: start_def Let_def)

lemma main_run:
  assumes "SubstrateInterface libs NODE_URL = Ok substrate"
  shows "main libs objs net =
     Ok (run_subscription (si_query substrate) objs
           (initial_world substrate (create_from_uri libs ''//Bob'') net))"
  using assms by (simp add: main_def start_def)

lemma initial_world_fields [simp]:
  "submitted (initial_world substrate keypair net) = []"
  "printed (initial_world substrate keypair net) = []"
  "public_key (initial_world substrate keypair net) = kp_public_key keypair"
  "sign (initial_world substrate keypair net) = kp_sign keypair"
  "submit (initial_world substrate keypair net) = si_submit_extrinsic substrate"
  "http (initial_world substrate keypair net) = http net"
  "requests (initial_world substrate keypair net) = requests net"
  "now (initial_world substrate keypair net) = now net"
  by (simp_all add: initial_world_def)

lemma process_inv_initial: "process_inv keypair net (Running 0 (initial_world substrate keypair net))"
  by (simp add: process_inv_def keyed_def readable_def log_of_def)

lemma log_step_signed:
  assumes "log_step pk sg lg obj lg'" and "list_all (signed_submission pk sg) lg"
  shows "list_all (signed_submission pk sg) lg'"
  using assms by (cases rule: log_step.cases) (simp_all add: signed_submissionI)

lemma process_inv_step:
  assumes "run_step block_subscription_handler chain sid s obj s'" and "process_inv keypair net s"
  shows "process_inv keypair net s'"
proof -
  from assms(2) have k: "keyed (kp_public_key keypair) (kp_sign keypair) s"
    by (simp add: process_inv_def)
  note step = run_step_log [OF assms(1) k]
  moreover from assms have "http (world_of s') = http net"
    by (cases s) (auto simp: process_inv_def run_step_world block_subscription_handler_cycle
        Let_def cycle_frame)
  ultimately show ?thesis
    using assms(2) log_step_signed [of "kp_public_key keypair" "kp_sign keypair"
        "log_of (world_of s)" obj "log_of (world_of s')"]
    by (simp add: process_inv_def)
qed

text \<open>By induction over the reachable states.\<close>

lemma reachable_inv:
  assumes "reachable libs net s"
  shows "process_inv (create_from_uri libs ''//Bob'') net s"
  using assms
proof (induction rule: reachable.induct)
  case (started substrate keypair)
  then show ?case
    by (simp add: start_Ok_iff process_inv_initial)
next
  case (stepped s substrate keypair obj s')
  then show ?case
    by (auto intro: process_inv_step)
qed

text \<open>The states of a run of the machine from a reachable state are reachable.\<close>

lemma steps_reachable:
  assumes "steps (run_step block_subscription_handler (si_query substrate) 0) s objs s'"
    and "reachable libs net s" and "start libs = Ok (substrate, keypair)"
  shows "reachable libs net s'"
  using assms by (induction rule: steps.induct) (auto intro: reachable.stepped)

lemma main_reachable:
  assumes "main libs objs net = Ok (r, w)"
  shows "\<exists>s. reachable libs net s \<and> world_of s = w"
proof -
  from assms obtain substrate keypair where st: "start libs = Ok (substrate, keypair)"
    and run: "run_subscription (si_query substrate) objs (initial_world substrate keypair net) = (r, w)"
    by (auto simp: main_def res_simps)
  obtain n s' where "steps (run_step block_subscription_handler (si_query substrate) 0)
      (Running 0 (initial_world substrate keypair net)) (take n objs) s'"
    "world_of s' = snd (run_subscription (si_query substrate) objs (initial_world substrate keypair net))"
    unfolding run_subscription_def by (rule subscribe_steps_prefix)
  with run steps_reachable [OF _ reachable.started [OF st] st] show ?thesis
    by auto
qed

section \<open>The example\<close>

text \<open>
  Libraries for the witnesses: a node at the address of line 6 whose chain is that of the
  end-to-end example and accepts every submission, no node anywhere else, and the key
  pair of the example for every text.
\<close>

definition ex_substrate :: substrate_interface where
  "ex_substrate =
     \<lparr>si_query = ex_chain,
      si_submit_extrinsic = (\<lambda>n x. Ok \<lparr>is_success = True, error_message = []\<rparr>)\<rparr>"

definition ex_libraries :: libraries where
  "ex_libraries =
     \<lparr>SubstrateInterface =
        (\<lambda>url. if url = ''ws://127.0.0.1:9945'' then Ok ex_substrate
               else Raise SubstrateRequestException),
      create_from_uri = (\<lambda>uri. \<lparr>kp_public_key = [9, 9], kp_sign = rev\<rparr>)\<rparr>"

definition ex_net :: net_world where
  "ex_net = \<lparr>now = 0, http = mock_beacon (resp_of_pulse (ex_pulse 12)) ex_rounds, requests = []\<rparr>"

lemma ex_start: "start ex_libraries = Ok (ex_substrate, \<lparr>kp_public_key = [9, 9], kp_sign = rev\<rparr>)"
  by (simp add: start_def ex_libraries_def NODE_URL_def)

lemma ex_initial_world:
  "initial_world ex_substrate \<lparr>kp_public_key = [9, 9], kp_sign = rev\<rparr> ex_net = ex_cycle_world"
  by (simp add: initial_world_def ex_substrate_def ex_net_def ex_cycle_world_def mock_world_def)

lemma ex_substrate_query [simp]: "si_query ex_substrate = ex_chain"
  by (simp add: ex_substrate_def)

lemma ex_main: "main ex_libraries ex_headers ex_net = Ok (Ok (), ex_final)"
  using ex_run(1) by (simp add: main_def ex_start ex_initial_world prod_eq_iff)

section \<open>The properties of the process\<close>

text \<open>
  C19. The invariant of the process. In every state the process reaches, after any headers
  and whatever the chain and the network answer, running or ended: the key pair is the
  one derived at line 93, every extrinsic submitted reads back as a call
  \<^verbatim>\<open>Drand.write_pulse\<close> with a typed payload that carries the public key of that pair
  and a signature of that pair over the encoding of the payload, and the network is the
  one the process started with.
\<close>

theorem process_invariant:
  assumes "reachable libs net s"
  shows "public_key (world_of s) = kp_public_key (create_from_uri libs ''//Bob'')
    \<and> sign (world_of s) = kp_sign (create_from_uri libs ''//Bob'')
    \<and> readable (world_of s)
    \<and> list_all (signed_submission (kp_public_key (create_from_uri libs ''//Bob''))
          (kp_sign (create_from_uri libs ''//Bob''))) (log_of (world_of s))
    \<and> http (world_of s) = http net"
  using reachable_inv [OF assms] by (simp add: process_inv_def keyed_def)

theorem process_invariant_witness:
  "reachable ex_libraries ex_net (Running 2 ex_final)
   \<and> public_key ex_final = [9, 9] \<and> readable ex_final
   \<and> list_all (signed_submission [9, 9] rev) ex_log"
proof -
  have "reachable ex_libraries ex_net (Running 2 ex_final)"
    using steps_reachable [OF _ reachable.started [OF ex_start] ex_start,
        where objs = ex_headers and s' = "Running 2 ex_final" and net = ex_net] ex_run_steps
    by (simp add: ex_initial_world)
  with process_invariant [of ex_libraries ex_net "Running 2 ex_final"] ex_final_log show ?thesis
    by (simp add: ex_libraries_def)
qed

text \<open>
  C5. The program as a whole. If the connection of line 92 raises, the program ends with
  that exception and has done nothing else. Otherwise its outcome is that of the
  subscription, and when it has ended, however it did: every extrinsic it has submitted
  reads back, typed and signed by the key pair of line 93 over its encoding; the block
  numbers submitted are numbers of the headers delivered, in the order of delivery and
  no header twice; and it has made at most 255 requests for each header.
\<close>

theorem main_outcome:
  "(\<forall>e. SubstrateInterface libs NODE_URL = Raise e \<longrightarrow> main libs objs net = Raise e)
   \<and> (\<forall>substrate. SubstrateInterface libs NODE_URL = Ok substrate \<longrightarrow>
        (\<exists>r w. main libs objs net = Ok (r, w)
           \<and> readable w
           \<and> list_all (signed_submission (kp_public_key (create_from_uri libs ''//Bob''))
                 (kp_sign (create_from_uri libs ''//Bob''))) (log_of w)
           \<and> subseq (map (\<lambda>sb. block_number (fst sb)) (log_of w)) (map number objs)
           \<and> length (requests w) \<le> length (requests net) + 255 * length objs))"
proof (intro conjI allI impI)
  fix e assume "SubstrateInterface libs NODE_URL = Raise e"
  then show "main libs objs net = Raise e"
    by (simp add: main_def start_def)
next
  fix substrate assume c: "SubstrateInterface libs NODE_URL = Ok substrate"
  let ?kp = "create_from_uri libs ''//Bob''"
  let ?init = "initial_world substrate ?kp net"
  let ?w = "snd (run_subscription (si_query substrate) objs ?init)"
  from main_run [OF c] have m: "main libs objs net = Ok (fst (run_subscription (si_query substrate) objs ?init), ?w)"
    by simp
  from main_reachable [OF m] obtain s where s: "reachable libs net s" "world_of s = ?w"
    by auto
  from reachable_inv [OF s(1)] s(2) have "readable ?w"
    "list_all (signed_submission (kp_public_key ?kp) (kp_sign ?kp)) (log_of ?w)"
    by (simp_all add: process_inv_def keyed_def)
  moreover from run_log_grows [of ?init "si_query substrate" objs]
  have "subseq (map (\<lambda>sb. block_number (fst sb)) (log_of ?w)) (map number objs)"
    by (auto simp: readable_def log_of_def)
  moreover from net_costD(2) [OF run_cost [of objs ?init "si_query substrate"]]
  have "length (requests ?w) \<le> length (requests net) + 255 * length objs"
    by (simp add: DRAND_ENDPOINTS_def)
  ultimately show "\<exists>r w. main libs objs net = Ok (r, w)
      \<and> readable w
      \<and> list_all (signed_submission (kp_public_key ?kp) (kp_sign ?kp)) (log_of w)
      \<and> subseq (map (\<lambda>sb. block_number (fst sb)) (log_of w)) (map number objs)
      \<and> length (requests w) \<le> length (requests net) + 255 * length objs"
    using m by blast
qed

theorem main_outcome_witness:
  "main ex_libraries ex_headers ex_net = Ok (Ok (), ex_final)
   \<and> log_of ex_final = ex_log \<and> list_all (signed_submission [9, 9] rev) ex_log
   \<and> main (ex_libraries\<lparr>SubstrateInterface := \<lambda>url. Raise SubstrateRequestException\<rparr>)
        ex_headers ex_net = Raise SubstrateRequestException"
  using main_outcome [of ex_libraries ex_headers ex_net]
    main_outcome [of "ex_libraries\<lparr>SubstrateInterface := \<lambda>url. Raise SubstrateRequestException\<rparr>"
      ex_headers ex_net]
    ex_main ex_final_log
  by (simp add: ex_libraries_def NODE_URL_def)

end
