(* ===== verification/Chain_Runtime.thy ===== *)
theory Chain_Runtime
  imports Catch_Up
begin

text \<open>
  The runtime of the chain, as far as the specification states it. A submission is not
  accepted for a block before \<^verbatim>\<open>next_unsigned_at\<close> (section 3); it is authorised by the
  runtime's verification of the embedded signature against the embedded public key,
  over the bytes of the payload encoder (sections 4.4 and 4.6); and
  \<^verbatim>\<open>last_stored_round\<close> is the highest round accepted (section 3). The signature scheme
  is a parameter: \<open>verify pk m s\<close> says that \<open>s\<close> is a signature of the bytes \<open>m\<close> under
  the public key \<open>pk\<close>. The theory shows that the runtime accepts every submission of the
  program whose key pair is valid for the scheme, so that against this chain and an
  honest beacon the program closes the gap at 50 rounds for each header; and that it
  accepts as well what the program submits after a beacon that answers with other rounds
  than those requested, since neither of the two compares them.
\<close>

section \<open>The runtime\<close>

type_synonym signature_scheme = "bytes \<Rightarrow> bytes \<Rightarrow> bytes \<Rightarrow> bool"

text \<open>
  The check of the runtime on an extrinsic: it is a call \<^verbatim>\<open>Drand.write_pulse\<close> whose
  parameters read back as a payload and a signature, the block of the payload is not
  before the threshold, and the signature verifies over the encoding of the payload
  under the public key of the payload.
\<close>

definition runtime_accepts :: "signature_scheme \<Rightarrow> int \<Rightarrow> extrinsic \<Rightarrow> bool" where
  "runtime_accepts verify next_unsigned_at x =
     (case read_call x of
        None \<Rightarrow> False
      | Some (pulses_payload, signature_bytes) \<Rightarrow>
          \<not> block_number pulses_payload < next_unsigned_at
          \<and> (case encode_pulses_payload pulses_payload of
                Inl e \<Rightarrow> False
              | Inr encoded \<Rightarrow> verify (public pulses_payload) encoded signature_bytes))"

text \<open>
  What \<^verbatim>\<open>submit_extrinsic\<close> returns against this runtime: a receipt that reports the
  outcome of the check, with the message \<open>msg\<close> of the chain when it failed.
\<close>

definition runtime_submit ::
  "signature_scheme \<Rightarrow> int option \<Rightarrow> string \<Rightarrow> nat \<Rightarrow> extrinsic \<Rightarrow> receipt result" where
  "runtime_submit verify next_unsigned_at msg n x =
     (let ok = runtime_accepts verify (or_0 next_unsigned_at) x
      in Ok \<lparr>is_success = ok, error_message = (if ok then [] else msg)\<rparr>)"

text \<open>The chain with this runtime: it stores the last round of what the runtime accepted.\<close>

definition runtime_chain :: "signature_scheme \<Rightarrow> int option \<Rightarrow> int \<Rightarrow> string \<Rightarrow> chain_model" where
  "runtime_chain verify next_unsigned_at l0 msg =
     storing_chain next_unsigned_at l0 (runtime_submit verify next_unsigned_at msg)"

text \<open>A key pair is valid for the scheme when what it signs verifies under its public key.\<close>

definition valid_keypair :: "signature_scheme \<Rightarrow> bytes \<Rightarrow> (bytes \<Rightarrow> bytes) \<Rightarrow> bool" where
  "valid_keypair verify pk sg \<longleftrightarrow> (\<forall>m. verify pk m (sg m))"

section \<open>What the runtime accepts\<close>

lemma runtime_submit_ok [simp]: "is_ok (runtime_submit verify nua msg n x)"
  by (simp add: runtime_submit_def Let_def)

lemma accepted_runtime:
  "accepted (runtime_submit verify nua msg) n xs = filter (runtime_accepts verify (or_0 nua)) xs"
  by (induction xs arbitrary: n) (simp_all add: runtime_submit_def Let_def)

lemma runtime_chain_queries:
  "runtime_chain verify nua l0 msg k xs ''Drand'' ''NextUnsignedAt'' = Ok nua"
  "runtime_chain verify nua l0 msg k xs ''Drand'' ''LastStoredRound''
     = Ok (Some (last_round l0 (accepted (runtime_submit verify nua msg) 0 xs)))"
  by (simp_all add: runtime_chain_def storing_chain_def mock_chain_def)

text \<open>A signed submission of a valid key pair for a block not before the threshold is accepted.\<close>

lemma signed_accepted:
  assumes "read_call x = Some (pp, s)" and "signed_submission pk sg (pp, s)"
    and "valid_keypair verify pk sg" and "\<not> block_number pp < nua"
  shows "runtime_accepts verify nua x"
  using assms
  by (auto simp: runtime_accepts_def signed_submission_def valid_keypair_def split: sum.splits)

lemma subseq_set: "subseq xs ys \<Longrightarrow> set xs \<subseteq> set ys"
  by (auto elim: list_emb_set)

text \<open>From the log to the extrinsics: what holds of every entry of a readable log.\<close>

lemma readable_all:
  assumes "list_all (\<lambda>x. read_call x \<noteq> None) xs" and "list_all P (List.map_filter read_call xs)"
  shows "list_all (\<lambda>x. \<exists>sb. read_call x = Some sb \<and> P sb) xs"
  using assms by (induction xs) auto

section \<open>The cycle against the runtime\<close>

text \<open>A scheme for the examples: the key \<open>[9, 9]\<close> signs by reversing the bytes.\<close>

definition ex_verify :: signature_scheme where
  "ex_verify pk m s \<longleftrightarrow> pk = [9, 9] \<and> s = rev m"

text \<open>
  What a cycle submits against a beacon that answers is accepted by the runtime: the
  extrinsic reads back as the payload that was signed.
\<close>

lemma served_accepted:
  assumes "encodable_payload \<lparr>block_number = b, pulses = ps, public = pk\<rparr>"
    and "valid_keypair verify pk sg" and "\<not> b < nua"
  shows "runtime_accepts verify nua (Unsigned_extrinsic (compose_write_pulse b ps pk
      (sg (payload_bytes \<lparr>block_number = b, pulses = ps, public = pk\<rparr>))))"
  using assms by (simp add: runtime_accepts_def encode_pulses_payload_encodable valid_keypair_def)

text \<open>The rounds of a list of pulses are the rounds asked for exactly when each pulse is.\<close>

lemma map_round_num_iff:
  "map (round_num \<circ> beacon) rs = map JInt rs \<longleftrightarrow> (\<forall>r \<in> set rs. round_num (beacon r) = JInt r)"
  by (induction rs) auto

text \<open>
  C22. The round of a response is never compared with the round asked for, neither by
  the program nor by the runtime of the specification. When the chain answers, the block
  is not below the threshold and the first endpoint serves, for each target round, a
  pulse the validator and the encoder accept, the cycle submits one extrinsic that
  carries the rounds of the pulses served, whatever they are, in the order of the
  requests, and the runtime accepts it when the key pair is valid. So the rounds of the
  payload are the consecutive rounds above the last stored one, as the data model of the
  specification requires, exactly when the beacon has answered every request with the
  round requested.
\<close>

theorem cycle_trusts_response_round:
  fixes w :: "'a world_scheme"
  assumes "query w ''Drand'' ''NextUnsignedAt'' = Ok v1" "\<not> b < or_0 v1"
      "query w ''Drand'' ''LastStoredRound'' = Ok v2"
    and "serves w latest_path (resp_of_pulse pc)" "round_num pc = JInt c"
      "length (randomness pc) = 32"
    and "l = bootstrap (or_0 v2) c" "l < c" "n = rounds_to_fetch_of c l"
    and "\<forall>r \<in> set (target_rounds l n).
      serves w (round_path r) (resp_of_pulse (beacon r)) \<and> length (randomness (beacon r)) = 32"
    and "encodable_payload
      \<lparr>block_number = b, pulses = map beacon (target_rounds l n), public = public_key w\<rparr>"
    and "valid_keypair verify (public_key w) (sign w)"
  shows "\<exists>x. submitted (snd (submit_new_pulses b w)) = submitted w @ [x]
    \<and> runtime_accepts verify (or_0 v1) x
    \<and> rounds_of x = map (round_num \<circ> beacon) [l + 1..l + n]
    \<and> (rounds_of x = map JInt [l + 1..l + n]
         \<longleftrightarrow> (\<forall>r \<in> {l + 1..l + n}. round_num (beacon r) = JInt r))"
proof -
  let ?x = "Unsigned_extrinsic (compose_write_pulse b (map beacon (target_rounds l n)) (public_key w)
         (sign w (payload_bytes
            \<lparr>block_number = b, pulses = map beacon (target_rounds l n), public = public_key w\<rparr>)))"
  from cycle_served_submitted [OF assms(1-11)]
  have "submitted (snd (submit_new_pulses b w)) = submitted w @ [?x]" .
  moreover from assms(11,12,2) have "runtime_accepts verify (or_0 v1) ?x"
    by (rule served_accepted)
  moreover have "rounds_of ?x = map (round_num \<circ> beacon) [l + 1..l + n]"
    by (simp add: target_rounds_upto)
  ultimately show ?thesis
    using map_round_num_iff [of beacon "[l + 1..l + n]"] by (intro exI [of _ ?x]) simp
qed

theorem cycle_trusts_response_round_witness:
  "\<exists>x. submitted (snd (submit_new_pulses 7 (mock_world (Some 0) (Some 9) (resp_of_pulse (ex_pulse 10))
         [(10, resp_of_pulse (ex_pulse 999))]))) = [x]
     \<and> runtime_accepts ex_verify 0 x \<and> rounds_of x = [JInt 999] \<and> last_round 9 [x] = 999"
proof -
  let ?w = "mock_world (Some 0) (Some 9) (resp_of_pulse (ex_pulse 10))
       [(10, resp_of_pulse (ex_pulse 999))]"
  have gate: "bootstrap (or_0 (Some 9)) 10 = 9" "rounds_to_fetch_of 10 9 = 1"
    "target_rounds 9 1 = [10]"
    by (simp_all add: rounds_to_fetch_of_def MAX_PULSES_TO_FETCH_def target_rounds_upto)
  have served: "\<forall>r \<in> set [10]. serves ?w (round_path r) (resp_of_pulse (ex_pulse 999))
      \<and> length (randomness (ex_pulse 999)) = 32"
    by (simp add: mock_defs)
  have enc: "encodable_payload \<lparr>block_number = 7, pulses = [ex_pulse 999], public = [9, 9]\<rparr>"
    by (simp add: encodable_payload_def encodable_pulse_def ex_pulse_def)
  from cycle_trusts_response_round [of ?w "Some 0" 7 "Some 9" "ex_pulse 10" 10 9 1
      "\<lambda>r. ex_pulse 999" ex_verify] served enc
  obtain x where "submitted (snd (submit_new_pulses 7 ?w)) = [x]" "runtime_accepts ex_verify 0 x"
    "rounds_of x = [JInt 999]"
    by (auto simp: gate mock_simps valid_keypair_def ex_verify_def ex_pulse_def upto.simps)
  then show ?thesis
    by (auto simp: last_round_def)
qed

section \<open>The run against the runtime\<close>

text \<open>
  Every extrinsic the program has submitted since its start is accepted by the runtime,
  provided its key pair is valid and the headers are not before the threshold: the log
  holds only signed submissions for blocks of the headers (\<open>run_log_grows\<close>).
\<close>

lemma run_accepted:
  fixes w :: "'a world_scheme"
  assumes "submitted w = []" and "valid_keypair verify (public_key w) (sign w)"
    and "\<forall>obj \<in> set objs. \<not> number obj < nua"
  shows "list_all (runtime_accepts verify nua) (submitted (snd (run_subscription chain objs w)))"
proof -
  let ?w = "snd (run_subscription chain objs w)"
  let ?P = "\<lambda>sb. signed_submission (public_key w) (sign w) sb \<and> \<not> block_number (fst sb) < nua"
  from assms(1) have "readable w" "log_of w = []"
    by (simp_all add: readable_def log_of_def)
  with run_log_grows [of w chain objs]
  have r: "readable ?w" and emb: "subseq (map (\<lambda>sb. block_number (fst sb)) (log_of ?w)) (map number objs)"
    and sg: "list_all (signed_submission (public_key w) (sign w)) (log_of ?w)"
    by auto
  from subseq_set [OF emb] assms(3) have "\<forall>sb \<in> set (log_of ?w). \<not> block_number (fst sb) < nua"
    by auto
  with sg have "list_all ?P (log_of ?w)"
    by (simp add: list_all_iff)
  with r have "list_all (\<lambda>x. \<exists>sb. read_call x = Some sb \<and> ?P sb) (submitted ?w)"
    unfolding readable_def log_of_def by (rule readable_all)
  with assms(2) show ?thesis
    by (auto simp: list_all_iff intro: signed_accepted)
qed

text \<open>
  So against the runtime and an honest beacon nothing is rejected, and after \<open>n\<close> headers
  the chain has stored the rounds up to \<open>l0 + 50 n\<close>, or up to the latest round.
\<close>

lemma run_converges:
  fixes w :: "'a world_scheme"
  assumes "submit w = runtime_submit verify nua msg" and "submitted w = []"
    and "valid_keypair verify (public_key w) (sign w)"
    and "0 < l0" and "l0 \<le> c" and "c < 2 ^ 64"
    and "\<forall>obj \<in> set objs. \<not> number obj < or_0 nua \<and> 0 \<le> number obj \<and> number obj < 2 ^ 32"
    and "honest_beacon w beacon l0 c"
  shows "fst (run_subscription (runtime_chain verify nua l0 msg) objs w) = Ok ()
    \<and> list_all (runtime_accepts verify (or_0 nua))
         (submitted (snd (run_subscription (runtime_chain verify nua l0 msg) objs w)))
    \<and> concat (map rounds_of (submitted (snd (run_subscription (runtime_chain verify nua l0 msg) objs w))))
        = map JInt [l0 + 1..min c (l0 + 50 * int (length objs))]"
proof -
  let ?chain = "runtime_chain verify nua l0 msg"
  let ?sb = "runtime_submit verify nua msg"
  let ?ys = "submitted (snd (run_subscription ?chain objs w))"
  from assms(7) have "\<forall>obj \<in> set objs. \<not> number obj < or_0 nua"
    by simp
  note acc = run_accepted [OF assms(2,3) this, of ?chain]
  then have all: "accepted ?sb 0 ?ys = ?ys"
    by (simp add: accepted_runtime list_all_iff)
  have q: "?chain k xs ''Drand'' ''NextUnsignedAt'' = Ok nua"
    "?chain k ([] @ xs) ''Drand'' ''LastStoredRound'' = Ok (Some (last_round l0 (accepted ?sb (length []) xs)))"
    for k xs
    by (simp_all add: runtime_chain_queries)
  have st: "submitted w = [] @ []" "consecutive l0 c (accepted ?sb (length []) [])"
    "\<forall>m x. is_ok (?sb m x)"
    by (simp_all add: assms(2))
  from run_catches_up_from [where xs = "[]" and ?sub0.0 = "[]" and sid = 0 and k = 0
      and chain = ?chain and sb = ?sb and ?l0.0 = l0 and ?v1.0 = nua,
      OF q assms(4-7) st(1) assms(1) st(2) assms(8) st(3)]
  obtain ys where "fst (run_subscription ?chain objs w) = Ok ()" "?ys = ys"
    "length ys \<le> length objs" "consecutive l0 c (accepted ?sb 0 ys)"
    "length ys = length objs \<or> stored l0 c (accepted ?sb 0 ys) = c"
    by (auto simp: run_subscription_def)
  with all have run: "fst (run_subscription ?chain objs w) = Ok ()" "length ?ys \<le> length objs"
    "consecutive l0 c ?ys" "length ?ys = length objs \<or> stored l0 c ?ys = c"
    by simp_all
  from run(2,4) assms(5) have "stored l0 c ?ys = min c (l0 + 50 * int (length objs))"
    by (auto simp: stored_def min_def)
  with run(1,3) acc show ?thesis
    by (simp add: consecutive_def)
qed

end
