(* ===== verification/Beacon_Api.thy ===== *)
theory Beacon_Api
  imports Catch_Up
begin

text \<open>
  The HTTP interface of the beacon, as section 6 of the specification states it: the
  request for \<^verbatim>\<open>{endpoint}/{chain}/public/{round}\<close> is answered with the pulse of that
  round and the request for \<^verbatim>\<open>{endpoint}/{chain}/public/latest\<close> with the most recent
  one, as JSON objects with the fields \<^verbatim>\<open>round\<close>, \<^verbatim>\<open>randomness\<close> and \<^verbatim>\<open>signature\<close>.
  The beacon is not code of this repository; this theory is the model of it that the
  closed system is run against. It reads the addresses the fetcher builds back into
  rounds, so that the fetcher and the beacon agree on them is proved and not assumed.
\<close>

section \<open>The beacon\<close>

text \<open>The path of an address at one of the endpoints: what follows the first endpoint that starts it.\<close>

fun path_of :: "string list \<Rightarrow> string \<Rightarrow> string option" where
  "path_of [] uri = None"
| "path_of (endpoint # endpoints) uri =
     (if take (length endpoint) uri = endpoint then Some (drop (length endpoint) uri)
      else path_of endpoints uri)"

text \<open>The round a path asks for: the decimal text after the prefix of the chain, in the form \<open>str_int\<close> writes.\<close>

definition round_of_path :: "string \<Rightarrow> int option" where
  "round_of_path p =
     (let pre = ''/'' @ CHAIN_HASH @ ''/public/'' in
      if take (length pre) p = pre
      then (case int_of_str (drop (length pre) p) of
              Some r \<Rightarrow> if str_int r = drop (length pre) p then Some r else None
            | None \<Rightarrow> None)
      else None)"

text \<open>
  The beacon with the pulses \<open>beacon\<close>, the rounds 1 to \<open>latest\<close> published, every request
  taking \<open>duration\<close>: an address of no endpoint fails in the transport, a round not yet
  published and a path that is no round get status 404.
\<close>

definition beacon_api :: "(int \<Rightarrow> pulse) \<Rightarrow> int \<Rightarrow> int \<Rightarrow> nat \<Rightarrow> string \<Rightarrow> http_outcome \<times> int" where
  "beacon_api beacon latest duration n uri =
     (case path_of DRAND_ENDPOINTS uri of
        None \<Rightarrow> (RequestException, duration)
      | Some p \<Rightarrow>
          if p = latest_path then (Response 200 (Some (resp_of_pulse (beacon latest))), duration)
          else (case round_of_path p of
                  Some r \<Rightarrow>
                    if 1 \<le> r \<and> r \<le> latest
                    then (Response 200 (Some (resp_of_pulse (beacon r))), duration)
                    else (Response 404 None, duration)
                | None \<Rightarrow> (Response 404 None, duration)))"

text \<open>
  The pulses of the data model (section 3): the pulse of round \<open>r\<close> carries the round
  \<open>r\<close>, 32 bytes of randomness and a signature whose length can be encoded.
\<close>

definition wellformed_pulses :: "(int \<Rightarrow> pulse) \<Rightarrow> int \<Rightarrow> bool" where
  "wellformed_pulses beacon latest \<longleftrightarrow>
     list_all (\<lambda>r. round_num (beacon r) = JInt r \<and> length (randomness (beacon r)) = 32
                  \<and> int (length (signature (beacon r))) < compact_limit) [1..latest]"

section \<open>The addresses of the fetcher, read back\<close>

lemma path_of_endpoint [simp]: "path_of (endpoint # endpoints) (endpoint @ p) = Some p"
  by simp

lemma path_of_first [simp]: "path_of DRAND_ENDPOINTS (hd DRAND_ENDPOINTS @ p) = Some p"
  by (simp add: DRAND_ENDPOINTS_def)

lemma round_of_path_round [simp]: "round_of_path (round_path r) = Some r"
  by (simp add: round_of_path_def round_path_def)

lemma beacon_api_latest:
  "beacon_api beacon latest d n (hd DRAND_ENDPOINTS @ latest_path)
     = (Response 200 (Some (resp_of_pulse (beacon latest))), d)"
  by (simp add: beacon_api_def)

lemma beacon_api_round:
  "beacon_api beacon latest d n (hd DRAND_ENDPOINTS @ round_path r)
     = (if 1 \<le> r \<and> r \<le> latest then Response 200 (Some (resp_of_pulse (beacon r)))
        else Response 404 None, d)"
  by (simp add: beacon_api_def)

lemma beacon_api_duration [simp]: "snd (beacon_api beacon latest d n uri) = d"
  by (simp add: beacon_api_def split: option.splits)

section \<open>The beacon is honest\<close>

lemma beacon_api_serves:
  assumes "http w = beacon_api beacon latest d"
  shows "serves w latest_path (resp_of_pulse (beacon latest))"
    and "1 \<le> r \<Longrightarrow> r \<le> latest \<Longrightarrow> serves w (round_path r) (resp_of_pulse (beacon r))"
  by (simp_all add: serves_def assms beacon_api_latest beacon_api_round)

lemma beacon_api_honest:
  assumes "http w = beacon_api beacon c d" and "wellformed_pulses beacon c"
    and "0 \<le> l0" and "0 < c"
  shows "honest_beacon w beacon l0 c"
  using assms(2-) beacon_api_serves [OF assms(1)]
  by (auto simp: honest_beacon_def wellformed_pulses_def list_all_iff)

lemma beacon_api_durations: "http w = beacon_api beacon c d \<Longrightarrow> 0 \<le> d \<Longrightarrow> d \<le> T \<Longrightarrow> durations_within T w"
  by (simp add: durations_within_def)

section \<open>The fetcher against the beacon\<close>

lemma path_of_endpoints: "e \<in> set DRAND_ENDPOINTS \<Longrightarrow> path_of DRAND_ENDPOINTS (e @ p) = Some p"
  by (auto simp: DRAND_ENDPOINTS_def)

lemma beacon_api_unpublished:
  assumes "e \<in> set DRAND_ENDPOINTS" and "\<not> (1 \<le> r \<and> r \<le> latest)"
  shows "\<not> usable (fst (beacon_api beacon latest d n (e @ round_path r)))"
  using assms by (simp add: beacon_api_def path_of_endpoints)

lemma fetch_loop_unusable:
  assumes "\<forall>n. \<forall>e \<in> set es. \<not> usable (fst (http w n (e @ p)))"
  shows "fst (fetch_loop deadline p es w) = no_endpoint"
  using assms
proof (induction es arbitrary: w)
  case (Cons e es)
  let ?w = "snd (requests_get (e @ p) w)"
  from Cons.prems have "fst (fetch_loop deadline p es ?w) = no_endpoint"
    by (intro Cons.IH) simp
  moreover from Cons.prems have "\<not> usable (fst (requests_get (e @ p) w))"
    by simp
  ultimately show ?case
    by (simp add: fetch_loop_Cons Let_def)
qed simp

lemma fetch_unpublished:
  assumes "http w = beacon_api beacon latest d" and "\<not> (1 \<le> r \<and> r \<le> latest)"
  shows "fst (fetch_drand_by_round r w) = no_endpoint"
proof -
  have "fetch_drand_by_round r w
      = fetch_loop (now w + HTTP_FETCH_TIMEOUT) (round_path r) DRAND_ENDPOINTS w"
    by (simp add: fetch_drand_by_round_def fetch_from_any_endpoint_def round_path_def)
  with fetch_loop_unusable [of DRAND_ENDPOINTS w "round_path r"] assms show ?thesis
    by (simp add: beacon_api_unpublished)
qed

section \<open>The example\<close>

text \<open>The beacon of the end-to-end example: the pulses \<open>ex_pulse\<close>, round 12 the latest, 5 milliseconds a request.\<close>

definition ex_beacon_net :: net_world where
  "ex_beacon_net = \<lparr>now = 0, http = beacon_api ex_pulse 12 5, requests = []\<rparr>"

lemma ex_wellformed: "wellformed_pulses ex_pulse 12"
  by (simp add: wellformed_pulses_def list_all_iff ex_pulse_def)

section \<open>The property of the interface\<close>

text \<open>
  C17. The fetcher and the beacon agree on the addresses. Against the beacon of the
  specification the fetch of the latest pulse returns the pulse of the latest round,
  and the fetch of round \<open>r\<close> returns the pulse of round \<open>r\<close> after one request, to the
  first endpoint, when that round is published, and raises the exception of the
  fetcher when it is not: the decimal text the program writes into the address is read
  back as the same round.
\<close>

theorem fetch_from_beacon_api:
  assumes "http w = beacon_api beacon latest d"
  shows "fst (fetch_drand_latest w) = Ok (resp_of_pulse (beacon latest))
    \<and> fst (fetch_drand_by_round r w)
        = (if 1 \<le> r \<and> r \<le> latest then Ok (resp_of_pulse (beacon r)) else no_endpoint)
    \<and> (1 \<le> r \<and> r \<le> latest \<longrightarrow>
         requests (snd (fetch_drand_by_round r w)) = requests w @ [hd DRAND_ENDPOINTS @ round_path r])"
  using fetch_drand_latest_served [OF beacon_api_serves(1) [OF assms]]
    fetch_drand_by_round_served [OF beacon_api_serves(2) [OF assms], of r]
    fetch_unpublished [OF assms, of r]
  by simp

theorem fetch_from_beacon_api_witness:
  "fst (fetch_drand_latest ex_beacon_net) = Ok (resp_of_pulse (ex_pulse 12))
   \<and> fst (fetch_drand_by_round 11 ex_beacon_net) = Ok (resp_of_pulse (ex_pulse 11))
   \<and> requests (snd (fetch_drand_by_round 11 ex_beacon_net)) = [hd DRAND_ENDPOINTS @ round_path 11]
   \<and> fst (fetch_drand_by_round 13 ex_beacon_net) = no_endpoint"
  using fetch_from_beacon_api [of ex_beacon_net ex_pulse 12 5 11]
    fetch_from_beacon_api [of ex_beacon_net ex_pulse 12 5 13]
  by (simp add: ex_beacon_net_def)

end
