(* ===== verification/Spec2Isabelle.thy ===== *)
theory Spec2Isabelle
  imports Process Chain_Runtime Beacon_Api
begin

text \<open>
  \<^bold>\<open>A verification development for the drand pulse conduit\<close> (\<^verbatim>\<open>src/ocw.py\<close>).

  \<^bold>\<open>The program.\<close> On every new block header the script asks the chain when unsigned
  submissions are accepted and which beacon round it stored last, asks the drand
  beacon for its latest round, fetches the missing rounds (at most 50) from a list
  of HTTP endpoints with failover, checks each pulse, serialises block number,
  pulses and public key into a byte string, signs that byte string and submits
  pulses and signature to the chain as an unsigned extrinsic. Its parts, leaf first:

  \<^item> \<^verbatim>\<open>encode_compact_u32\<close> (lines 53-64), the compact integer encoder;
  \<^item> \<^verbatim>\<open>try_into_pulse\<close> (lines 40-51), the pulse validator;
  \<^item> \<^verbatim>\<open>fetch_from_any_endpoint\<close>, \<^verbatim>\<open>fetch_drand_by_round\<close>, \<^verbatim>\<open>fetch_drand_latest\<close>
    (lines 18-38), the endpoint fetcher;
  \<^item> \<^verbatim>\<open>encode_pulse\<close>, \<^verbatim>\<open>encode_pulses_payload\<close> (lines 66-90), the payload encoder;
  \<^item> \<^verbatim>\<open>submit_new_pulses\<close> (lines 95-173), which holds the submission gate (lines
    96-120), the loop over the rounds (lines 121-124) and the submitter (lines 130-173),
    and \<^verbatim>\<open>block_subscription_handler\<close> (lines 175-177), the cycle driver;
  \<^item> the statements of the module itself: the node address (line 6), the connection to
    the node and the key pair (lines 92-93), and the subscription to new block headers
    (line 179), which calls the handler once for each header.

  \<^bold>\<open>How the program is modelled.\<close> Python integers are \<open>int\<close>, byte strings are lists
  of 8-bit words, text is \<open>string\<close>, a parsed JSON body is a value of the datatype
  \<open>jval\<close> (an integer, a string, \<^verbatim>\<open>null\<close>, an array, or an object as a map from keys to
  values). Every exception the program can raise is a
  constructor of the datatype \<open>error\<close>, and a function that can raise returns
  \<open>error + 'a\<close>; no exception is caught anywhere but in the fetcher, and the model
  follows that. What the program does to its surroundings is a function from a world
  to a result and a world: the record \<open>net_world\<close> holds the clock, the network (what
  each request is answered, and after what time) and the requests made; the record
  \<open>world\<close> extends it by the chain (what a query returns, what a submission comes to),
  the key pair (public key and signing function), the extrinsics submitted and the
  lines printed. Network, chain and key pair are parameters: nothing is assumed of them
  except where a theorem says so.

  \<^bold>\<open>The theories.\<close>

  \<^item> \<open>Prelude\<close>: \<open>byte\<close>, \<open>bytes\<close>, \<open>error\<close>, results with \<open>bind_res\<close> and \<open>map_res\<close>,
    world-passing computations with \<open>bind_io\<close>, and the shared facts on results, lists
    and integer bit operations (collections \<open>res_simps\<close>, \<open>enc_defs\<close>, \<open>enc_length\<close>).
  \<^item> \<open>Py_Builtins\<close>: the built-ins the program calls, executable, with the exceptions
    they raise: \<open>to_bytes\<close> (\<^verbatim>\<open>int.to_bytes(n, 'little')\<close>), \<open>bytes_hex\<close>, \<open>unhexlify\<close>,
    \<open>py_range\<close>, \<open>str_int\<close>; their lengths, inverses and error conditions. The reader
    \<open>int_of_str\<close> is a specification: \<open>str_int\<close> read back gives the integer, so the text
    of a round determines the round.
  \<^item> \<open>Compact_Encoder\<close>: \<open>encode_compact_u32\<close> with the shifts and masks of the source;
    beside it the table of tiers (\<open>compact_tag\<close>, \<open>compact_width\<close>), a decoder
    \<open>decode_compact\<close> and the SCALE reference \<open>scale_compact_u32\<close>, which are
    specifications and model no line of the program.
  \<^item> \<open>Pulse_Validator\<close>: \<open>jval\<close>, the record \<open>pulse\<close>, \<open>try_into_pulse\<close> with its lookups
    and checks in the order of the code.
  \<^item> \<open>Endpoint_Fetcher\<close>: the constants, \<open>net_world\<close>, \<open>requests_get\<close>, the loop
    \<open>fetch_loop\<close> over the endpoints with the deadline, \<open>fetch_from_any_endpoint\<close> and
    its two callers; beside them \<open>usable\<close>, \<open>durations_within\<close>, \<open>serves\<close> and the cost
    relation \<open>net_cost\<close>.
  \<^item> \<open>Payload_Encoder\<close>: the record \<open>pulses_payload\<close>, \<open>encode_pulse\<close>, the loop
    \<open>encode_pulses_loop\<close> and \<open>encode_pulses_payload\<close>; beside them the layout
    \<open>payload_bytes\<close>, the predicate \<open>encodable_payload\<close>, the decoder
    \<open>decode_pulses_payload\<close>, and the types of the data model of the specification as
    predicates (\<open>typed_pulse\<close>, \<open>typed_payload\<close>).
  \<^item> \<open>Submission_Gate\<close>: the decision of lines 96-122 as the pure functions the code
    computes: \<open>or_0\<close>, \<open>int_of_jval\<close>, \<open>bootstrap\<close>, \<open>rounds_to_fetch_of\<close>,
    \<open>target_rounds\<close>, with \<open>MAX_PULSES_TO_FETCH\<close>; beside them the decision as section
    4.5 of the specification states it (\<open>decision\<close>, \<open>gate_decision\<close>: below the
    threshold, no gap, or the rounds to fetch), which models no line of the program.
  \<^item> \<open>Submitter\<close>: the records of the call parameters, \<open>world\<close> with the operations of
    the chain client and \<open>print\<close>, and lines 130-173: \<open>pulses_for_call_of\<close>,
    \<open>compose_write_pulse\<close>, \<open>sign_and_submit\<close>; beside them the readers of a call
    (\<open>payload_of_call\<close>, \<open>signature_of_call\<close>).
  \<^item> \<open>Cycle_Driver\<close>: the loop \<open>fetch_pulses\<close>, the cycle \<open>submit_new_pulses\<close> and the
    handler; beside them the frame \<open>net_frame\<close> and the lemmas on the paths, the cost
    and the outcome of a cycle.
  \<^item> \<open>Cycle_Properties\<close>: the properties of the cycle, and a mocked chain and beacon
    (\<open>mock_world\<close>, the end-to-end example \<open>ex_cycle_world\<close>) for the witnesses.
  \<^item> \<open>Subscription\<close>: \<open>run_subscription\<close>, the call of line 179, over the loop
    \<open>subscribe_block_headers\<close> of the client library, which is modelled from the
    specification: the headers of a finite prefix of the feed are handled one after the
    other, the chain may answer differently at each header and according to what it has
    been handed (\<open>deliver\<close>, \<open>chain_model\<close>), and an exception of the handler ends the
    loop.
  \<^item> \<open>Run_Machine\<close>: the same run as a transition system. \<open>steps\<close> is the closure of
    any step relation over a list of events, with the rules for invariants and for
    simulation through an abstraction function. \<open>run_step\<close> is one iteration of
    the subscription over the states \<open>Running\<close> and \<open>Ended\<close>. \<open>log_step\<close> is the
    machine of the specification over the log of submissions, and \<open>log_of\<close> the
    abstraction function, which reads each extrinsic submitted back as a payload and a
    signature (\<open>read_call\<close>).
  \<^item> \<open>Catch_Up\<close>: the program together with a chain that stores the rounds of the
    submissions it accepted (\<open>accepted\<close>, \<open>last_round\<close>, \<open>storing_chain\<close>, from sections
    3 and 5 of the specification; which submissions are accepted is a parameter) and a
    beacon that serves the round requested (\<open>honest_beacon\<close>); \<open>stored\<close> and
    \<open>consecutive\<close> say what the chain then holds.
  \<^item> \<open>Process\<close>: the module run as a script. \<open>libraries\<close> holds the two constructors
    called at lines 92 and 93 as parameters; \<open>substrate_interface\<close> and \<open>keypair\<close> are the
    objects they return, as records of the operations the program calls on them;
    \<open>start\<close> is lines 92-93 (the connection may raise), \<open>initial_world\<close> the world of the
    first cycle, \<open>main\<close> the whole script over the headers delivered, and \<open>reachable\<close>
    the states of the process as an inductive predicate.
  \<^item> \<open>Chain_Runtime\<close>: the chain as the specification describes it (sections 3, 4.4,
    4.6 and 6), for a signature scheme that is a parameter: \<open>runtime_accepts\<close> is the check
    of a submission (not before \<^verbatim>\<open>next_unsigned_at\<close>, the embedded signature verified
    against the embedded public key over the encoded payload), \<open>runtime_submit\<close> the
    receipt of \<^verbatim>\<open>write_pulse\<close>, \<open>runtime_chain\<close> the two queries, \<open>valid_keypair\<close> what
    is required of the signer's key pair.
  \<^item> \<open>Beacon_Api\<close>: the beacon as the specification describes it (section 6):
    \<open>beacon_api\<close> answers the address of a published round with the pulse of that round
    and the address of the latest pulse with the latest, reading the addresses with
    \<open>path_of\<close> and \<open>round_of_path\<close>; \<open>wellformed_pulses\<close> is the data model of the pulses
    it serves.
  \<^item> \<open>Spec2Isabelle\<close> (this theory): the properties that span all of them, after this
    description.

  \<^bold>\<open>What is shown.\<close>

  \<^item> Compact encoder: the bytes of every tier and the vectors at the tier boundaries;
    the round trip through the decoder; that the function raises exactly from \<open>2 ^ 38\<close>
    on; that a negative argument is encoded and not rejected; agreement with SCALE below
    \<open>2 ^ 30\<close> and disagreement for every 32-bit value from there on.
  \<^item> Validator: what a returned pulse satisfies, the round trip from the beacon's
    representation, the exception for randomness of the wrong length, and the complete
    list of exceptions, each with its cause.
  \<^item> Fetcher: the body returned is that of the first usable answer in list order;
    failover; what has happened when it raises; each endpoint asked at most once; the
    bound on the time a fetch takes; that a late answer is still accepted; that
    distinct rounds are requested at distinct addresses. A fetch costs at most five
    requests and the timeout plus one request on the clock (\<open>fetch_cost\<close>), and costs add
    up along \<open>bind_io\<close> (\<open>net_cost_bind_io\<close>).
  \<^item> Payload encoder: the layout written, for exactly the encodable payloads; the loop
    agrees with \<open>encode_pulse\<close>; the round trip through the decoder and so injectivity of
    the signed bytes; the exceptions; the length.
  \<^item> Cycle: the paths of a cycle (\<open>cycle_outcomes\<close>); that whatever a cycle submits is
    one call \<^verbatim>\<open>Drand.write_pulse\<close> whose payload has the types of the data model (a
    32-bit block number, 1 to 50 pulses, 64-bit rounds, 32 bytes of randomness) and whose
    signature is over the encoding of the very payload the call carries; that every
    cycle ends within 51 fetches, 255 requests and 51 times the timeout plus one request
    (\<open>cycle_cost\<close>), whatever the network and the chain answer; that against a beacon that
    answers the missing rounds are submitted in ascending order after one request each;
    that one invalid round aborts the cycle with nothing submitted; the three ways a
    cycle ends without submitting; that the cycle implements the gate of the
    specification (\<open>cycle_by_decision\<close>: it is \<open>gate_decision\<close> followed by what the
    decision asks for); that a latest answer the validator refuses ends
    the cycle after one request (a body that is no object with \<^verbatim>\<open>TypeError\<close>,
    \<open>cycle_no_object\<close>), and that a latest round that is no JSON integer raises
    \<^verbatim>\<open>TypeError\<close> at the gate; the range of target rounds and the first run; that the branch
    of lines 126-128 is dead.
  \<^item> Run: that a cycle that raises, at whatever header, ends the run, later headers
    unhandled; that while
    chain and beacon stay as they are the same batch is submitted at every header.
  \<^item> Machine: the loop and the step relation describe the same runs
    (\<open>subscribe_Ok_steps\<close>, \<open>subscribe_Raise_steps\<close>); every step of the program is a step
    of the specification between the logs (\<open>run_step_log\<close>), so every run of the program
    refines a run of the specification (\<open>run_steps_log\<close>); by induction over the runs of
    the specification a log only grows, by typed submissions signed over their encoding,
    with the block numbers of the headers in the order of delivery and no header twice
    (\<open>log_steps_grow\<close>), and this holds of the program through the refinement. By
    induction over the runs of the machine a run over \<open>n\<close> headers costs at most \<open>51 n\<close>
    fetches (\<open>run_cost\<close>).
  \<^item> Catching up: against the storing chain and an honest beacon, whichever
    submissions the chain rejects, the submissions accepted carry every round above the
    round stored at the start exactly once, in ascending order, 50 at a time; a batch
    that was rejected is submitted again at the next header; nothing is submitted once
    the latest round is stored (\<open>cycle_catches_up\<close>, \<open>run_catches_up_from\<close>). The example
    \<open>ex_storing_run\<close> is such a run, computed: the submission of block 7 is rejected,
    block 8 submits the rounds 10 to 12 again, block 9 submits nothing.
  \<^item> Process: an exception of the connection ends the program before any request;
    otherwise, by induction over \<open>reachable\<close>, every state of the process has the key pair
    of line 93, a readable log of typed submissions signed by that pair, and the network
    it started with (\<open>reachable_inv\<close>); the outcome of \<open>main\<close> is a reachable state, with
    the block numbers in the order of the headers and at most 255 requests for each
    header.
  \<^item> Runtime: the runtime accepts every submission that is signed by a valid key pair
    for a block not before the threshold (\<open>signed_accepted\<close>), hence every extrinsic the
    program submits in a run from its start (\<open>run_accepted\<close>, from the refinement of
    \<open>Run_Machine\<close>), so that the rounds accepted are all the rounds submitted
    (\<open>run_converges\<close>); and that the round of a response is compared with the round
    requested neither by the program nor by this runtime, so that the rounds of a payload
    are consecutive exactly when the beacon answers every request with the round asked
    for (\<open>cycle_trusts_response_round\<close>).
  \<^item> Beacon: the addresses the fetcher builds are read back by the beacon as the rounds
    they were built for, so that the beacon of the specification is honest
    (\<open>beacon_api_honest\<close>); the fetch of a published round returns its pulse after one
    request, the fetch of an unpublished one raises (\<open>fetch_from_beacon_api\<close>).
  \<^item> End to end (this theory): \<open>main\<close> against the storing chain and an honest beacon
    handles every header, signs what it submits with the key pair of line 93, and hands
    the chain every missing round once and in order (\<open>main_catches_up\<close>), by the rule
    \<open>subscribe_invariant\<close> for the runs that do not raise; against the runtime of the
    specification nothing is rejected and a gap of \<open>g\<close> rounds is closed after \<open>g / 50\<close>
    headers, rounded up (\<open>main_converges\<close>). The witness of the latter is the closed system:
    program, runtime and beacon, with nothing left as a parameter but the toy signature
    scheme.

  \<^bold>\<open>Bounds.\<close> No fuel is needed: every loop of the program runs over a finite list
  (five endpoints, at most 50 rounds, the pulses of a payload) and is a structural
  recursion. The subscription never ends by itself; a run is taken over the list of the
  headers delivered so far, of any length, which is enough for properties of what has
  been submitted, requested and printed up to any moment. That a cycle returns is
  therefore true by construction; what is proved instead is the bound on what it costs:
  requests made and time passed on the clock of the world, which is where a cycle of
  the program could hang. Integers are unbounded as in Python; the widths of the layout (4, 8 and up
  to 5 bytes) appear as the conditions under which \<open>to_bytes\<close> does not raise. The clock
  counts milliseconds.

  \<^bold>\<open>Not modelled.\<close> The HTTP transport, the JSON parser, the chain client and the
  sr25519 signature scheme are libraries the program only calls; they are the
  parameters of the world. The signing function is a function of the bytes signed; for
  a scheme that draws randomness, read it as the signature this run obtained.
  \<^verbatim>\<open>compose_call\<close> and \<^verbatim>\<open>create_unsigned_extrinsic\<close> are taken to succeed. Of the
  JSON values, a boolean is the integer 1 or 0, which is what it is to every operation
  the program applies to a field (arithmetic, comparison, \<^verbatim>\<open>to_bytes\<close>, \<^verbatim>\<open>unhexlify\<close>);
  a number with a fraction or an exponent, which Python reads as a float, is left out,
  since its arithmetic is that of the machine's floating point. Within one cycle the chain
  answers the two queries from one state; between cycles it may change in any way. The
  runtime of the chain and the beacon are not code of this repository: in the lemmas
  about the program they are parameters (\<open>submit\<close>, \<open>chain_model\<close>, \<open>http\<close>), and
  \<open>Chain_Runtime\<close> and \<open>Beacon_Api\<close> hold what the specification states of them. What
  the specification does not state is left out: how the runtime moves
  \<^verbatim>\<open>NextUnsignedAt\<close> after a submission (it is constant in \<open>runtime_chain\<close>), whether it
  checks the rounds of a payload against the round stored or the signatures of the
  beacon, and the signature scheme itself, of which only \<open>valid_keypair\<close> is used. \<^verbatim>\<open>submit_extrinsic\<close> with \<^verbatim>\<open>wait_for_inclusion\<close> is taken to return
  or raise; a submission that blocks for ever is outside the model, as is the time a
  submission takes. \<^verbatim>\<open>Keypair.create_from_uri\<close> is taken to return (the URI is a
  constant that the library accepts). The import statements of lines 1-4 run no code of
  the program; the two constructors they bind are the fields of \<open>libraries\<close>.
\<close>

section \<open>The program against a chain that stores what it accepts\<close>

text \<open>
  Libraries for the witness: the node is the storing chain with round 9 stored, which
  rejects the first submission and accepts the others; the key pair and the beacon are
  those of the end-to-end example.
\<close>

definition ex_storing_libraries :: libraries where
  "ex_storing_libraries =
     ex_libraries\<lparr>SubstrateInterface :=
       (\<lambda>url. Ok \<lparr>si_query = storing_chain (Some 0) 9 ex_receipts,
                   si_submit_extrinsic = ex_receipts\<rparr>)\<rparr>"

lemma ex_storing_start:
  "SubstrateInterface ex_storing_libraries NODE_URL
     = Ok \<lparr>si_query = storing_chain (Some 0) 9 ex_receipts, si_submit_extrinsic = ex_receipts\<rparr>"
  "create_from_uri ex_storing_libraries uri = \<lparr>kp_public_key = [9, 9], kp_sign = rev\<rparr>"
  by (simp_all add: ex_storing_libraries_def ex_libraries_def)

lemma ex_net_honest: "honest_beacon ex_net ex_pulse 9 12"
proof -
  have "http ex_net = http ex_rejecting_world"
    by (simp add: ex_net_def ex_cycle_world_def mock_world_def)
  from honest_beacon_cong [OF this] ex_honest_beacon show ?thesis
    by simp
qed

text \<open>
  C6. The program end to end. The node is reached and is a chain that stores the last
  round of the submissions it accepted, round \<open>l0\<close> at the start; the beacon's latest
  round is \<open>c\<close> and it serves every round requested; the block numbers are not below the
  threshold; no submission raises, whichever are rejected. Then the program handles
  every header delivered and submits at most once for each; every submission is typed
  and signed by the key pair of line 93 over its encoding; the submissions the chain
  accepted carry the rounds from \<open>l0 + 1\<close> on, each once, in ascending order, 50 for
  each accepted submission and never beyond \<open>c\<close>; and every header has led to a
  submission unless the chain has caught up with the beacon.
\<close>

theorem main_catches_up:
  assumes "SubstrateInterface libs NODE_URL = Ok substrate"
    and "\<And>k xs. si_query substrate k xs ''Drand'' ''NextUnsignedAt'' = Ok v1"
    and "\<And>k ys. si_query substrate k ys ''Drand'' ''LastStoredRound''
           = Ok (Some (last_round l0 (accepted (si_submit_extrinsic substrate) 0 ys)))"
    and "0 < l0" and "l0 \<le> c" and "c < 2 ^ 64"
    and "\<forall>obj \<in> set objs. \<not> number obj < or_0 v1 \<and> 0 \<le> number obj \<and> number obj < 2 ^ 32"
    and "honest_beacon net beacon l0 c" and "\<forall>m x. is_ok (si_submit_extrinsic substrate m x)"
  shows "\<exists>w A. main libs objs net = Ok (Ok (), w)
      \<and> length (submitted w) \<le> length objs
      \<and> list_all (signed_submission (kp_public_key (create_from_uri libs ''//Bob''))
            (kp_sign (create_from_uri libs ''//Bob''))) (log_of w)
      \<and> A = accepted (si_submit_extrinsic substrate) 0 (submitted w)
      \<and> concat (map rounds_of A) = map JInt [l0 + 1..min c (l0 + 50 * int (length A))]
      \<and> (length (submitted w) = length objs \<or> min c (l0 + 50 * int (length A)) = c)"
proof -
  let ?kp = "create_from_uri libs ''//Bob''"
  let ?init = "initial_world substrate ?kp net"
  let ?run = "run_subscription (si_query substrate) objs ?init"
  note m = main_run [OF assms(1), of objs net]
  from assms(8) have "honest_beacon ?init beacon l0 c"
    by (simp add: honest_beacon_cong [of ?init net])
  from run_catches_up_from [where xs = "[]" and ?sub0.0 = "[]" and w = ?init and sid = 0 and k = 0
      and sb = "si_submit_extrinsic substrate" and chain = "si_query substrate" and objs = objs
      and ?l0.0 = l0 and c = c, OF assms(2) _ assms(4-7) _ _ _ this assms(9)] assms(3)
  have run: "fst ?run = Ok ()" "length (submitted (snd ?run)) \<le> length objs"
    "concat (map rounds_of (accepted (si_submit_extrinsic substrate) 0 (submitted (snd ?run))))
       = map JInt [l0 + 1..min c (l0 + 50 * int (length
            (accepted (si_submit_extrinsic substrate) 0 (submitted (snd ?run)))))]"
    "length (submitted (snd ?run)) = length objs
      \<or> min c (l0 + 50 * int (length
            (accepted (si_submit_extrinsic substrate) 0 (submitted (snd ?run))))) = c"
    by (auto simp: run_subscription_def consecutive_def stored_def)
  from main_reachable [of libs objs net "fst ?run" "snd ?run"] m
  obtain s where "reachable libs net s" "world_of s = snd ?run"
    by auto
  with reachable_inv [of libs net s]
  have "list_all (signed_submission (kp_public_key ?kp) (kp_sign ?kp)) (log_of (snd ?run))"
    by (simp add: process_inv_def)
  with run m show ?thesis
    by (intro exI [of _ "snd ?run"]) (simp add: prod_eq_iff)
qed

theorem main_catches_up_witness:
  "\<exists>w. main ex_storing_libraries ex_three_headers ex_net = Ok (Ok (), w)
     \<and> submitted w = [ex_extrinsic 7, ex_extrinsic 8]
     \<and> list_all (signed_submission [9, 9] rev) (log_of w)
     \<and> accepted ex_receipts 0 (submitted w) = [ex_extrinsic 8]
     \<and> concat (map rounds_of [ex_extrinsic 8]) = map JInt [10..12]"
proof -
  have "initial_world \<lparr>si_query = storing_chain (Some 0) 9 ex_receipts, si_submit_extrinsic = ex_receipts\<rparr>
      \<lparr>kp_public_key = [9, 9], kp_sign = rev\<rparr> ex_net = ex_rejecting_world"
    by (simp add: initial_world_def ex_rejecting_world_def ex_cycle_world_def mock_world_def
        ex_net_def storing_chain_def last_round_def)
  with main_run [OF ex_storing_start(1), of ex_three_headers ex_net] ex_storing_run(1)
  have "main ex_storing_libraries ex_three_headers ex_net
      = Ok (Ok (), snd (run_subscription (storing_chain (Some 0) 9 ex_receipts) ex_three_headers
                          ex_rejecting_world))"
    by (simp add: ex_storing_start(2))
  with main_catches_up [OF ex_storing_start(1), of "Some 0" 9 12 ex_three_headers ex_net ex_pulse]
    ex_net_honest ex_storing_run(2,3)
  show ?thesis
    by (simp add: ex_storing_start(2) storing_chain_def mock_chain_def ex_receipts_def)
qed

section \<open>The program against the runtime of the chain and the beacon of the specification\<close>

text \<open>
  The closed system for the witness: the runtime of the chain for the signature scheme
  \<open>ex_verify\<close>, in which the signature of the key \<open>[9, 9]\<close> over bytes is the bytes
  reversed, with round 9 stored, the key pair of the example, and the beacon of the
  specification.
\<close>


definition ex_runtime_libraries :: libraries where
  "ex_runtime_libraries =
     ex_libraries\<lparr>SubstrateInterface :=
       (\<lambda>url. Ok \<lparr>si_query = runtime_chain ex_verify (Some 0) 9 ''BadProof'',
                   si_submit_extrinsic = runtime_submit ex_verify (Some 0) ''BadProof''\<rparr>)\<rparr>"

lemma ex_runtime_start:
  "SubstrateInterface ex_runtime_libraries NODE_URL
     = Ok \<lparr>si_query = runtime_chain ex_verify (Some 0) 9 ''BadProof'',
            si_submit_extrinsic = runtime_submit ex_verify (Some 0) ''BadProof''\<rparr>"
  "create_from_uri ex_runtime_libraries uri = \<lparr>kp_public_key = [9, 9], kp_sign = rev\<rparr>"
  by (simp_all add: ex_runtime_libraries_def ex_libraries_def)

text \<open>
  Whatever the chain and the beacon are, nothing the program submits fails the check of
  the runtime: every extrinsic is signed by the key pair of line 93 over the encoding of
  the payload it carries, for the block of a header.
\<close>

lemma main_accepted:
  assumes "main libs objs net = Ok (r, w)"
    and "valid_keypair verify (kp_public_key (create_from_uri libs ''//Bob''))
           (kp_sign (create_from_uri libs ''//Bob''))"
    and "\<forall>obj \<in> set objs. \<not> number obj < nua"
  shows "list_all (runtime_accepts verify nua) (submitted w)"
proof -
  from assms(1) obtain substrate where "SubstrateInterface libs NODE_URL = Ok substrate"
    by (auto simp: main_def start_def res_simps)
  from main_run [OF this, of objs net] assms(1)
  have "w = snd (run_subscription (si_query substrate) objs
      (initial_world substrate (create_from_uri libs ''//Bob'') net))"
    by (simp add: prod_eq_iff)
  with run_accepted [of "initial_world substrate (create_from_uri libs ''//Bob'') net" verify objs nua
      "si_query substrate"] assms(2,3)
  show ?thesis by simp
qed

text \<open>
  C7. The program converges. The node is reached and is the chain with the runtime of
  the specification; the key pair of line 93 is valid for the signature scheme of the
  runtime; the beacon's latest round is \<open>c\<close> and it serves every round requested; the
  block numbers are not before the threshold. Then the program handles every header
  delivered, the runtime accepts every extrinsic the program submits, and after \<open>n\<close>
  headers the chain has been handed exactly the rounds from \<open>l0 + 1\<close> up to \<open>l0 + 50 n\<close>,
  or up to \<open>c\<close> if that is less, each once and in ascending order, and reports the last
  of them as \<^verbatim>\<open>LastStoredRound\<close>: a gap of \<open>g\<close> rounds is closed after \<open>g / 50\<close> headers,
  rounded up.
\<close>

theorem main_converges:
  assumes "SubstrateInterface libs NODE_URL
      = Ok \<lparr>si_query = runtime_chain verify nua l0 msg,
             si_submit_extrinsic = runtime_submit verify nua msg\<rparr>"
    and "valid_keypair verify (kp_public_key (create_from_uri libs ''//Bob''))
           (kp_sign (create_from_uri libs ''//Bob''))"
    and "0 < l0" and "l0 \<le> c" and "c < 2 ^ 64"
    and "\<forall>obj \<in> set objs. \<not> number obj < or_0 nua \<and> 0 \<le> number obj \<and> number obj < 2 ^ 32"
    and "honest_beacon net beacon l0 c"
  shows "\<exists>w. main libs objs net = Ok (Ok (), w)
      \<and> list_all (runtime_accepts verify (or_0 nua)) (submitted w)
      \<and> concat (map rounds_of (submitted w)) = map JInt [l0 + 1..min c (l0 + 50 * int (length objs))]
      \<and> runtime_chain verify nua l0 msg (length objs) (submitted w) ''Drand'' ''LastStoredRound''
          = Ok (Some (min c (l0 + 50 * int (length objs))))"
proof -
  let ?sub = "\<lparr>si_query = runtime_chain verify nua l0 msg,
      si_submit_extrinsic = runtime_submit verify nua msg\<rparr>"
  let ?init = "initial_world ?sub (create_from_uri libs ''//Bob'') net"
  let ?run = "run_subscription (runtime_chain verify nua l0 msg) objs ?init"
  from assms(7) have "honest_beacon ?init beacon l0 c"
    by (simp add: honest_beacon_cong [of ?init net])
  from run_converges [of ?init verify nua msg l0 c objs beacon, OF _ _ _ assms(3-6) this] assms(2)
  have run: "fst ?run = Ok ()" "list_all (runtime_accepts verify (or_0 nua)) (submitted (snd ?run))"
    "concat (map rounds_of (submitted (snd ?run)))
       = map JInt [l0 + 1..min c (l0 + 50 * int (length objs))]"
    by simp_all
  from run(2) have "accepted (runtime_submit verify nua msg) 0 (submitted (snd ?run)) = submitted (snd ?run)"
    by (simp add: accepted_runtime list_all_iff)
  with last_round_upto [OF run(3)] assms(4)
  have "runtime_chain verify nua l0 msg (length objs) (submitted (snd ?run)) ''Drand'' ''LastStoredRound''
      = Ok (Some (min c (l0 + 50 * int (length objs))))"
    by (simp add: runtime_chain_queries)
  with main_run [OF assms(1), of objs net] run show ?thesis
    by (intro exI [of _ "snd ?run"]) (simp add: prod_eq_iff)
qed

theorem main_converges_witness:
  "\<exists>w. main ex_runtime_libraries ex_three_headers ex_beacon_net = Ok (Ok (), w)
     \<and> list_all (runtime_accepts ex_verify 0) (submitted w)
     \<and> concat (map rounds_of (submitted w)) = map JInt [10, 11, 12]
     \<and> runtime_chain ex_verify (Some 0) 9 ''BadProof'' 3 (submitted w) ''Drand'' ''LastStoredRound''
         = Ok (Some 12)"
proof -
  have "honest_beacon ex_beacon_net ex_pulse 9 12"
    by (rule beacon_api_honest [OF _ ex_wellformed]) (simp_all add: ex_beacon_net_def)
  with main_converges [OF ex_runtime_start(1), of 12 ex_three_headers ex_beacon_net ex_pulse]
  show ?thesis
    by (simp add: ex_runtime_start(2) valid_keypair_def ex_verify_def upto.simps numeral_3_eq_3)
qed

end
